theory Spec2Isabelle
  imports Main
begin

section \<open>JSON documents\<close>

text \<open>
  The script works on the trees that \<^verbatim>\<open>json.load\<close> returns: \<^verbatim>\<open>None\<close>, booleans, numbers,
  strings, lists and dicts with string keys. A dict keeps the order in which its keys were
  inserted, and that order is what \<^verbatim>\<open>json.dump\<close> writes back, so an object is an association
  list. Numbers are never inspected by the code under study except for their truth value
  and as dictionary keys; they are modelled as integers. A character is a code point
  below 256, Isabelle's 8-bit \<^typ>\<open>char\<close>; a string with a code point beyond that is not
  represented.
\<close>

datatype json =
    JNull
  | JBool bool
  | JNum int
  | JStr string
  | JArr "json list"
  | JObj "(string \<times> json) list"

type_synonym jdict = "(string \<times> json) list"

text \<open>\<^verbatim>\<open>k in d\<close>, \<^verbatim>\<open>d.get(k)\<close> (which is \<^const>\<open>map_of\<close>), \<^verbatim>\<open>d[k] = v\<close> and \<^verbatim>\<open>del d[k]\<close>.
  An assignment to a key that is present keeps the key's position; a new key goes last.\<close>

definition has_key :: "string \<Rightarrow> jdict \<Rightarrow> bool" where
  "has_key k d = (k \<in> set (map fst d))"

fun dict_set :: "string \<Rightarrow> json \<Rightarrow> jdict \<Rightarrow> jdict" where
  "dict_set k v [] = [(k, v)]"
| "dict_set k v ((k', v') # d) =
     (if k' = k then (k, v) # d else (k', v') # dict_set k v d)"

definition dict_del :: "string \<Rightarrow> jdict \<Rightarrow> jdict" where
  "dict_del k d = filter (\<lambda>(k', v). k' \<noteq> k) d"

definition is_list :: "json \<Rightarrow> bool" where
  "is_list v = (case v of JArr xs \<Rightarrow> True | _ \<Rightarrow> False)"

definition is_dict :: "json \<Rightarrow> bool" where
  "is_dict v = (case v of JObj d \<Rightarrow> True | _ \<Rightarrow> False)"

text \<open>Python's truth value of a JSON value, as \<^verbatim>\<open>if x:\<close> reads it.\<close>

fun truthy :: "json \<Rightarrow> bool" where
  "truthy JNull = False"
| "truthy (JBool b) = b"
| "truthy (JNum n) = (n \<noteq> 0)"
| "truthy (JStr s) = (s \<noteq> [])"
| "truthy (JArr xs) = (xs \<noteq> [])"
| "truthy (JObj d) = (d \<noteq> [])"

section \<open>Strings and the two regular expressions\<close>

definition startswith :: "string \<Rightarrow> string \<Rightarrow> bool" where
  "startswith s p = (take (length p) s = p)"

text \<open>\<^verbatim>\<open>s.replace(old, "")\<close>: every occurrence of \<open>old\<close> is removed, scanning from the left
  without overlaps (not only a leading one).\<close>

function str_remove :: "string \<Rightarrow> string \<Rightarrow> string" where
  "str_remove old [] = []"
| "str_remove old (c # cs) =
     (if old \<noteq> [] \<and> startswith (c # cs) old
      then str_remove old (drop (length old) (c # cs))
      else c # str_remove old cs)"
  by pat_completeness auto
termination
  by (relation "measure (\<lambda>(old, s). length s)") (auto simp: startswith_def)

text \<open>\<^verbatim>\<open>pat in s\<close> for strings.\<close>

fun str_contains :: "string \<Rightarrow> string \<Rightarrow> bool" where
  "str_contains pat [] = (pat = [])"
| "str_contains pat (c # cs) = (startswith (c # cs) pat \<or> str_contains pat cs)"

text \<open>\<^verbatim>\<open>s.split(sep, 1)\<close> for a one-character separator: one part when the separator does
  not occur, otherwise the text before its first occurrence and the text after it.\<close>

definition str_split1 :: "char \<Rightarrow> string \<Rightarrow> string list" where
  "str_split1 sep s =
     (if sep \<in> set s
      then [takeWhile (\<lambda>c. c \<noteq> sep) s, tl (dropWhile (\<lambda>c. c \<noteq> sep) s)]
      else [s])"

definition newline :: char where
  "newline = CHR 0x0A"

definition is_hex_char :: "char \<Rightarrow> bool" where
  "is_hex_char c = (c \<in> set ''0123456789abcdefABCDEF'')"

text \<open>The class \<^verbatim>\<open>\w\<close> of a \<^verbatim>\<open>str\<close> pattern compiled without \<^verbatim>\<open>re.ASCII\<close>: the underscore and every
  character that is alphanumeric in Unicode. Below 256 these are the ASCII digits and
  letters, the letters of Latin-1 (\<^verbatim>\<open>0xAA\<close>, \<^verbatim>\<open>0xB5\<close>, \<^verbatim>\<open>0xBA\<close>, \<^verbatim>\<open>0xC0\<close> to \<^verbatim>\<open>0xFF\<close> but for the two
  signs \<^verbatim>\<open>0xD7\<close> and \<^verbatim>\<open>0xF7\<close>) and its numeric characters (the superscripts \<^verbatim>\<open>0xB2\<close>, \<^verbatim>\<open>0xB3\<close>,
  \<^verbatim>\<open>0xB9\<close> and the fractions \<^verbatim>\<open>0xBC\<close> to \<^verbatim>\<open>0xBE\<close>).\<close>

definition is_word_char :: "char \<Rightarrow> bool" where
  "is_word_char c =
     (let n = (of_char c :: nat)
      in (48 \<le> n \<and> n \<le> 57) \<or> (65 \<le> n \<and> n \<le> 90) \<or> n = 95 \<or> (97 \<le> n \<and> n \<le> 122) \<or>
         n = 170 \<or> n = 178 \<or> n = 179 \<or> n = 181 \<or> n = 185 \<or> n = 186 \<or>
         (188 \<le> n \<and> n \<le> 190) \<or> (192 \<le> n \<and> n \<le> 214) \<or> (216 \<le> n \<and> n \<le> 246) \<or>
         (248 \<le> n \<and> n \<le> 255))"

text \<open>Matching consumes a prefix of the input and returns the rest, or fails.\<close>

fun match_hex :: "nat \<Rightarrow> string \<Rightarrow> string option" where
  "match_hex 0 s = Some s"
| "match_hex (Suc n) [] = None"
| "match_hex (Suc n) (c # cs) = (if is_hex_char c then match_hex n cs else None)"

definition match_lit :: "string \<Rightarrow> string \<Rightarrow> string option" where
  "match_lit p s = (if startswith s p then Some (drop (length p) s) else None)"

text \<open>The five groups of
  \<^verbatim>\<open>^[0-9a-fA-F]{8}-[0-9a-fA-F]{4}-[0-9a-fA-F]{4}-[0-9a-fA-F]{4}-[0-9a-fA-F]{12}$\<close>,
  up to the end anchor: the result is what is left of the input after the twelve last digits.\<close>

definition uuid_pattern :: "string \<Rightarrow> string option" where
  "uuid_pattern s =
     Option.bind (match_hex 8 s) (\<lambda>r1.
     Option.bind (match_lit ''-'' r1) (\<lambda>r2.
     Option.bind (match_hex 4 r2) (\<lambda>r3.
     Option.bind (match_lit ''-'' r3) (\<lambda>r4.
     Option.bind (match_hex 4 r4) (\<lambda>r5.
     Option.bind (match_lit ''-'' r5) (\<lambda>r6.
     Option.bind (match_hex 4 r6) (\<lambda>r7.
     Option.bind (match_lit ''-'' r7) (\<lambda>r8.
     match_hex 12 r8))))))))"

text \<open>\<^verbatim>\<open>is_uuid_format\<close>. Without the MULTILINE flag, \<^verbatim>\<open>$\<close> matches at the end of the
  string and also just before a newline that is the last character.\<close>

definition is_uuid_format :: "string \<Rightarrow> bool" where
  "is_uuid_format id_str =
     (case uuid_pattern id_str of
        None \<Rightarrow> False
      | Some rest \<Rightarrow> rest = [] \<or> rest = [newline])"

text \<open>The strict shape 8-4-4-4-12: the five groups and nothing after them.\<close>

definition strict_uuid :: "string \<Rightarrow> bool" where
  "strict_uuid s = (uuid_pattern s = Some [])"

text \<open>\<^verbatim>\<open>re.match(r'(\w+)\?identifier=([^|]+)\|(.+)', s)\<close>, giving the three groups.
  The match is anchored at the start only. Each greedy group is followed by a literal
  that its own class excludes, so the longest run is the only candidate; \<^verbatim>\<open>.\<close> matches
  every character but the newline.\<close>

definition match_identifier_reference :: "string \<Rightarrow> (string \<times> string \<times> string) option" where
  "match_identifier_reference s =
     (let g1 = takeWhile is_word_char s;
          r1 = dropWhile is_word_char s
      in if g1 = [] then None
         else case match_lit ''?identifier='' r1 of
           None \<Rightarrow> None
         | Some r2 \<Rightarrow>
             (let g2 = takeWhile (\<lambda>c. c \<noteq> CHR ''|'') r2;
                  r3 = dropWhile (\<lambda>c. c \<noteq> CHR ''|'') r2
              in if g2 = [] then None
                 else case match_lit ''|'' r3 of
                   None \<Rightarrow> None
                 | Some r4 \<Rightarrow>
                     (let g3 = takeWhile (\<lambda>c. c \<noteq> newline) r4
                      in if g3 = [] then None else Some (g1, g2, g3))))"

section \<open>The tree rewriter\<close>

text \<open>
  The arguments that \<^verbatim>\<open>replace_references\<close> passes down unchanged: the two maps and the two
  configured ids (\<^verbatim>\<open>None\<close> by default). The maps hold strings, as their docstring has them
  (UUID to resource type, identifier value to resource type and id). The argument
  \<^verbatim>\<open>parent_key\<close> is passed along but never read, and is left out.
\<close>

record rctx =
  uuid_map :: "string \<rightharpoonup> string"
  identifier_map :: "string \<rightharpoonup> string \<times> string"
  organization_id :: "string option"
  practitioner_id :: "string option"

definition truthy_id :: "string option \<Rightarrow> bool" where
  "truthy_id i = (case i of None \<Rightarrow> False | Some s \<Rightarrow> s \<noteq> [])"

text \<open>What the chain of tests on a reference string decides: nothing is assigned, the
  string is replaced, or the function returns \<^verbatim>\<open>None\<close> for the whole object.\<close>

datatype ref_action = Keep | Replace string | Remove

definition resolve_reference :: "rctx \<Rightarrow> string \<Rightarrow> ref_action" where
  "resolve_reference ctx ref_value =
     (if startswith ref_value ''urn:uuid:'' then
        (let uuid = str_remove ''urn:uuid:'' ref_value
         in case uuid_map ctx uuid of
              Some resource_type \<Rightarrow> Replace (resource_type @ ''/'' @ uuid)
            | None \<Rightarrow> Keep)
      else if str_contains ''?identifier='' ref_value \<and> CHR ''|'' \<in> set ref_value then
        (case match_identifier_reference ref_value of
           Some (resource_type, system, identifier_value) \<Rightarrow>
             (case identifier_map ctx identifier_value of
                Some (mapped_resource_type, mapped_uuid) \<Rightarrow>
                  Replace (mapped_resource_type @ ''/'' @ mapped_uuid)
              | None \<Rightarrow> Remove)
         | None \<Rightarrow> Keep)
      else if startswith ref_value ''#'' then Remove
      else if CHR ''/'' \<in> set ref_value then
        (let parts = str_split1 (CHR ''/'') ref_value
         in if length parts = 2 then
              (let id_part = parts ! 1
               in if is_uuid_format id_part then Keep
                  else case identifier_map ctx id_part of
                    Some (mapped_resource_type, mapped_uuid) \<Rightarrow>
                      Replace (mapped_resource_type @ ''/'' @ mapped_uuid)
                  | None \<Rightarrow> Remove)
            else Keep)
      else Keep)"

text \<open>The first block of the dict branch: only a \<^verbatim>\<open>reference\<close> field holding a string is
  looked at. \<^const>\<open>None\<close> is the early \<^verbatim>\<open>return None\<close>.\<close>

definition reference_step :: "rctx \<Rightarrow> jdict \<Rightarrow> jdict option" where
  "reference_step ctx obj =
     (case map_of obj ''reference'' of
        Some (JStr ref_value) \<Rightarrow>
          (case resolve_reference ctx ref_value of
             Keep \<Rightarrow> Some obj
           | Replace r \<Rightarrow> Some (dict_set ''reference'' (JStr r) obj)
           | Remove \<Rightarrow> None)
      | _ \<Rightarrow> Some obj)"

definition add_provider :: "rctx \<Rightarrow> bool \<Rightarrow> jdict \<Rightarrow> jdict" where
  "add_provider ctx in_eob_care_team obj =
     (if in_eob_care_team \<and> truthy_id (organization_id ctx) \<and> \<not> has_key ''provider'' obj
      then dict_set ''provider''
             (JObj [(''reference'', JStr (''Organization/'' @ the (organization_id ctx)))]) obj
      else obj)"

definition clean_careplan_care_team :: "bool \<Rightarrow> jdict \<Rightarrow> jdict" where
  "clean_careplan_care_team in_careplan_care_team obj =
     (if in_careplan_care_team \<and> has_key ''reference'' obj
      then filter (\<lambda>(k, v). k \<in> {''reference'', ''display''}) obj
      else obj)"

definition add_who :: "rctx \<Rightarrow> bool \<Rightarrow> jdict \<Rightarrow> jdict" where
  "add_who ctx in_provenance_agent obj =
     (if in_provenance_agent \<and> truthy_id (practitioner_id ctx) \<and> \<not> has_key ''who'' obj
      then dict_set ''who''
             (JObj [(''reference'', JStr (''Practitioner/'' @ the (practitioner_id ctx)))]) obj
      else obj)"

text \<open>The three blocks between the reference test and the loop, in the order of the code.\<close>

definition inject_fields :: "rctx \<Rightarrow> bool \<Rightarrow> bool \<Rightarrow> bool \<Rightarrow> jdict \<Rightarrow> jdict" where
  "inject_fields ctx in_eob_care_team in_provenance_agent in_careplan_care_team obj =
     add_who ctx in_provenance_agent
       (clean_careplan_care_team in_careplan_care_team
          (add_provider ctx in_eob_care_team obj))"

text \<open>The inner loop over a \<^verbatim>\<open>dosageInstruction\<close> list: only the item's own
  \<^verbatim>\<open>additionalInstruction\<close> field is deleted.\<close>

definition strip_dosage_item :: "json \<Rightarrow> json" where
  "strip_dosage_item dosage_item =
     (case dosage_item of
        JObj d \<Rightarrow> JObj (dict_del ''additionalInstruction'' d)
      | _ \<Rightarrow> dosage_item)"

definition strip_dosage :: "bool \<Rightarrow> string \<Rightarrow> json \<Rightarrow> json" where
  "strip_dosage is_medication_request key v =
     (if is_medication_request \<and> key = ''dosageInstruction'' \<and> is_list v
      then (case v of JArr items \<Rightarrow> JArr (map strip_dosage_item items) | _ \<Rightarrow> v)
      else v)"

definition has_resource_type :: "string \<Rightarrow> jdict \<Rightarrow> bool" where
  "has_resource_type t obj = (map_of obj ''resourceType'' = Some (JStr t))"

text \<open>A measure for the recursion: an injected \<^verbatim>\<open>provider\<close> or \<^verbatim>\<open>who\<close> object is new, but
  it is visited with all flags off.\<close>

fun jweight :: "json \<Rightarrow> nat" where
  "jweight (JObj d) = 3 + sum_list (map (\<lambda>(k, v). jweight v) d)"
| "jweight (JArr xs) = 1 + sum_list (map jweight xs)"
| "jweight v = 1"

lemma jweight_mem: "(k, v) \<in> set d \<Longrightarrow> jweight v \<le> sum_list (map (\<lambda>(k, v). jweight v) d)"
  by (induction d) auto

lemma sum_filter_le: "sum_list (map f (filter P d)) \<le> sum_list (map (f :: 'a \<Rightarrow> nat) d)"
  by (induction d) auto

lemma jweight_strip_dosage_item: "jweight (strip_dosage_item x) \<le> jweight x"
  by (cases x) (auto simp: strip_dosage_item_def dict_del_def sum_filter_le)

lemma jweight_strip_items:
  "sum_list (map jweight (map strip_dosage_item xs)) \<le> sum_list (map jweight xs)"
  by (induction xs) (auto simp: add_mono jweight_strip_dosage_item)

lemma jweight_strip_dosage: "jweight (strip_dosage b k v) \<le> jweight v"
  using jweight_strip_items by (cases v) (auto simp: strip_dosage_def is_list_def)

lemma is_list_strip_dosage [simp]: "is_list (strip_dosage b k v) = is_list v"
  by (cases v) (auto simp: strip_dosage_def is_list_def)

lemma set_dict_set: "set (dict_set k v d) \<subseteq> insert (k, v) (set d)"
  by (induction d) (auto split: if_splits)

lemma reference_step_mem:
  assumes "reference_step ctx obj = Some obj1" "(k, v) \<in> set obj1"
  shows "\<exists>v0. (k, v0) \<in> set obj \<and> jweight v = jweight v0"
proof (cases "map_of obj ''reference''")
  case None
  with assms show ?thesis by (auto simp: reference_step_def)
next
  case (Some r)
  show ?thesis
  proof (cases r)
    case (JStr ref_value)
    have m: "(''reference'', JStr ref_value) \<in> set obj"
      using Some JStr by (auto dest: map_of_SomeD)
    show ?thesis
    proof (cases "resolve_reference ctx ref_value")
      case (Replace r')
      then have "obj1 = dict_set ''reference'' (JStr r') obj"
        using assms(1) Some JStr by (simp add: reference_step_def)
      then have "(k, v) = (''reference'', JStr r') \<or> (k, v) \<in> set obj"
        using assms(2) set_dict_set by fastforce
      then show ?thesis using m by auto
    qed (use assms Some JStr in \<open>auto simp: reference_step_def\<close>)
  qed (use assms Some in \<open>auto simp: reference_step_def\<close>)
qed

lemma inject_fields_mem:
  assumes "(k, v) \<in> set (inject_fields ctx eob prov cp obj1)"
  shows "(k, v) \<in> set obj1 \<or>
         ((eob \<or> prov) \<and> k \<noteq> ''careTeam'' \<and> k \<noteq> ''agent'' \<and> \<not> is_list v \<and> jweight v = 4)"
proof -
  let ?p = "JObj [(''reference'', JStr (''Organization/'' @ the (organization_id ctx)))]"
  let ?w = "JObj [(''reference'', JStr (''Practitioner/'' @ the (practitioner_id ctx)))]"
  have a: "set (add_provider ctx eob obj1) \<subseteq> (if eob then insert (''provider'', ?p) (set obj1) else set obj1)"
    using set_dict_set by (auto simp: add_provider_def)
  have b: "set (clean_careplan_care_team cp d) \<subseteq> set d" for d
    by (auto simp: clean_careplan_care_team_def)
  have c: "set (add_who ctx prov d) \<subseteq> (if prov then insert (''who'', ?w) (set d) else set d)" for d
    using set_dict_set by (auto simp: add_who_def)
  from assms have "(k, v) \<in> (if prov then insert (''who'', ?w) (set (clean_careplan_care_team cp (add_provider ctx eob obj1)))
      else set (clean_careplan_care_team cp (add_provider ctx eob obj1)))"
    unfolding inject_fields_def using c by blast
  then have "(prov \<and> (k, v) = (''who'', ?w)) \<or> (k, v) \<in> set (add_provider ctx eob obj1)"
    using b by (auto split: if_splits)
  then have "(prov \<and> (k, v) = (''who'', ?w)) \<or> (eob \<and> (k, v) = (''provider'', ?p)) \<or> (k, v) \<in> set obj1"
    using a by (auto split: if_splits)
  then show ?thesis by (auto simp: is_list_def)
qed

text \<open>
  \<^verbatim>\<open>replace_references\<close>. The value \<^const>\<open>JNull\<close> is Python's \<^verbatim>\<open>None\<close>: the function returns
  it for an object it removes, and also for a JSON null it is given, and the caller reads
  both as a removal (\<^verbatim>\<open>if result is None\<close>).

  The loop of the dict branch runs over a snapshot of the items taken after the three
  blocks above. An assignment \<^verbatim>\<open>obj[key] = result\<close> keeps the key's place and the marked keys
  are deleted after the loop, so the object that comes out is the snapshot with every item
  either replaced by its result or dropped. The three resource-type tests of the head of
  the branch read the object as it came in; the tests for \<^verbatim>\<open>ExplanationOfBenefit\<close> and
  \<^verbatim>\<open>Provenance\<close> are made inside the loop and read the object as it is then (a string under
  \<^verbatim>\<open>resourceType\<close> is its own result, so they read the same throughout the loop).
\<close>

function replace_references :: "rctx \<Rightarrow> bool \<Rightarrow> bool \<Rightarrow> bool \<Rightarrow> json \<Rightarrow> json" where
  "replace_references ctx in_eob_care_team in_provenance_agent in_careplan_care_team (JObj obj) =
     (case reference_step ctx obj of
        None \<Rightarrow> JNull
      | Some obj1 \<Rightarrow>
          (let obj2 = inject_fields ctx in_eob_care_team in_provenance_agent
                        in_careplan_care_team obj1
           in JObj (concat (map (\<lambda>(key, v).
                 if key = ''period'' then []
                 else if has_resource_type ''Observation'' obj \<and> key = ''valueCodeableConcept''
                 then []
                 else (let v' = strip_dosage (has_resource_type ''MedicationRequest'' obj) key v;
                           result = replace_references ctx
                             (key = ''careTeam'' \<and> is_list v' \<and>
                                has_resource_type ''ExplanationOfBenefit'' obj2)
                             (key = ''agent'' \<and> is_list v' \<and>
                                has_resource_type ''Provenance'' obj2)
                             (key = ''careTeam'' \<and> is_list v' \<and>
                                has_resource_type ''CarePlan'' obj)
                             v'
                       in if result = JNull then [] else [(key, result)])) obj2))))"
| "replace_references ctx in_eob_care_team in_provenance_agent in_careplan_care_team (JArr xs) =
     JArr (filter (\<lambda>result. result \<noteq> JNull)
            (map (replace_references ctx in_eob_care_team in_provenance_agent
                    in_careplan_care_team) xs))"
| "replace_references ctx in_eob_care_team in_provenance_agent in_careplan_care_team JNull = JNull"
| "replace_references ctx in_eob_care_team in_provenance_agent in_careplan_care_team (JBool b) = JBool b"
| "replace_references ctx in_eob_care_team in_provenance_agent in_careplan_care_team (JNum n) = JNum n"
| "replace_references ctx in_eob_care_team in_provenance_agent in_careplan_care_team (JStr s) = JStr s"
  by pat_completeness auto
termination
proof (relation "measure (\<lambda>(ctx, eob, prov, cp, v). jweight v + (if eob \<or> prov then 2 else 0))", goal_cases)
  case 1
  then show ?case by simp
next
  case (2 ctx eob prov cp obj obj1 obj2 kv key v v')
  have le: "jweight v' \<le> jweight v"
    using 2 by (simp add: jweight_strip_dosage)
  from 2 have "(key, v) \<in> set (inject_fields ctx eob prov cp obj1)" by simp
  then consider (old) "(key, v) \<in> set obj1"
    | (new) "eob \<or> prov" "key \<noteq> ''careTeam''" "key \<noteq> ''agent''" "jweight v = 4"
    using inject_fields_mem by blast
  then show ?case
  proof cases
    case old
    then obtain v0 where "(key, v0) \<in> set obj" "jweight v = jweight v0"
      using reference_step_mem 2 by blast
    then have "jweight v \<le> sum_list (map (\<lambda>(k, v). jweight v) obj)"
      using jweight_mem by fastforce
    then show ?thesis using le by simp
  next
    case new
    then show ?thesis using le by auto
  qed
next
  case (3 ctx eob prov cp xs x)
  then have "jweight x \<le> sum_list (map jweight xs)"
    by (simp add: member_le_sum_list)
  then show ?case by simp
qed

subsection \<open>The dict branch, item by item\<close>

text \<open>The body of the loop for one item of the snapshot: the items that come out of it
  (none when the key is deleted), and the dict branch written with it.\<close>

definition loop_item :: "rctx \<Rightarrow> jdict \<Rightarrow> jdict \<Rightarrow> string \<times> json \<Rightarrow> jdict" where
  "loop_item ctx obj obj2 =
     (\<lambda>(key, v).
        if key = ''period'' then []
        else if has_resource_type ''Observation'' obj \<and> key = ''valueCodeableConcept''
        then []
        else (let v' = strip_dosage (has_resource_type ''MedicationRequest'' obj) key v;
                  result = replace_references ctx
                    (key = ''careTeam'' \<and> is_list v' \<and>
                       has_resource_type ''ExplanationOfBenefit'' obj2)
                    (key = ''agent'' \<and> is_list v' \<and>
                       has_resource_type ''Provenance'' obj2)
                    (key = ''careTeam'' \<and> is_list v' \<and>
                       has_resource_type ''CarePlan'' obj)
                    v'
              in if result = JNull then [] else [(key, result)]))"

lemma replace_references_dict:
  "replace_references ctx eob prov cp (JObj obj) =
     (case reference_step ctx obj of
        None \<Rightarrow> JNull
      | Some obj1 \<Rightarrow>
          JObj (concat (map (loop_item ctx obj (inject_fields ctx eob prov cp obj1))
                          (inject_fields ctx eob prov cp obj1))))"
  by (simp add: loop_item_def Let_def split: option.splits)

declare replace_references.simps(1) [simp del]

lemma loop_item_keys: "fst ` set (loop_item ctx obj obj2 (k, v)) \<subseteq> {k}"
  by (auto simp: loop_item_def Let_def)

lemma loop_item_string:
  "k \<noteq> ''period'' \<Longrightarrow> k \<noteq> ''valueCodeableConcept'' \<Longrightarrow>
   loop_item ctx obj obj2 (k, JStr s) = [(k, JStr s)]"
  by (simp add: loop_item_def strip_dosage_def is_list_def)

lemma map_of_concat_map:
  assumes keys: "\<And>k v. fst ` set (f (k, v)) \<subseteq> {k}"
    and "map_of d k = Some v" and "f (k, v) = [(k, w)]"
  shows "map_of (concat (map f d)) k = Some w"
  using assms(2)
proof (induction d)
  case Nil
  then show ?case by simp
next
  case (Cons a d)
  obtain k' v' where a: "a = (k', v')" by (cases a)
  show ?case
  proof (cases "k' = k")
    case True
    with Cons.prems a have "v' = v" by simp
    with True a assms(3) show ?thesis by simp
  next
    case False
    have "k \<notin> fst ` set (f (k', v'))" using keys[of k' v'] False by auto
    then have "map_of (f (k', v')) k = None" by (simp add: map_of_eq_None_iff)
    with False Cons a show ?thesis by (simp add: map_add_def)
  qed
qed

lemma map_of_concat_mapD:
  assumes keys: "\<And>k v. fst ` set (f (k, v)) \<subseteq> {k}"
    and "map_of (concat (map f d)) k = Some w"
  shows "\<exists>v. (k, v) \<in> set d \<and> (k, w) \<in> set (f (k, v))"
proof -
  from assms(2) have "(k, w) \<in> set (concat (map f d))" by (rule map_of_SomeD)
  then obtain a where a: "a \<in> set d" "(k, w) \<in> set (f a)" by auto
  obtain k' v' where "a = (k', v')" by (cases a)
  with a keys[of k' v'] have "k' = k" by force
  with a \<open>a = (k', v')\<close> show ?thesis by auto
qed

lemma map_of_dict_set: "map_of (dict_set k v d) k' = (if k' = k then Some v else map_of d k')"
  by (induction d) auto

lemma dict_set_same: "map_of d k = Some v \<Longrightarrow> dict_set k v d = d"
  by (induction d) (auto split: if_splits)

lemma has_key_map_of: "has_key k d = (map_of d k \<noteq> None)"
  by (simp add: has_key_def map_of_eq_None_iff)

lemma has_key_dict_set: "has_key k' (dict_set k v d) = (k' = k \<or> has_key k' d)"
  by (simp add: has_key_map_of map_of_dict_set)

lemma dict_set_absent: "\<not> has_key k d \<Longrightarrow> dict_set k v d = d @ [(k, v)]"
  by (induction d) (auto simp: has_key_def)

lemma map_of_filter_keys:
  "k \<in> S \<Longrightarrow> map_of (filter (\<lambda>(k, v). k \<in> S) d) k = map_of d k"
  by (induction d) auto

lemma inject_fields_reference:
  "map_of (inject_fields ctx eob prov cp obj1) ''reference'' = map_of obj1 ''reference''"
proof -
  have "map_of (filter (\<lambda>(k, v). k \<in> {''reference'', ''display''}) d) ''reference''
          = map_of d ''reference''" for d :: jdict
    by (rule map_of_filter_keys) simp
  then show ?thesis
    by (simp add: inject_fields_def add_who_def add_provider_def clean_careplan_care_team_def
        map_of_dict_set)
qed

lemma reference_kept:
  assumes "reference_step ctx obj = Some obj1"
    and "map_of obj1 ''reference'' = Some (JStr r)"
  shows "\<exists>obj'. replace_references ctx eob prov cp (JObj obj) = JObj obj' \<and>
               map_of obj' ''reference'' = Some (JStr r)"
proof -
  let ?obj2 = "inject_fields ctx eob prov cp obj1"
  have "map_of ?obj2 ''reference'' = Some (JStr r)"
    using assms(2) by (simp add: inject_fields_reference)
  then have "map_of (concat (map (loop_item ctx obj ?obj2) ?obj2)) ''reference'' = Some (JStr r)"
    by (rule map_of_concat_map[OF loop_item_keys]) (simp add: loop_item_string)
  then show ?thesis using assms(1) by (simp add: replace_references_dict)
qed

lemma reference_step_Keep:
  "map_of obj ''reference'' = Some (JStr r) \<Longrightarrow> resolve_reference ctx r = Keep \<Longrightarrow>
   reference_step ctx obj = Some obj"
  by (simp add: reference_step_def)

lemma reference_step_Replace:
  "map_of obj ''reference'' = Some (JStr r) \<Longrightarrow> resolve_reference ctx r = Replace r' \<Longrightarrow>
   reference_step ctx obj = Some (dict_set ''reference'' (JStr r') obj)"
  by (simp add: reference_step_def)

lemma reference_step_Remove:
  "map_of obj ''reference'' = Some (JStr r) \<Longrightarrow> resolve_reference ctx r = Remove \<Longrightarrow>
   reference_step ctx obj = None"
  by (simp add: reference_step_def)

lemma rewrite_Keep:
  assumes "map_of obj ''reference'' = Some (JStr r)" "resolve_reference ctx r = Keep"
  shows "\<exists>obj'. replace_references ctx eob prov cp (JObj obj) = JObj obj' \<and>
               map_of obj' ''reference'' = Some (JStr r)"
  using reference_kept[OF reference_step_Keep[OF assms] assms(1)] .

lemma rewrite_Replace:
  assumes "map_of obj ''reference'' = Some (JStr r)" "resolve_reference ctx r = Replace r'"
  shows "\<exists>obj'. replace_references ctx eob prov cp (JObj obj) = JObj obj' \<and>
               map_of obj' ''reference'' = Some (JStr r')"
  by (rule reference_kept[OF reference_step_Replace[OF assms]]) (simp add: map_of_dict_set)

lemma rewrite_Remove:
  assumes "map_of obj ''reference'' = Some (JStr r)" "resolve_reference ctx r = Remove"
  shows "replace_references ctx eob prov cp (JObj obj) = JNull"
  using reference_step_Remove[OF assms] by (simp add: replace_references_dict)

section \<open>Properties of the rewriter\<close>

text \<open>A context for the examples: one known UUID, one known identifier value, and the two
  default ids of \<^verbatim>\<open>process_json_file\<close>.\<close>

definition example_ctx :: rctx where
  "example_ctx =
     \<lparr>uuid_map = [''6c0b7f20-5c92-efd9-779b-c9ac40656b44'' \<mapsto> ''Patient''],
      identifier_map = [''ORG-42'' \<mapsto> (''Organization'', ''org-uuid-9'')],
      organization_id = Some ''2befa435-3070-3350-a15c-e43ac1e84b24'',
      practitioner_id = Some ''a8cd062d-7100-36d2-96c0-a6a3903991ad''\<rparr>"

subsection \<open>No \<^verbatim>\<open>period\<close> field is left\<close>

fun no_period :: "json \<Rightarrow> bool" where
  "no_period (JObj d) = (\<not> has_key ''period'' d \<and> list_all (\<lambda>(k, v). no_period v) d)"
| "no_period (JArr xs) = list_all no_period xs"
| "no_period v = True"

definition period_obj :: jdict where
  "period_obj =
     [(''resourceType'', JStr ''Encounter''),
      (''period'', JObj [(''start'', JStr ''2020'')]),
      (''participant'',
         JArr [JObj [(''period'', JObj [(''period'', JNum 1)]),
                     (''individual'', JObj [(''display'', JStr ''Dr''), (''period'', JNull)])]])]"

text \<open>The object \<open>d\<close> with the value \<open>x\<close> put under every key named \<^verbatim>\<open>period\<close>.\<close>

definition set_period :: "json \<Rightarrow> jdict \<Rightarrow> jdict" where
  "set_period x d = map (\<lambda>(k, v). (k, if k = ''period'' then x else v)) d"

lemma map_of_set_period: "k \<noteq> ''period'' \<Longrightarrow> map_of (set_period x d) k = map_of d k"
  by (induction d) (auto simp: set_period_def)

lemma has_key_set_period: "has_key k (set_period x d) = has_key k d"
  by (induction d) (auto simp: set_period_def has_key_def)

lemma dict_set_set_period:
  "k \<noteq> ''period'' \<Longrightarrow> dict_set k v (set_period x d) = set_period x (dict_set k v d)"
  by (induction d) (auto simp: set_period_def)

lemma filter_set_period:
  "filter (\<lambda>(k, v). P k) (set_period x d) = set_period x (filter (\<lambda>(k, v). P k) d)"
  by (induction d) (auto simp: set_period_def)

lemma has_resource_type_set_period:
  "has_resource_type t (set_period x d) = has_resource_type t d"
  by (simp add: has_resource_type_def map_of_set_period)

lemma reference_step_set_period:
  "reference_step ctx (set_period x d) = map_option (set_period x) (reference_step ctx d)"
  by (simp add: reference_step_def map_of_set_period dict_set_set_period
      split: option.splits json.splits ref_action.splits)

lemma inject_fields_set_period:
  "inject_fields ctx eob prov cp (set_period x d) = set_period x (inject_fields ctx eob prov cp d)"
proof -
  have a: "add_provider ctx eob (set_period x d) = set_period x (add_provider ctx eob d)" for d
    by (simp add: add_provider_def has_key_set_period dict_set_set_period)
  have b: "clean_careplan_care_team cp (set_period x d) = set_period x (clean_careplan_care_team cp d)" for d
    by (simp add: clean_careplan_care_team_def has_key_set_period filter_set_period)
  have c: "add_who ctx prov (set_period x d) = set_period x (add_who ctx prov d)" for d
    by (simp add: add_who_def has_key_set_period dict_set_set_period)
  show ?thesis by (simp add: inject_fields_def a b c)
qed

lemma loop_item_set_period:
  "loop_item ctx (set_period x obj) (set_period x obj2) (k, if k = ''period'' then x else v)
     = loop_item ctx obj obj2 (k, v)"
  by (simp add: loop_item_def has_resource_type_set_period)

lemma loop_set_period:
  "concat (map (loop_item ctx (set_period x obj) (set_period x obj2)) (set_period x d))
     = concat (map (loop_item ctx obj obj2) d)"
proof (induction d)
  case Nil
  then show ?case by (simp add: set_period_def)
next
  case (Cons a d)
  obtain k v where a: "a = (k, v)" by (cases a)
  have "set_period x (a # d) = (k, if k = ''period'' then x else v) # set_period x d"
    by (simp add: set_period_def a)
  then show ?case using Cons by (simp only: list.map concat.simps loop_item_set_period a)
qed

lemma period_value_ignored:
  "replace_references ctx eob prov cp (JObj (set_period x obj))
     = replace_references ctx eob prov cp (JObj obj)"
proof (cases "reference_step ctx obj")
  case None
  then show ?thesis by (simp add: replace_references_dict reference_step_set_period)
next
  case (Some obj1)
  then show ?thesis
    by (simp add: replace_references_dict reference_step_set_period inject_fields_set_period
        loop_set_period)
qed

lemma no_period_result:
  "no_period (replace_references ctx in_eob_care_team in_provenance_agent
                in_careplan_care_team v)"
proof (induction ctx in_eob_care_team in_provenance_agent in_careplan_care_team v
    rule: replace_references.induct)
  case (1 ctx eob prov cp obj)
  show ?case
  proof (cases "reference_step ctx obj")
    case None
    then show ?thesis by (simp add: replace_references.simps(1))
  next
    case (Some obj1)
    define obj2 where "obj2 = inject_fields ctx eob prov cp obj1"
    note IH = 1[OF Some obj2_def]
    show ?thesis
      using Some IH
      apply (simp add: replace_references.simps(1) obj2_def[symmetric] Let_def has_key_def
          list_all_iff)
      apply (auto split: if_splits)
      done
  qed
next
  case (2 ctx eob prov cp xs)
  then show ?case by (auto simp: list_all_iff)
qed simp_all

text \<open>
  Claim C8. Whatever the input tree, the maps, the ids and the flags, no object of the tree
  that \<^verbatim>\<open>replace_references\<close> returns has a field named \<^verbatim>\<open>period\<close>, at any depth: the loop drops
  the field in every object it reaches, and every object of the result has been through
  the loop. The field is dropped without a look at its value: the result for an object
  is the same whatever stands under \<^verbatim>\<open>period\<close>.
\<close>

theorem period_absent_at_every_depth:
  "no_period (replace_references ctx in_eob_care_team in_provenance_agent
                in_careplan_care_team v)
   \<and> replace_references ctx in_eob_care_team in_provenance_agent in_careplan_care_team
         (JObj (set_period x obj))
       = replace_references ctx in_eob_care_team in_provenance_agent in_careplan_care_team
           (JObj obj)"
  by (simp add: no_period_result period_value_ignored)

theorem period_absent_witness:
  "no_period (replace_references example_ctx False False False (JObj period_obj))
   \<and> replace_references example_ctx False False False (JObj (set_period JNull period_obj))
       = replace_references example_ctx False False False (JObj period_obj)"
  by (rule period_absent_at_every_depth)

subsection \<open>What the reference string decides\<close>

lemma split1_second:
  "CHR ''/'' \<in> set r \<Longrightarrow>
   str_split1 (CHR ''/'') r = [takeWhile (\<lambda>c. c \<noteq> CHR ''/'') r, tl (dropWhile (\<lambda>c. c \<noteq> CHR ''/'') r)]"
  by (simp add: str_split1_def)

text \<open>The substring after the first \<^verbatim>\<open>/\<close>, the second part of \<^verbatim>\<open>split("/", 1)\<close>.\<close>

definition id_part :: "string \<Rightarrow> string" where
  "id_part r = tl (dropWhile (\<lambda>c. c \<noteq> CHR ''/'') r)"

lemma resolve_urn_unmapped:
  "startswith r ''urn:uuid:'' \<Longrightarrow> uuid_map ctx (str_remove ''urn:uuid:'' r) = None \<Longrightarrow>
   resolve_reference ctx r = Keep"
  by (simp add: resolve_reference_def)

lemma resolve_urn_mapped:
  "startswith r ''urn:uuid:'' \<Longrightarrow> uuid_map ctx (str_remove ''urn:uuid:'' r) = Some t \<Longrightarrow>
   resolve_reference ctx r = Replace (t @ ''/'' @ str_remove ''urn:uuid:'' r)"
  by (simp add: resolve_reference_def)

lemma resolve_identifier:
  assumes "\<not> startswith r ''urn:uuid:''" "(str_contains ''?identifier='' r \<and> CHR ''|'' \<in> set r)"
  shows "resolve_reference ctx r =
     (case match_identifier_reference r of
        None \<Rightarrow> Keep
      | Some (t, s, v) \<Rightarrow>
          (case identifier_map ctx v of
             None \<Rightarrow> Remove
           | Some (mt, mi) \<Rightarrow> Replace (mt @ ''/'' @ mi)))"
  using assms by (auto simp: resolve_reference_def split: option.splits)

lemma resolve_internal:
  "\<not> startswith r ''urn:uuid:'' \<Longrightarrow> \<not> (str_contains ''?identifier='' r \<and> CHR ''|'' \<in> set r) \<Longrightarrow> startswith r ''#'' \<Longrightarrow>
   resolve_reference ctx r = Remove"
  by (auto simp: resolve_reference_def)

lemma resolve_slash:
  assumes "\<not> startswith r ''urn:uuid:''" "\<not> (str_contains ''?identifier='' r \<and> CHR ''|'' \<in> set r)" "\<not> startswith r ''#''"
    "CHR ''/'' \<in> set r"
  shows "resolve_reference ctx r =
     (if is_uuid_format (id_part r) then Keep
      else case identifier_map ctx (id_part r) of
             None \<Rightarrow> Remove
           | Some (mt, mi) \<Rightarrow> Replace (mt @ ''/'' @ mi))"
  using assms
  by (auto simp: resolve_reference_def split1_second id_part_def
      split: option.splits)

text \<open>
  Claim C5. Take an object whose \<^verbatim>\<open>reference\<close> field holds the string \<open>r\<close>. When \<open>r\<close> starts with
  \<^verbatim>\<open>urn:uuid:\<close> and the UUID left after the prefix is removed is not a key of the UUID map, the
  rewrite returns an object (never \<^verbatim>\<open>None\<close>) and its \<^verbatim>\<open>reference\<close> field still holds \<open>r\<close>. The
  three other shapes differ: an identifier reference that the pattern matches and whose
  value is unmapped, an internal reference starting with \<^verbatim>\<open>#\<close>, and a \<^verbatim>\<open>Type/id\<close> reference whose
  id is neither UUID-shaped nor mapped, all make the rewrite return \<^verbatim>\<open>None\<close> for the object.
  The warning is a print and is not modelled.
\<close>

theorem unresolved_urn_uuid_is_kept:
  assumes "map_of obj ''reference'' = Some (JStr r)"
  shows "(startswith r ''urn:uuid:'' \<and> uuid_map ctx (str_remove ''urn:uuid:'' r) = None \<longrightarrow>
            (\<exists>obj'. replace_references ctx eob prov cp (JObj obj) = JObj obj' \<and>
                    map_of obj' ''reference'' = Some (JStr r)))
       \<and> (\<not> startswith r ''urn:uuid:'' \<and> (str_contains ''?identifier='' r \<and> CHR ''|'' \<in> set r) \<and>
            (\<exists>t s v. match_identifier_reference r = Some (t, s, v) \<and> identifier_map ctx v = None) \<longrightarrow>
            replace_references ctx eob prov cp (JObj obj) = JNull)
       \<and> (\<not> startswith r ''urn:uuid:'' \<and> \<not> (str_contains ''?identifier='' r \<and> CHR ''|'' \<in> set r) \<and> startswith r ''#'' \<longrightarrow>
            replace_references ctx eob prov cp (JObj obj) = JNull)
       \<and> (\<not> startswith r ''urn:uuid:'' \<and> \<not> (str_contains ''?identifier='' r \<and> CHR ''|'' \<in> set r) \<and> \<not> startswith r ''#'' \<and>
            CHR ''/'' \<in> set r \<and> \<not> is_uuid_format (id_part r) \<and>
            identifier_map ctx (id_part r) = None \<longrightarrow>
            replace_references ctx eob prov cp (JObj obj) = JNull)"
proof (intro conjI impI)
  assume "startswith r ''urn:uuid:'' \<and> uuid_map ctx (str_remove ''urn:uuid:'' r) = None"
  then have "resolve_reference ctx r = Keep" by (simp add: resolve_urn_unmapped)
  then show "\<exists>obj'. replace_references ctx eob prov cp (JObj obj) = JObj obj' \<and>
                    map_of obj' ''reference'' = Some (JStr r)"
    by (rule rewrite_Keep[OF assms])
next
  assume a: "\<not> startswith r ''urn:uuid:'' \<and> (str_contains ''?identifier='' r \<and> CHR ''|'' \<in> set r) \<and>
            (\<exists>t s v. match_identifier_reference r = Some (t, s, v) \<and> identifier_map ctx v = None)"
  then have "resolve_reference ctx r = Remove"
    by (auto simp: resolve_identifier)
  then show "replace_references ctx eob prov cp (JObj obj) = JNull"
    by (rule rewrite_Remove[OF assms])
next
  assume "\<not> startswith r ''urn:uuid:'' \<and> \<not> (str_contains ''?identifier='' r \<and> CHR ''|'' \<in> set r) \<and> startswith r ''#''"
  then have "resolve_reference ctx r = Remove" by (simp add: resolve_internal)
  then show "replace_references ctx eob prov cp (JObj obj) = JNull"
    by (rule rewrite_Remove[OF assms])
next
  assume "\<not> startswith r ''urn:uuid:'' \<and> \<not> (str_contains ''?identifier='' r \<and> CHR ''|'' \<in> set r) \<and> \<not> startswith r ''#'' \<and>
            CHR ''/'' \<in> set r \<and> \<not> is_uuid_format (id_part r) \<and>
            identifier_map ctx (id_part r) = None"
  then have "resolve_reference ctx r = Remove" by (simp add: resolve_slash)
  then show "replace_references ctx eob prov cp (JObj obj) = JNull"
    by (rule rewrite_Remove[OF assms])
qed


lemma strict_uuid_is_uuid_format: "strict_uuid s \<Longrightarrow> is_uuid_format s"
  by (simp add: strict_uuid_def is_uuid_format_def)

theorem unresolved_urn_uuid_witness:
  "(\<exists>obj'. replace_references example_ctx False False False
            (JObj [(''reference'', JStr ''urn:uuid:0000''), (''display'', JStr ''x'')]) = JObj obj' \<and>
          map_of obj' ''reference'' = Some (JStr ''urn:uuid:0000''))
   \<and> replace_references example_ctx False False False
         (JObj [(''reference'', JStr ''Organization?identifier=http://x|ORG-43'')]) = JNull
   \<and> replace_references example_ctx False False False
         (JObj [(''reference'', JStr ''#contained-1'')]) = JNull
   \<and> replace_references example_ctx False False False
         (JObj [(''reference'', JStr ''Patient/123'')]) = JNull"
proof -
  have a: "map_of [(''reference'', JStr ''urn:uuid:0000''), (''display'', JStr ''x'')] ''reference''
            = Some (JStr ''urn:uuid:0000'')"
    "startswith ''urn:uuid:0000'' ''urn:uuid:'' \<and>
      uuid_map example_ctx (str_remove ''urn:uuid:'' ''urn:uuid:0000'') = None"
    by code_simp+
  have b: "map_of [(''reference'', JStr ''Organization?identifier=http://x|ORG-43'')] ''reference''
            = Some (JStr ''Organization?identifier=http://x|ORG-43'')"
    "\<not> startswith ''Organization?identifier=http://x|ORG-43'' ''urn:uuid:'' \<and>
       (str_contains ''?identifier='' ''Organization?identifier=http://x|ORG-43'' \<and>
        CHR ''|'' \<in> set ''Organization?identifier=http://x|ORG-43'') \<and>
       (\<exists>t s v. match_identifier_reference ''Organization?identifier=http://x|ORG-43''
                  = Some (t, s, v) \<and> identifier_map example_ctx v = None)"
  proof -
    show "map_of [(''reference'', JStr ''Organization?identifier=http://x|ORG-43'')] ''reference''
            = Some (JStr ''Organization?identifier=http://x|ORG-43'')" by simp
    have m: "match_identifier_reference ''Organization?identifier=http://x|ORG-43''
           = Some (''Organization'', ''http://x'', ''ORG-43'')" by code_simp
    have n: "identifier_map example_ctx ''ORG-43'' = None" by code_simp
    have c: "\<not> startswith ''Organization?identifier=http://x|ORG-43'' ''urn:uuid:''"
      "str_contains ''?identifier='' ''Organization?identifier=http://x|ORG-43''"
      "CHR ''|'' \<in> set ''Organization?identifier=http://x|ORG-43''"
      by code_simp+
    show "\<not> startswith ''Organization?identifier=http://x|ORG-43'' ''urn:uuid:'' \<and>
       (str_contains ''?identifier='' ''Organization?identifier=http://x|ORG-43'' \<and>
        CHR ''|'' \<in> set ''Organization?identifier=http://x|ORG-43'') \<and>
       (\<exists>t s v. match_identifier_reference ''Organization?identifier=http://x|ORG-43''
                  = Some (t, s, v) \<and> identifier_map example_ctx v = None)"
      using m n c by blast
  qed
  have c: "map_of [(''reference'', JStr ''#contained-1'')] ''reference'' = Some (JStr ''#contained-1'')"
    "\<not> startswith ''#contained-1'' ''urn:uuid:'' \<and>
     \<not> (str_contains ''?identifier='' ''#contained-1'' \<and> CHR ''|'' \<in> set ''#contained-1'') \<and>
     startswith ''#contained-1'' ''#''"
    by code_simp+
  have d: "map_of [(''reference'', JStr ''Patient/123'')] ''reference'' = Some (JStr ''Patient/123'')"
    "\<not> startswith ''Patient/123'' ''urn:uuid:'' \<and>
     \<not> (str_contains ''?identifier='' ''Patient/123'' \<and> CHR ''|'' \<in> set ''Patient/123'') \<and>
     \<not> startswith ''Patient/123'' ''#'' \<and> CHR ''/'' \<in> set ''Patient/123'' \<and>
     \<not> is_uuid_format (id_part ''Patient/123'') \<and>
     identifier_map example_ctx (id_part ''Patient/123'') = None"
    by code_simp+
  from unresolved_urn_uuid_is_kept[OF a(1), of example_ctx False False False] a(2)
  have 1: "\<exists>obj'. replace_references example_ctx False False False
            (JObj [(''reference'', JStr ''urn:uuid:0000''), (''display'', JStr ''x'')]) = JObj obj' \<and>
          map_of obj' ''reference'' = Some (JStr ''urn:uuid:0000'')" by blast
  from unresolved_urn_uuid_is_kept[OF b(1), of example_ctx False False False] b(2)
  have 2: "replace_references example_ctx False False False
         (JObj [(''reference'', JStr ''Organization?identifier=http://x|ORG-43'')]) = JNull" by blast
  from unresolved_urn_uuid_is_kept[OF c(1), of example_ctx False False False] c(2)
  have 3: "replace_references example_ctx False False False
         (JObj [(''reference'', JStr ''#contained-1'')]) = JNull" by blast
  from unresolved_urn_uuid_is_kept[OF d(1), of example_ctx False False False] d(2)
  have 4: "replace_references example_ctx False False False
         (JObj [(''reference'', JStr ''Patient/123'')]) = JNull" by blast
  from 1 2 3 4 show ?thesis by blast
qed

subsection \<open>Identifier references\<close>

text \<open>A UUID map whose one key itself contains \<^verbatim>\<open>?identifier=\<close> and a pipe: the key that a
  Bundle entry with \<^verbatim>\<open>fullUrl\<close> \<^verbatim>\<open>urn:uuid:a?identifier=b|c\<close> gives.\<close>

definition urn_identifier_ctx :: rctx where
  "urn_identifier_ctx =
     \<lparr>uuid_map = [''a?identifier=b|c'' \<mapsto> ''Patient''],
      identifier_map = Map.empty,
      organization_id = None,
      practitioner_id = None\<rparr>"

text \<open>
  Claim C6, as amended. Take an object whose \<^verbatim>\<open>reference\<close> field holds a string \<open>r\<close> that does not
  start with \<^verbatim>\<open>urn:uuid:\<close> and contains both \<^verbatim>\<open>?identifier=\<close> and a pipe. If the pattern matches
  and its third group is a key of the identifier map bound to \<open>(mt, mi)\<close>, the rewrite returns
  an object whose \<^verbatim>\<open>reference\<close> is \<open>mt/mi\<close>; if the pattern matches and the group is not a key,
  the rewrite returns \<^verbatim>\<open>None\<close>; if the pattern does not match, the rewrite returns an object
  whose \<^verbatim>\<open>reference\<close> is still \<open>r\<close>.
\<close>

theorem identifier_reference_rewrite:
  assumes "map_of obj ''reference'' = Some (JStr r)"
    and "\<not> startswith r ''urn:uuid:''"
    and "str_contains ''?identifier='' r" and "CHR ''|'' \<in> set r"
  shows "(\<forall>t s v mt mi.
            match_identifier_reference r = Some (t, s, v) \<and>
            identifier_map ctx v = Some (mt, mi) \<longrightarrow>
            (\<exists>obj'. replace_references ctx eob prov cp (JObj obj) = JObj obj' \<and>
                    map_of obj' ''reference'' = Some (JStr (mt @ ''/'' @ mi))))
       \<and> (\<forall>t s v.
            match_identifier_reference r = Some (t, s, v) \<and> identifier_map ctx v = None \<longrightarrow>
            replace_references ctx eob prov cp (JObj obj) = JNull)
       \<and> (match_identifier_reference r = None \<longrightarrow>
            (\<exists>obj'. replace_references ctx eob prov cp (JObj obj) = JObj obj' \<and>
                    map_of obj' ''reference'' = Some (JStr r)))"
proof (intro conjI allI impI)
  fix t s v mt mi
  assume "match_identifier_reference r = Some (t, s, v) \<and> identifier_map ctx v = Some (mt, mi)"
  then have "resolve_reference ctx r = Replace (mt @ ''/'' @ mi)"
    using assms(2-4) by (simp add: resolve_identifier)
  then show "\<exists>obj'. replace_references ctx eob prov cp (JObj obj) = JObj obj' \<and>
                    map_of obj' ''reference'' = Some (JStr (mt @ ''/'' @ mi))"
    by (rule rewrite_Replace[OF assms(1)])
next
  fix t s v
  assume "match_identifier_reference r = Some (t, s, v) \<and> identifier_map ctx v = None"
  then have "resolve_reference ctx r = Remove"
    using assms(2-4) by (simp add: resolve_identifier)
  then show "replace_references ctx eob prov cp (JObj obj) = JNull"
    by (rule rewrite_Remove[OF assms(1)])
next
  assume "match_identifier_reference r = None"
  then have "resolve_reference ctx r = Keep"
    using assms(2-4) by (simp add: resolve_identifier)
  then show "\<exists>obj'. replace_references ctx eob prov cp (JObj obj) = JObj obj' \<and>
                    map_of obj' ''reference'' = Some (JStr r)"
    by (rule rewrite_Keep[OF assms(1)])
qed

text \<open>The claim as first stated has no condition on the prefix. A reference that starts with
  \<^verbatim>\<open>urn:uuid:\<close> is taken by the first test of the chain, whatever else it contains: here the
  string contains \<^verbatim>\<open>?identifier=\<close> and a pipe, the pattern does not match it, and yet the
  reference is rewritten.\<close>

theorem identifier_reference_counterexample:
  "str_contains ''?identifier='' ''urn:uuid:a?identifier=b|c''
   \<and> CHR ''|'' \<in> set ''urn:uuid:a?identifier=b|c''
   \<and> match_identifier_reference ''urn:uuid:a?identifier=b|c'' = None
   \<and> replace_references urn_identifier_ctx False False False
         (JObj [(''reference'', JStr ''urn:uuid:a?identifier=b|c'')])
       = JObj [(''reference'', JStr ''Patient/a?identifier=b|c'')]"
  by code_simp

text \<open>The three cases at the references of the specification's scenario, and the first case
  at a reference whose resource type is the letter \<^verbatim>\<open>0xE9\<close> of Latin-1, which \<^verbatim>\<open>\w\<close> matches.\<close>

theorem identifier_reference_witness:
  "(\<exists>obj'. replace_references example_ctx False False False
             (JObj [(''reference'', JStr ''Organization?identifier=http://x|ORG-42'')]) = JObj obj' \<and>
           map_of obj' ''reference'' = Some (JStr ''Organization/org-uuid-9''))
   \<and> replace_references example_ctx False False False
         (JObj [(''reference'', JStr ''Organization?identifier=http://x|ORG-43'')]) = JNull
   \<and> (\<exists>obj'. replace_references example_ctx False False False
             (JObj [(''reference'', JStr ''?identifier=http://x|ORG-42'')]) = JObj obj' \<and>
           map_of obj' ''reference'' = Some (JStr ''?identifier=http://x|ORG-42''))
   \<and> (\<exists>obj'. replace_references example_ctx False False False
             (JObj [(''reference'', JStr (CHR 0xE9 # ''?identifier=http://x|ORG-42''))]) = JObj obj' \<and>
           map_of obj' ''reference'' = Some (JStr ''Organization/org-uuid-9''))"
proof -
  have m4: "match_identifier_reference (CHR 0xE9 # ''?identifier=http://x|ORG-42'')
              = Some ([CHR 0xE9], ''http://x'', ''ORG-42'')
            \<and> identifier_map example_ctx ''ORG-42'' = Some (''Organization'', ''org-uuid-9'')"
    by code_simp
  have h4: "map_of [(''reference'', JStr (CHR 0xE9 # ''?identifier=http://x|ORG-42''))] ''reference''
              = Some (JStr (CHR 0xE9 # ''?identifier=http://x|ORG-42''))"
    "\<not> startswith (CHR 0xE9 # ''?identifier=http://x|ORG-42'') ''urn:uuid:''"
    "str_contains ''?identifier='' (CHR 0xE9 # ''?identifier=http://x|ORG-42'')"
    "CHR ''|'' \<in> set (CHR 0xE9 # ''?identifier=http://x|ORG-42'')"
    by code_simp+
  have 4: "\<exists>obj'. replace_references example_ctx False False False
             (JObj [(''reference'', JStr (CHR 0xE9 # ''?identifier=http://x|ORG-42''))]) = JObj obj' \<and>
           map_of obj' ''reference'' = Some (JStr (''Organization'' @ ''/'' @ ''org-uuid-9''))"
    using identifier_reference_rewrite[OF h4, of example_ctx False False False] m4 by fast
  then have four: "\<exists>obj'. replace_references example_ctx False False False
             (JObj [(''reference'', JStr (CHR 0xE9 # ''?identifier=http://x|ORG-42''))]) = JObj obj' \<and>
           map_of obj' ''reference'' = Some (JStr ''Organization/org-uuid-9'')"
    by simp
  have m1: "match_identifier_reference ''Organization?identifier=http://x|ORG-42''
              = Some (''Organization'', ''http://x'', ''ORG-42'')
            \<and> identifier_map example_ctx ''ORG-42'' = Some (''Organization'', ''org-uuid-9'')"
    by code_simp
  have h1: "map_of [(''reference'', JStr ''Organization?identifier=http://x|ORG-42'')] ''reference''
              = Some (JStr ''Organization?identifier=http://x|ORG-42'')"
    "\<not> startswith ''Organization?identifier=http://x|ORG-42'' ''urn:uuid:''"
    "str_contains ''?identifier='' ''Organization?identifier=http://x|ORG-42''"
    "CHR ''|'' \<in> set ''Organization?identifier=http://x|ORG-42''"
    by code_simp+
  have m2: "match_identifier_reference ''Organization?identifier=http://x|ORG-43''
              = Some (''Organization'', ''http://x'', ''ORG-43'')
            \<and> identifier_map example_ctx ''ORG-43'' = None"
    by code_simp
  have h2: "map_of [(''reference'', JStr ''Organization?identifier=http://x|ORG-43'')] ''reference''
              = Some (JStr ''Organization?identifier=http://x|ORG-43'')"
    "\<not> startswith ''Organization?identifier=http://x|ORG-43'' ''urn:uuid:''"
    "str_contains ''?identifier='' ''Organization?identifier=http://x|ORG-43''"
    "CHR ''|'' \<in> set ''Organization?identifier=http://x|ORG-43''"
    by code_simp+
  have m3: "match_identifier_reference ''?identifier=http://x|ORG-42'' = None"
    by code_simp
  have h3: "map_of [(''reference'', JStr ''?identifier=http://x|ORG-42'')] ''reference''
              = Some (JStr ''?identifier=http://x|ORG-42'')"
    "\<not> startswith ''?identifier=http://x|ORG-42'' ''urn:uuid:''"
    "str_contains ''?identifier='' ''?identifier=http://x|ORG-42''"
    "CHR ''|'' \<in> set ''?identifier=http://x|ORG-42''"
    by code_simp+
  have 1: "\<exists>obj'. replace_references example_ctx False False False
             (JObj [(''reference'', JStr ''Organization?identifier=http://x|ORG-42'')]) = JObj obj' \<and>
           map_of obj' ''reference'' = Some (JStr (''Organization'' @ ''/'' @ ''org-uuid-9''))"
    using identifier_reference_rewrite[OF h1, of example_ctx False False False] m1 by fast
  have 2: "replace_references example_ctx False False False
         (JObj [(''reference'', JStr ''Organization?identifier=http://x|ORG-43'')]) = JNull"
    using identifier_reference_rewrite[OF h2, of example_ctx False False False] m2 by fast
  have 3: "\<exists>obj'. replace_references example_ctx False False False
             (JObj [(''reference'', JStr ''?identifier=http://x|ORG-42'')]) = JObj obj' \<and>
           map_of obj' ''reference'' = Some (JStr ''?identifier=http://x|ORG-42'')"
    using identifier_reference_rewrite[OF h3, of example_ctx False False False] m3 by fast
  from 1 have one: "\<exists>obj'. replace_references example_ctx False False False
             (JObj [(''reference'', JStr ''Organization?identifier=http://x|ORG-42'')]) = JObj obj' \<and>
           map_of obj' ''reference'' = Some (JStr ''Organization/org-uuid-9'')"
    by simp
  from one 2 3 four show ?thesis by (intro conjI)
qed

subsection \<open>References already in canonical form\<close>

text \<open>
  Claim C4, as amended. Take an object whose \<^verbatim>\<open>reference\<close> field holds a string \<open>r\<close> that contains
  \<^verbatim>\<open>/\<close>, whose part after the first \<^verbatim>\<open>/\<close> has the strict 8-4-4-4-12 shape, and that reaches the
  \<^verbatim>\<open>Type/id\<close> test of the chain: it does not start with \<^verbatim>\<open>urn:uuid:\<close> or with \<^verbatim>\<open>#\<close>, and does not
  contain both \<^verbatim>\<open>?identifier=\<close> and a pipe. Then the rewrite returns an object whose
  \<^verbatim>\<open>reference\<close> is still \<open>r\<close>, and a second rewrite of that object again returns an object
  whose \<^verbatim>\<open>reference\<close> is \<open>r\<close>.
\<close>

theorem canonical_reference_unchanged:
  assumes "map_of obj ''reference'' = Some (JStr r)"
    and "CHR ''/'' \<in> set r" and "strict_uuid (id_part r)"
    and "\<not> startswith r ''urn:uuid:''"
    and "\<not> (str_contains ''?identifier='' r \<and> CHR ''|'' \<in> set r)"
    and "\<not> startswith r ''#''"
  shows "\<exists>obj'. replace_references ctx eob prov cp (JObj obj) = JObj obj' \<and>
               map_of obj' ''reference'' = Some (JStr r) \<and>
               (\<exists>obj''. replace_references ctx eob prov cp (JObj obj') = JObj obj'' \<and>
                        map_of obj'' ''reference'' = Some (JStr r))"
proof -
  have keep: "resolve_reference ctx r = Keep"
    using assms(2-6) by (simp add: resolve_slash strict_uuid_is_uuid_format)
  obtain obj' where 1: "replace_references ctx eob prov cp (JObj obj) = JObj obj'"
      "map_of obj' ''reference'' = Some (JStr r)"
    using rewrite_Keep[OF assms(1) keep] by blast
  obtain obj'' where 2: "replace_references ctx eob prov cp (JObj obj') = JObj obj''"
      "map_of obj'' ''reference'' = Some (JStr r)"
    using rewrite_Keep[OF 1(2) keep] by blast
  from 1 2 show ?thesis by blast
qed

text \<open>Without the conditions on the start of the string the claim fails: the test for an
  internal reference comes before the test for \<^verbatim>\<open>/\<close>, so this object is removed although the
  part after its first \<^verbatim>\<open>/\<close> is a UUID.\<close>

theorem canonical_reference_counterexample:
  "CHR ''/'' \<in> set ''#a/6c0b7f20-5c92-efd9-779b-c9ac40656b44''
   \<and> strict_uuid (id_part ''#a/6c0b7f20-5c92-efd9-779b-c9ac40656b44'')
   \<and> replace_references example_ctx False False False
        (JObj [(''reference'', JStr ''#a/6c0b7f20-5c92-efd9-779b-c9ac40656b44'')]) = JNull"
  by code_simp

theorem canonical_reference_witness:
  "replace_references example_ctx False False False
     (JObj [(''reference'', JStr ''urn:uuid:6c0b7f20-5c92-efd9-779b-c9ac40656b44'')])
     = JObj [(''reference'', JStr ''Patient/6c0b7f20-5c92-efd9-779b-c9ac40656b44'')]
   \<and> (\<exists>obj'. replace_references example_ctx False False False
          (JObj [(''reference'', JStr ''Patient/6c0b7f20-5c92-efd9-779b-c9ac40656b44'')]) = JObj obj' \<and>
        map_of obj' ''reference'' = Some (JStr ''Patient/6c0b7f20-5c92-efd9-779b-c9ac40656b44'') \<and>
        (\<exists>obj''. replace_references example_ctx False False False (JObj obj') = JObj obj'' \<and>
           map_of obj'' ''reference'' = Some (JStr ''Patient/6c0b7f20-5c92-efd9-779b-c9ac40656b44'')))"
proof -
  have first: "replace_references example_ctx False False False
     (JObj [(''reference'', JStr ''urn:uuid:6c0b7f20-5c92-efd9-779b-c9ac40656b44'')])
     = JObj [(''reference'', JStr ''Patient/6c0b7f20-5c92-efd9-779b-c9ac40656b44'')]"
    by code_simp
  have h: "map_of [(''reference'', JStr ''Patient/6c0b7f20-5c92-efd9-779b-c9ac40656b44'')] ''reference''
             = Some (JStr ''Patient/6c0b7f20-5c92-efd9-779b-c9ac40656b44'')"
    "CHR ''/'' \<in> set ''Patient/6c0b7f20-5c92-efd9-779b-c9ac40656b44''"
    "strict_uuid (id_part ''Patient/6c0b7f20-5c92-efd9-779b-c9ac40656b44'')"
    "\<not> startswith ''Patient/6c0b7f20-5c92-efd9-779b-c9ac40656b44'' ''urn:uuid:''"
    "\<not> (str_contains ''?identifier='' ''Patient/6c0b7f20-5c92-efd9-779b-c9ac40656b44'' \<and>
        CHR ''|'' \<in> set ''Patient/6c0b7f20-5c92-efd9-779b-c9ac40656b44'')"
    "\<not> startswith ''Patient/6c0b7f20-5c92-efd9-779b-c9ac40656b44'' ''#''"
    by code_simp+
  show ?thesis
    using first canonical_reference_unchanged[OF h, of example_ctx False False False]
    by blast
qed

subsection \<open>The injected \<^verbatim>\<open>provider\<close> and \<^verbatim>\<open>who\<close> objects\<close>

lemma map_of_concat_map_None:
  assumes keys: "\<And>k v. fst ` set (f (k, v)) \<subseteq> {k}"
    and "\<And>v. (k, v) \<in> set d \<Longrightarrow> f (k, v) = []"
  shows "map_of (concat (map f d)) k = None"
proof -
  have "k \<notin> fst ` set (concat (map f d))"
  proof
    assume "k \<in> fst ` set (concat (map f d))"
    then obtain w a where a: "a \<in> set d" "(k, w) \<in> set (f a)" by auto
    obtain k' v' where kv: "a = (k', v')" by (cases a)
    with a keys[of k' v'] have "k' = k" by force
    with a kv assms(2)[of v'] show False by auto
  qed
  then show ?thesis by (simp add: map_of_eq_None_iff)
qed

lemma has_key_reference_step:
  assumes "reference_step ctx obj = Some obj1"
  shows "has_key k obj1 = has_key k obj"
proof -
  have "obj1 = obj \<or> (\<exists>r r'. map_of obj ''reference'' = Some (JStr r) \<and>
           obj1 = dict_set ''reference'' (JStr r') obj)"
    using assms
    by (auto simp: reference_step_def split: option.splits json.splits ref_action.splits)
  then show ?thesis
    by (auto simp: has_key_map_of map_of_dict_set split: if_splits)
qed

lemma rewrite_single_reference:
  "replace_references ctx False False False (JObj [(''reference'', JStr s)]) =
     (case resolve_reference ctx s of
        Keep \<Rightarrow> JObj [(''reference'', JStr s)]
      | Replace s' \<Rightarrow> JObj [(''reference'', JStr s')]
      | Remove \<Rightarrow> JNull)"
  by (simp add: replace_references_dict reference_step_def inject_fields_def add_who_def
      add_provider_def clean_careplan_care_team_def loop_item_string
      split: ref_action.splits)

lemma resolve_organization:
  assumes "\<not> (str_contains ''?identifier='' org \<and> CHR ''|'' \<in> set org)"
  shows "resolve_reference ctx (''Organization/'' @ org) =
     (if is_uuid_format org then Keep
      else case identifier_map ctx org of
             None \<Rightarrow> Remove
           | Some (mt, mi) \<Rightarrow> Replace (mt @ ''/'' @ mi))"
proof -
  have 1: "\<not> startswith (''Organization/'' @ org) ''urn:uuid:''"
    by (simp add: startswith_def)
  have 2: "str_contains ''?identifier='' (''Organization/'' @ org) = str_contains ''?identifier='' org"
    by (simp add: startswith_def)
  have 3: "\<not> startswith (''Organization/'' @ org) ''#''"
    by (simp add: startswith_def)
  have 4: "CHR ''/'' \<in> set (''Organization/'' @ org)" by simp
  have 5: "id_part (''Organization/'' @ org) = org" by (simp add: id_part_def)
  have 6: "\<not> (str_contains ''?identifier='' (''Organization/'' @ org) \<and>
              CHR ''|'' \<in> set (''Organization/'' @ org))"
    using assms 2 by simp
  show ?thesis
    using resolve_slash[OF 1 6 3 4, of ctx] by (simp only: 5)
qed

lemma resolve_practitioner:
  assumes "\<not> (str_contains ''?identifier='' pid \<and> CHR ''|'' \<in> set pid)"
  shows "resolve_reference ctx (''Practitioner/'' @ pid) =
     (if is_uuid_format pid then Keep
      else case identifier_map ctx pid of
             None \<Rightarrow> Remove
           | Some (mt, mi) \<Rightarrow> Replace (mt @ ''/'' @ mi))"
proof -
  have 1: "\<not> startswith (''Practitioner/'' @ pid) ''urn:uuid:''"
    by (simp add: startswith_def)
  have 2: "str_contains ''?identifier='' (''Practitioner/'' @ pid) = str_contains ''?identifier='' pid"
    by (simp add: startswith_def)
  have 3: "\<not> startswith (''Practitioner/'' @ pid) ''#''"
    by (simp add: startswith_def)
  have 4: "CHR ''/'' \<in> set (''Practitioner/'' @ pid)" by simp
  have 5: "id_part (''Practitioner/'' @ pid) = pid" by (simp add: id_part_def)
  have 6: "\<not> (str_contains ''?identifier='' (''Practitioner/'' @ pid) \<and>
              CHR ''|'' \<in> set (''Practitioner/'' @ pid))"
    using assms 2 by simp
  show ?thesis
    using resolve_slash[OF 1 6 3 4, of ctx] by (simp only: 5)
qed

text \<open>What the pass leaves of an injected object, by the id it was built from.\<close>

definition injected_outcome :: "rctx \<Rightarrow> string \<Rightarrow> string \<Rightarrow> json" where
  "injected_outcome ctx type_prefix i =
     (if is_uuid_format i then JObj [(''reference'', JStr (type_prefix @ i))]
      else case identifier_map ctx i of
             None \<Rightarrow> JNull
           | Some (mt, mi) \<Rightarrow> JObj [(''reference'', JStr (mt @ ''/'' @ mi))])"

lemma rewrite_injected_organization:
  assumes "\<not> (str_contains ''?identifier='' org \<and> CHR ''|'' \<in> set org)"
  shows "replace_references ctx False False False
           (JObj [(''reference'', JStr (''Organization/'' @ org))])
         = injected_outcome ctx ''Organization/'' org"
  by (simp only: rewrite_single_reference resolve_organization[OF assms] injected_outcome_def)
    (simp split: option.splits)

lemma rewrite_injected_practitioner:
  assumes "\<not> (str_contains ''?identifier='' pid \<and> CHR ''|'' \<in> set pid)"
  shows "replace_references ctx False False False
           (JObj [(''reference'', JStr (''Practitioner/'' @ pid))])
         = injected_outcome ctx ''Practitioner/'' pid"
  by (simp only: rewrite_single_reference resolve_practitioner[OF assms] injected_outcome_def)
    (simp split: option.splits)

lemma loop_item_injected:
  assumes "k = ''provider'' \<or> k = ''who''"
  shows "loop_item ctx obj obj2 (k, JObj d) =
     (let result = replace_references ctx False False False (JObj d)
      in if result = JNull then [] else [(k, result)])"
  using assms by (auto simp: loop_item_def strip_dosage_def is_list_def Let_def)

lemma map_of_loop_single:
  assumes one: "\<And>v. (k, v) \<in> set d \<Longrightarrow> v = p"
    and mem: "(k, p) \<in> set d"
    and res: "f (k, p) = (if w = JNull then [] else [(k, w)])"
    and keys: "\<And>k v. fst ` set (f (k, v)) \<subseteq> {k}"
  shows "map_of (concat (map f d)) k = (if w = JNull then None else Some w)"
proof (cases "w = JNull")
  case True
  have "map_of (concat (map f d)) k = None"
  proof (rule map_of_concat_map_None[OF keys])
    fix v assume "(k, v) \<in> set d"
    then have "v = p" by (rule one)
    then show "f (k, v) = []" using res True by simp
  qed
  with True show ?thesis by simp
next
  case False
  have "map_of d k = Some p"
  proof (cases "map_of d k")
    case None
    then show ?thesis using mem by (force simp: map_of_eq_None_iff)
  next
    case (Some v)
    then have "(k, v) \<in> set d" by (rule map_of_SomeD)
    then show ?thesis using one Some by simp
  qed
  then have "map_of (concat (map f d)) k = Some w"
    by (rule map_of_concat_map[OF keys]) (use res False in simp)
  with False show ?thesis by simp
qed

lemma injected_outcome_null:
  "(injected_outcome ctx p i = JNull) = (\<not> is_uuid_format i \<and> identifier_map ctx i = None)"
  by (auto simp: injected_outcome_def split: option.splits)

lemma rewrite_dict_cases:
  assumes "replace_references ctx eob prov cp (JObj obj) = JObj obj'"
  obtains obj1 where "reference_step ctx obj = Some obj1"
    and "obj' = concat (map (loop_item ctx obj (inject_fields ctx eob prov cp obj1))
                         (inject_fields ctx eob prov cp obj1))"
  using assms by (auto simp: replace_references_dict split: option.splits)

lemma provider_outcome:
  assumes rr: "replace_references ctx True prov False (JObj obj) = JObj obj'"
    and org: "organization_id ctx = Some org" "org \<noteq> []"
    and nokey: "\<not> has_key ''provider'' obj"
    and shape: "\<not> (str_contains ''?identifier='' org \<and> CHR ''|'' \<in> set org)"
  shows "map_of obj' ''provider'' =
           (if injected_outcome ctx ''Organization/'' org = JNull then None
            else Some (injected_outcome ctx ''Organization/'' org))"
proof -
  let ?P = "JObj [(''reference'', JStr (''Organization/'' @ org))]"
  from rr obtain obj1 where step: "reference_step ctx obj = Some obj1"
    and out: "obj' = concat (map (loop_item ctx obj (inject_fields ctx True prov False obj1))
                         (inject_fields ctx True prov False obj1))"
    by (rule rewrite_dict_cases)
  let ?obj2 = "inject_fields ctx True prov False obj1"
  have nk1: "\<not> has_key ''provider'' obj1"
    using nokey has_key_reference_step[OF step] by simp
  have ap: "add_provider ctx True obj1 = obj1 @ [(''provider'', ?P)]"
    using nk1 org by (simp add: add_provider_def truthy_id_def dict_set_absent)
  have obj2: "?obj2 = add_who ctx prov (obj1 @ [(''provider'', ?P)])"
    by (simp add: inject_fields_def clean_careplan_care_team_def ap)
  have mem: "(''provider'', ?P) \<in> set ?obj2"
  proof -
    have sub: "set d \<subseteq> set (add_who ctx prov d)" for d
      by (auto simp: add_who_def dict_set_absent)
    have "(''provider'', ?P) \<in> set (obj1 @ [(''provider'', ?P)])" by simp
    with sub show ?thesis unfolding obj2 by blast
  qed
  have one: "v = ?P" if "(''provider'', v) \<in> set ?obj2" for v
  proof -
    have "set (add_who ctx prov d) \<subseteq> set d \<union> {(''who'', w) | w. True}" for d
      using set_dict_set[of "''who''" _ d] by (auto simp: add_who_def)
    with that have "(''provider'', v) \<in> set (obj1 @ [(''provider'', ?P)])"
      unfolding obj2 by blast
    then show ?thesis using nk1 by (force simp: has_key_def)
  qed
  have res: "loop_item ctx obj ?obj2 (''provider'', ?P) =
      (if injected_outcome ctx ''Organization/'' org = JNull then []
       else [(''provider'', injected_outcome ctx ''Organization/'' org)])"
    by (simp only: loop_item_injected[of "''provider''", simplified]
        rewrite_injected_organization[OF shape] Let_def)
  show ?thesis
    unfolding out
    by (rule map_of_loop_single[OF one mem res loop_item_keys])
qed

lemma who_outcome:
  assumes rr: "replace_references ctx eob True cp (JObj obj) = JObj obj'"
    and pid: "practitioner_id ctx = Some pid" "pid \<noteq> []"
    and nokey: "\<not> has_key ''who'' obj"
    and shape: "\<not> (str_contains ''?identifier='' pid \<and> CHR ''|'' \<in> set pid)"
  shows "map_of obj' ''who'' =
           (if injected_outcome ctx ''Practitioner/'' pid = JNull then None
            else Some (injected_outcome ctx ''Practitioner/'' pid))"
proof -
  let ?W = "JObj [(''reference'', JStr (''Practitioner/'' @ pid))]"
  from rr obtain obj1 where step: "reference_step ctx obj = Some obj1"
    and out: "obj' = concat (map (loop_item ctx obj (inject_fields ctx eob True cp obj1))
                         (inject_fields ctx eob True cp obj1))"
    by (rule rewrite_dict_cases)
  let ?obj2 = "inject_fields ctx eob True cp obj1"
  let ?mid = "clean_careplan_care_team cp (add_provider ctx eob obj1)"
  have nk1: "\<not> has_key ''who'' obj1"
    using nokey has_key_reference_step[OF step] by simp
  have nk2: "\<not> has_key ''who'' ?mid"
  proof -
    have "has_key ''who'' (add_provider ctx eob obj1) = has_key ''who'' obj1"
      by (simp add: add_provider_def has_key_dict_set)
    moreover have "has_key k (clean_careplan_care_team cp d) \<Longrightarrow> has_key k d" for k d
      by (force simp: clean_careplan_care_team_def has_key_def split: if_splits)
    ultimately show ?thesis using nk1 by blast
  qed
  have obj2: "?obj2 = ?mid @ [(''who'', ?W)]"
    using nk2 pid by (simp add: inject_fields_def add_who_def truthy_id_def dict_set_absent)
  have mem: "(''who'', ?W) \<in> set ?obj2"
    unfolding obj2 by simp
  have one: "v = ?W" if "(''who'', v) \<in> set ?obj2" for v
    using that nk2 unfolding obj2 by (force simp: has_key_def)
  have res: "loop_item ctx obj ?obj2 (''who'', ?W) =
      (if injected_outcome ctx ''Practitioner/'' pid = JNull then []
       else [(''who'', injected_outcome ctx ''Practitioner/'' pid)])"
    by (simp only: loop_item_injected[of "''who''", simplified]
        rewrite_injected_practitioner[OF shape] Let_def)
  show ?thesis
    unfolding out
    by (rule map_of_loop_single[OF one mem res loop_item_keys])
qed

text \<open>
  Claim C9, as amended. The \<^verbatim>\<open>provider\<close> object is added to an element visited with the flag
  \<^verbatim>\<open>in_eob_care_team\<close> (and not \<^verbatim>\<open>in_careplan_care_team\<close>) before the snapshot of the items is
  taken, and the \<^verbatim>\<open>who\<close> object to an element visited with \<^verbatim>\<open>in_provenance_agent\<close>; the loop then
  rewrites them like any other reference object. Provided the configured id does not
  contain both \<^verbatim>\<open>?identifier=\<close> and a pipe, the object that the rewrite returns has the injected
  field if and only if the id is accepted by \<^verbatim>\<open>is_uuid_format\<close> or is a key of the identifier
  map: in the first case the injected reference is kept, in the second it is replaced by
  the mapped type and id, and otherwise the injected object is removed again by the rule
  for \<^verbatim>\<open>Type/id\<close> references.
\<close>

theorem injected_field_survival:
  "(replace_references ctx True prov False (JObj obj) = JObj obj' \<and>
    organization_id ctx = Some org \<and> org \<noteq> [] \<and> \<not> has_key ''provider'' obj \<and>
    \<not> (str_contains ''?identifier='' org \<and> CHR ''|'' \<in> set org) \<longrightarrow>
      (has_key ''provider'' obj' \<longleftrightarrow> is_uuid_format org \<or> identifier_map ctx org \<noteq> None) \<and>
      map_of obj' ''provider'' =
        (if injected_outcome ctx ''Organization/'' org = JNull then None
         else Some (injected_outcome ctx ''Organization/'' org)))
   \<and>
   (replace_references ctx eob True cp (JObj obj) = JObj obj'' \<and>
    practitioner_id ctx = Some pid \<and> pid \<noteq> [] \<and> \<not> has_key ''who'' obj \<and>
    \<not> (str_contains ''?identifier='' pid \<and> CHR ''|'' \<in> set pid) \<longrightarrow>
      (has_key ''who'' obj'' \<longleftrightarrow> is_uuid_format pid \<or> identifier_map ctx pid \<noteq> None) \<and>
      map_of obj'' ''who'' =
        (if injected_outcome ctx ''Practitioner/'' pid = JNull then None
         else Some (injected_outcome ctx ''Practitioner/'' pid)))"
proof (intro conjI impI)
  assume a: "replace_references ctx True prov False (JObj obj) = JObj obj' \<and>
    organization_id ctx = Some org \<and> org \<noteq> [] \<and> \<not> has_key ''provider'' obj \<and>
    \<not> (str_contains ''?identifier='' org \<and> CHR ''|'' \<in> set org)"
  then have m: "map_of obj' ''provider'' =
        (if injected_outcome ctx ''Organization/'' org = JNull then None
         else Some (injected_outcome ctx ''Organization/'' org))"
    using provider_outcome[of ctx prov obj obj' org] by blast
  then show "map_of obj' ''provider'' =
        (if injected_outcome ctx ''Organization/'' org = JNull then None
         else Some (injected_outcome ctx ''Organization/'' org))" .
  from m show "has_key ''provider'' obj' \<longleftrightarrow> is_uuid_format org \<or> identifier_map ctx org \<noteq> None"
    by (simp add: has_key_map_of injected_outcome_null)
next
  assume a: "replace_references ctx eob True cp (JObj obj) = JObj obj'' \<and>
    practitioner_id ctx = Some pid \<and> pid \<noteq> [] \<and> \<not> has_key ''who'' obj \<and>
    \<not> (str_contains ''?identifier='' pid \<and> CHR ''|'' \<in> set pid)"
  then have m: "map_of obj'' ''who'' =
        (if injected_outcome ctx ''Practitioner/'' pid = JNull then None
         else Some (injected_outcome ctx ''Practitioner/'' pid))"
    using who_outcome[of ctx eob cp obj obj'' pid] by blast
  then show "map_of obj'' ''who'' =
        (if injected_outcome ctx ''Practitioner/'' pid = JNull then None
         else Some (injected_outcome ctx ''Practitioner/'' pid))" .
  from m show "has_key ''who'' obj'' \<longleftrightarrow> is_uuid_format pid \<or> identifier_map ctx pid \<noteq> None"
    by (simp add: has_key_map_of injected_outcome_null)
qed

text \<open>Without the condition on the id the equivalence fails. For an organization id that
  contains \<^verbatim>\<open>?identifier=\<close> and a pipe, the injected reference is taken by the identifier test
  of the chain; the pattern does not match it (the word before \<^verbatim>\<open>?\<close> is preceded by
  \<^verbatim>\<open>Organization/\<close>), nothing is assigned and nothing is removed, so the field survives
  although the id is neither UUID-shaped nor a key of the map.\<close>

definition odd_org_ctx :: rctx where
  "odd_org_ctx =
     \<lparr>uuid_map = Map.empty,
      identifier_map = Map.empty,
      organization_id = Some ''x?identifier=y|z'',
      practitioner_id = None\<rparr>"

theorem injected_field_counterexample:
  "\<not> is_uuid_format ''x?identifier=y|z''
   \<and> identifier_map odd_org_ctx ''x?identifier=y|z'' = None
   \<and> replace_references odd_org_ctx True False False (JObj [(''sequence'', JNum 1)])
       = JObj [(''sequence'', JNum 1),
               (''provider'', JObj [(''reference'', JStr ''Organization/x?identifier=y|z'')])]"
  by code_simp

text \<open>A context whose organization id is short and unmapped, and whose practitioner id is
  a key of the identifier map.\<close>

definition short_ids_ctx :: rctx where
  "short_ids_ctx =
     \<lparr>uuid_map = Map.empty,
      identifier_map = [''PRAC-7'' \<mapsto> (''Practitioner'', ''a8cd062d-7100-36d2-96c0-a6a3903991ad'')],
      organization_id = Some ''org-1'',
      practitioner_id = Some ''PRAC-7''\<rparr>"


theorem injected_field_witness:
  "(\<exists>obj'. replace_references example_ctx True False False (JObj [(''sequence'', JNum 1)])
             = JObj obj' \<and> has_key ''provider'' obj')
   \<and> (\<exists>obj'. replace_references example_ctx False True False (JObj [(''sequence'', JNum 1)])
             = JObj obj' \<and> has_key ''who'' obj')
   \<and> (\<exists>obj'. replace_references short_ids_ctx True False False (JObj [(''sequence'', JNum 1)])
             = JObj obj' \<and> \<not> has_key ''provider'' obj')
   \<and> (\<exists>obj'. replace_references short_ids_ctx False True False (JObj [(''sequence'', JNum 1)])
             = JObj obj' \<and> has_key ''who'' obj')"
proof -
  let ?e = "[(''sequence'', JNum 1)]"
  let ?org = "''2befa435-3070-3350-a15c-e43ac1e84b24''"
  let ?pid = "''a8cd062d-7100-36d2-96c0-a6a3903991ad''"
  let ?p1 = "[(''sequence'', JNum 1),
              (''provider'', JObj [(''reference'', JStr (''Organization/'' @ ?org))])]"
  let ?w1 = "[(''sequence'', JNum 1),
              (''who'', JObj [(''reference'', JStr (''Practitioner/'' @ ?pid))])]"
  have a: "replace_references example_ctx True False False (JObj ?e) = JObj ?p1 \<and>
      organization_id example_ctx = Some ?org \<and> ?org \<noteq> [] \<and> \<not> has_key ''provider'' ?e \<and>
      \<not> (str_contains ''?identifier='' ?org \<and> CHR ''|'' \<in> set ?org)"
    by code_simp
  have b: "replace_references example_ctx False True False (JObj ?e) = JObj ?w1 \<and>
      practitioner_id example_ctx = Some ?pid \<and> ?pid \<noteq> [] \<and> \<not> has_key ''who'' ?e \<and>
      \<not> (str_contains ''?identifier='' ?pid \<and> CHR ''|'' \<in> set ?pid)"
    by code_simp
  have u: "is_uuid_format ?org" "is_uuid_format ?pid" by code_simp+
  have c: "replace_references short_ids_ctx True False False (JObj ?e) = JObj ?e \<and>
      organization_id short_ids_ctx = Some ''org-1'' \<and> ''org-1'' \<noteq> [] \<and>
      \<not> has_key ''provider'' ?e \<and>
      \<not> (str_contains ''?identifier='' ''org-1'' \<and> CHR ''|'' \<in> set ''org-1'')"
    by code_simp
  have d: "replace_references short_ids_ctx False True False (JObj ?e) = JObj ?w1 \<and>
      practitioner_id short_ids_ctx = Some ''PRAC-7'' \<and> ''PRAC-7'' \<noteq> [] \<and>
      \<not> has_key ''who'' ?e \<and>
      \<not> (str_contains ''?identifier='' ''PRAC-7'' \<and> CHR ''|'' \<in> set ''PRAC-7'')"
    by code_simp
  have n: "\<not> is_uuid_format ''org-1''" "identifier_map short_ids_ctx ''org-1'' = None"
    "identifier_map short_ids_ctx ''PRAC-7'' \<noteq> None"
    by code_simp+
  from injected_field_survival[of example_ctx False ?e ?p1 ?org False False ?w1 ?pid] a b u
  have 1: "has_key ''provider'' ?p1" and 2: "has_key ''who'' ?w1" by blast+
  from injected_field_survival[of short_ids_ctx False ?e ?e "''org-1''" False False ?w1 "''PRAC-7''"]
    c d n
  have 3: "\<not> has_key ''provider'' ?e" and 4: "has_key ''who'' ?w1" by blast+
  from a 1 have r1: "\<exists>obj'. replace_references example_ctx True False False (JObj ?e)
             = JObj obj' \<and> has_key ''provider'' obj'" by blast
  from b 2 have r2: "\<exists>obj'. replace_references example_ctx False True False (JObj ?e)
             = JObj obj' \<and> has_key ''who'' obj'" by blast
  from c 3 have r3: "\<exists>obj'. replace_references short_ids_ctx True False False (JObj ?e)
             = JObj obj' \<and> \<not> has_key ''provider'' obj'" by blast
  from d 4 have r4: "\<exists>obj'. replace_references short_ids_ctx False True False (JObj ?e)
             = JObj obj' \<and> has_key ''who'' obj'" by blast
  from r1 r2 r3 r4 show ?thesis by (intro conjI)
qed

subsection \<open>Where the fields of the result come from\<close>

lemma reference_step_other:
  assumes "reference_step ctx obj = Some obj1" "(k, v) \<in> set obj1" "k \<noteq> ''reference''"
  shows "(k, v) \<in> set obj"
proof -
  have "obj1 = obj \<or> (\<exists>r'. obj1 = dict_set ''reference'' (JStr r') obj)"
    using assms(1)
    by (auto simp: reference_step_def split: option.splits json.splits ref_action.splits)
  then show ?thesis
    using assms(2,3) set_dict_set[of "''reference''" _ obj] by auto
qed

lemma map_of_reference_step:
  assumes "reference_step ctx obj = Some obj1" "k \<noteq> ''reference''"
  shows "map_of obj1 k = map_of obj k"
proof -
  have "obj1 = obj \<or> (\<exists>r'. obj1 = dict_set ''reference'' (JStr r') obj)"
    using assms(1)
    by (auto simp: reference_step_def split: option.splits json.splits ref_action.splits)
  then show ?thesis using assms(2) by (auto simp: map_of_dict_set)
qed

lemma inject_fields_other:
  assumes "(k, v) \<in> set (inject_fields ctx eob prov cp obj1)"
    and "k \<noteq> ''provider''" "k \<noteq> ''who''"
  shows "(k, v) \<in> set obj1"
proof -
  have a: "set (add_provider ctx eob d) \<subseteq> set d \<union> {(''provider'', w) | w. True}" for d
    using set_dict_set[of "''provider''" _ d] by (auto simp: add_provider_def)
  have b: "set (clean_careplan_care_team cp d) \<subseteq> set d" for d
    by (auto simp: clean_careplan_care_team_def)
  have c: "set (add_who ctx prov d) \<subseteq> set d \<union> {(''who'', w) | w. True}" for d
    using set_dict_set[of "''who''" _ d] by (auto simp: add_who_def)
  from assms(1) have "(k, v) \<in> set (clean_careplan_care_team cp (add_provider ctx eob obj1))"
    unfolding inject_fields_def using c assms(3) by blast
  then have "(k, v) \<in> set (add_provider ctx eob obj1)" using b by blast
  then show ?thesis using a assms(2) by blast
qed

lemma inject_fields_resource_type:
  assumes "has_resource_type t (inject_fields ctx eob prov cp obj1)"
  shows "has_resource_type t obj1"
proof -
  have "(''resourceType'', JStr t) \<in> set (inject_fields ctx eob prov cp obj1)"
    using assms by (auto simp: has_resource_type_def dest: map_of_SomeD)
  have a: "map_of (add_provider ctx eob d) ''resourceType'' = map_of d ''resourceType''" for d
    by (simp add: add_provider_def map_of_dict_set)
  have c: "map_of (add_who ctx prov d) ''resourceType'' = map_of d ''resourceType''" for d
    by (simp add: add_who_def map_of_dict_set)
  have b: "map_of (clean_careplan_care_team cp d) ''resourceType'' = Some x
             \<Longrightarrow> map_of d ''resourceType'' = Some x" for d x
    by (auto simp: clean_careplan_care_team_def map_of_filter_in split: if_splits
        dest!: map_of_SomeD)
  from assms show ?thesis
    unfolding has_resource_type_def inject_fields_def c using b a by metis
qed

lemma rewrite_list_result:
  assumes "replace_references ctx eob prov cp v = JArr ys"
  shows "\<exists>xs. v = JArr xs \<and>
           ys = filter (\<lambda>r. r \<noteq> JNull) (map (replace_references ctx eob prov cp) xs)"
  using assms
  by (cases v) (auto simp: replace_references_dict split: option.splits)

lemma rewrite_dict_result:
  assumes "replace_references ctx eob prov cp v = JObj f"
  shows "\<exists>g. v = JObj g"
  using assms by (cases v) auto

lemma output_field:
  assumes "replace_references ctx eob prov cp (JObj obj) = JObj obj'"
    and "map_of obj' k = Some w" and "k \<noteq> ''reference''" "k \<noteq> ''provider''" "k \<noteq> ''who''"
  shows "\<exists>obj1 v. reference_step ctx obj = Some obj1 \<and> (k, v) \<in> set obj \<and>
           (k, w) \<in> set (loop_item ctx obj (inject_fields ctx eob prov cp obj1) (k, v))"
proof -
  from assms(1) obtain obj1 where step: "reference_step ctx obj = Some obj1"
    and out: "obj' = concat (map (loop_item ctx obj (inject_fields ctx eob prov cp obj1))
                         (inject_fields ctx eob prov cp obj1))"
    by (rule rewrite_dict_cases)
  from assms(2) obtain v where v: "(k, v) \<in> set (inject_fields ctx eob prov cp obj1)"
    "(k, w) \<in> set (loop_item ctx obj (inject_fields ctx eob prov cp obj1) (k, v))"
    unfolding out
    using map_of_concat_mapD[where f = "loop_item ctx obj (inject_fields ctx eob prov cp obj1)",
        OF loop_item_keys] by blast
  from v(1) have "(k, v) \<in> set obj1" using assms(4,5) by (rule inject_fields_other)
  then have "(k, v) \<in> set obj" using step assms(3) reference_step_other by blast
  with step v(2) show ?thesis by blast
qed

lemma output_keys:
  assumes "replace_references ctx eob prov cp (JObj g) = JObj f" and "has_key k f"
  shows "has_key k g \<or> (eob \<and> k = ''provider'') \<or> (prov \<and> k = ''who'')"
proof -
  from assms(1) obtain g1 where step: "reference_step ctx g = Some g1"
    and out: "f = concat (map (loop_item ctx g (inject_fields ctx eob prov cp g1))
                         (inject_fields ctx eob prov cp g1))"
    by (rule rewrite_dict_cases)
  from assms(2) obtain w where "map_of f k = Some w"
    by (auto simp: has_key_map_of)
  then obtain v where v: "(k, v) \<in> set (inject_fields ctx eob prov cp g1)"
    unfolding out
    using map_of_concat_mapD[where f = "loop_item ctx g (inject_fields ctx eob prov cp g1)",
        OF loop_item_keys] by blast
  then have "(k, v) \<in> set g1 \<or> k = ''provider'' \<or> k = ''who''"
    using inject_fields_other by blast
  moreover have "\<not> eob \<Longrightarrow> k = ''provider'' \<Longrightarrow> (k, v) \<in> set g1"
    using v by (auto simp: inject_fields_def add_provider_def add_who_def
        clean_careplan_care_team_def split: if_splits dest: set_mp[OF set_dict_set])
  moreover have "\<not> prov \<Longrightarrow> k = ''who'' \<Longrightarrow> (k, v) \<in> set g1"
    using v by (auto simp: inject_fields_def add_provider_def add_who_def
        clean_careplan_care_team_def split: if_splits dest: set_mp[OF set_dict_set])
  ultimately have "(k, v) \<in> set g1 \<or> (eob \<and> k = ''provider'') \<or> (prov \<and> k = ''who'')"
    by blast
  moreover have "(k, v) \<in> set g1 \<Longrightarrow> has_key k g"
    using has_key_reference_step[OF step, of k] by (force simp: has_key_def)
  ultimately show ?thesis by blast
qed

lemma loop_item_result:
  assumes "(k, w) \<in> set (loop_item ctx obj obj2 (k, v))"
  shows "w \<noteq> JNull \<and>
         w = replace_references ctx
               (k = ''careTeam'' \<and> is_list v \<and> has_resource_type ''ExplanationOfBenefit'' obj2)
               (k = ''agent'' \<and> is_list v \<and> has_resource_type ''Provenance'' obj2)
               (k = ''careTeam'' \<and> is_list v \<and> has_resource_type ''CarePlan'' obj)
               (strip_dosage (has_resource_type ''MedicationRequest'' obj) k v)"
  using assms by (auto simp: loop_item_def Let_def split: if_splits)

subsection \<open>\<^verbatim>\<open>CarePlan.careTeam\<close>\<close>

lemma careplan_element:
  assumes "has_key ''reference'' g"
  shows "replace_references ctx eob False True (JObj g) = JNull \<or>
         (\<exists>f. replace_references ctx eob False True (JObj g) = JObj f \<and>
              set (map fst f) \<subseteq> {''reference'', ''display''})"
proof (cases "reference_step ctx g")
  case None
  then show ?thesis by (simp add: replace_references_dict)
next
  case (Some g1)
  let ?obj2 = "inject_fields ctx eob False True g1"
  have "has_key ''reference'' g1" using assms has_key_reference_step[OF Some] by simp
  then have "has_key ''reference'' (add_provider ctx eob g1)"
    by (simp add: add_provider_def has_key_dict_set)
  then have obj2: "?obj2 = filter (\<lambda>(k, v). k \<in> {''reference'', ''display''})
                             (add_provider ctx eob g1)"
    by (simp add: inject_fields_def add_who_def clean_careplan_care_team_def)
  have keys2: "fst ` set ?obj2 \<subseteq> {''reference'', ''display''}"
    unfolding obj2 by auto
  have "fst ` set (concat (map (loop_item ctx g ?obj2) ?obj2)) \<subseteq> {''reference'', ''display''}"
  proof
    fix k assume "k \<in> fst ` set (concat (map (loop_item ctx g ?obj2) ?obj2))"
    then obtain w a where a: "a \<in> set ?obj2" "(k, w) \<in> set (loop_item ctx g ?obj2 a)" by auto
    obtain k' v' where kv: "a = (k', v')" by (cases a)
    with a loop_item_keys[of ctx g ?obj2 k' v'] have "k' = k" by force
    with a(1) kv have "k \<in> fst ` set ?obj2" by force
    then show "k \<in> {''reference'', ''display''}" using keys2 by blast
  qed
  then show ?thesis using Some by (simp add: replace_references_dict)
qed

lemma reference_step_without_reference:
  "\<not> has_key ''reference'' g \<Longrightarrow> reference_step ctx g = Some g"
  by (simp add: reference_step_def has_key_map_of)

lemma careplan_flag_without_reference:
  assumes "\<not> has_key ''reference'' g"
  shows "replace_references ctx eob prov True (JObj g)
           = replace_references ctx eob prov False (JObj g)"
proof -
  have "\<not> has_key ''reference'' (add_provider ctx eob g)"
    using assms by (simp add: add_provider_def has_key_dict_set)
  then have "inject_fields ctx eob prov True g = inject_fields ctx eob prov False g"
    by (simp add: inject_fields_def clean_careplan_care_team_def)
  then show ?thesis
    by (simp add: replace_references_dict reference_step_without_reference[OF assms])
qed

lemma string_fields_kept:
  assumes "\<not> has_key ''reference'' g"
  shows "\<exists>f. replace_references ctx False False cp (JObj g) = JObj f \<and>
           (\<forall>k s. map_of g k = Some (JStr s) \<and> k \<noteq> ''period'' \<and>
                  k \<noteq> ''valueCodeableConcept'' \<longrightarrow> map_of f k = Some (JStr s))"
proof -
  have inj: "inject_fields ctx False False cp g = g"
    using assms by (simp add: inject_fields_def add_provider_def add_who_def
        clean_careplan_care_team_def)
  let ?f = "concat (map (loop_item ctx g g) g)"
  have r: "replace_references ctx False False cp (JObj g) = JObj ?f"
    by (simp add: replace_references_dict reference_step_without_reference[OF assms] inj)
  have "map_of ?f k = Some (JStr s)"
    if "map_of g k = Some (JStr s) \<and> k \<noteq> ''period'' \<and> k \<noteq> ''valueCodeableConcept''" for k s
  proof -
    from that have m: "map_of g k = Some (JStr s)" and k: "k \<noteq> ''period''"
      "k \<noteq> ''valueCodeableConcept''" by auto
    show ?thesis
      by (rule map_of_concat_map[where f = "loop_item ctx g g", OF loop_item_keys m])
        (simp add: loop_item_string[OF k])
  qed
  with r show ?thesis by blast
qed

text \<open>
  Claim C3, as amended. Let a \<^verbatim>\<open>CarePlan\<close> object be rewritten to an object whose \<^verbatim>\<open>careTeam\<close>
  field is a list \<open>ys\<close>. Then \<open>ys\<close> is what is left of a \<^verbatim>\<open>careTeam\<close> list \<open>xs\<close> of the input after
  each element has been rewritten with only the flag \<^verbatim>\<open>in_careplan_care_team\<close> set and the
  removed ones dropped. Every element of \<open>xs\<close> that is an object with a \<^verbatim>\<open>reference\<close> field is
  either removed or comes out with no field other than \<^verbatim>\<open>reference\<close> and \<^verbatim>\<open>display\<close>; and
  every object of \<open>ys\<close> that has a \<^verbatim>\<open>reference\<close> field has no field other than these two. An
  element without a \<^verbatim>\<open>reference\<close> field is not stripped: it is never removed, the flag
  \<^verbatim>\<open>in_careplan_care_team\<close> makes no difference to its result, and every field of it that
  holds a string comes out as it is (but for \<^verbatim>\<open>period\<close> and \<^verbatim>\<open>valueCodeableConcept\<close>, which the
  loop may drop in any object).
\<close>

theorem careplan_care_team_shape:
  assumes "has_resource_type ''CarePlan'' obj"
    and "replace_references ctx eob prov cp (JObj obj) = JObj obj'"
    and "map_of obj' ''careTeam'' = Some (JArr ys)"
  shows "\<exists>xs. (''careTeam'', JArr xs) \<in> set obj \<and>
           ys = filter (\<lambda>r. r \<noteq> JNull) (map (replace_references ctx False False True) xs) \<and>
           (\<forall>x\<in>set xs. \<forall>g. x = JObj g \<and> has_key ''reference'' g \<longrightarrow>
              replace_references ctx False False True x = JNull \<or>
              (\<exists>f. replace_references ctx False False True x = JObj f \<and>
                   set (map fst f) \<subseteq> {''reference'', ''display''})) \<and>
           (\<forall>y\<in>set ys. \<forall>f. y = JObj f \<and> has_key ''reference'' f \<longrightarrow>
              set (map fst f) \<subseteq> {''reference'', ''display''}) \<and>
           (\<forall>x\<in>set xs. \<forall>g. x = JObj g \<and> \<not> has_key ''reference'' g \<longrightarrow>
              replace_references ctx False False True x
                = replace_references ctx False False False x \<and>
              (\<exists>f. replace_references ctx False False True x = JObj f \<and>
                   (\<forall>k s. map_of g k = Some (JStr s) \<and> k \<noteq> ''period'' \<and>
                          k \<noteq> ''valueCodeableConcept'' \<longrightarrow> map_of f k = Some (JStr s))))"
proof -
  from output_field[OF assms(2,3)]
  obtain obj1 v where step: "reference_step ctx obj = Some obj1"
    and v: "(''careTeam'', v) \<in> set obj"
    and w: "(''careTeam'', JArr ys) \<in>
            set (loop_item ctx obj (inject_fields ctx eob prov cp obj1) (''careTeam'', v))"
    by auto
  let ?obj2 = "inject_fields ctx eob prov cp obj1"
  have not_eob: "\<not> has_resource_type ''ExplanationOfBenefit'' ?obj2"
  proof
    assume "has_resource_type ''ExplanationOfBenefit'' ?obj2"
    then have "has_resource_type ''ExplanationOfBenefit'' obj1"
      by (rule inject_fields_resource_type)
    then have "has_resource_type ''ExplanationOfBenefit'' obj"
      using map_of_reference_step[OF step, of "''resourceType''"]
      by (simp add: has_resource_type_def)
    with assms(1) show False by (simp add: has_resource_type_def)
  qed
  from loop_item_result[OF w] not_eob assms(1)
  have r: "JArr ys = replace_references ctx False False (is_list v) v"
    by (simp add: strip_dosage_def)
  then obtain xs where xs: "v = JArr xs"
    "ys = filter (\<lambda>r. r \<noteq> JNull) (map (replace_references ctx False (False) (is_list v)) xs)"
    using rewrite_list_result[of ctx False False "is_list v" v ys] by auto
  then have ys: "ys = filter (\<lambda>r. r \<noteq> JNull) (map (replace_references ctx False False True) xs)"
    by (simp add: is_list_def)
  have inp: "\<forall>x\<in>set xs. \<forall>g. x = JObj g \<and> has_key ''reference'' g \<longrightarrow>
              replace_references ctx False False True x = JNull \<or>
              (\<exists>f. replace_references ctx False False True x = JObj f \<and>
                   set (map fst f) \<subseteq> {''reference'', ''display''})"
    using careplan_element by blast
  have outp: "\<forall>y\<in>set ys. \<forall>f. y = JObj f \<and> has_key ''reference'' f \<longrightarrow>
              set (map fst f) \<subseteq> {''reference'', ''display''}"
  proof (intro ballI allI impI)
    fix y f assume y: "y \<in> set ys" and f: "y = JObj f \<and> has_key ''reference'' f"
    from y ys obtain x where x: "x \<in> set xs" "y = replace_references ctx False False True x"
      by auto
    with f obtain g where g: "x = JObj g"
      using rewrite_dict_result[of ctx False False True x f] by auto
    have hk: "has_key ''reference'' g"
      using output_keys[of ctx False False True g f "''reference''"] x g f by auto
    have eq: "replace_references ctx False False True (JObj g) = JObj f"
      using x g f by simp
    from careplan_element[OF hk, of ctx False]
    obtain f' where "replace_references ctx False False True (JObj g) = JObj f'"
      "set (map fst f') \<subseteq> {''reference'', ''display''}"
      unfolding eq by blast
    then show "set (map fst f) \<subseteq> {''reference'', ''display''}"
      unfolding eq by simp
  qed
  have kept: "\<forall>x\<in>set xs. \<forall>g. x = JObj g \<and> \<not> has_key ''reference'' g \<longrightarrow>
              replace_references ctx False False True x
                = replace_references ctx False False False x \<and>
              (\<exists>f. replace_references ctx False False True x = JObj f \<and>
                   (\<forall>k s. map_of g k = Some (JStr s) \<and> k \<noteq> ''period'' \<and>
                          k \<noteq> ''valueCodeableConcept'' \<longrightarrow> map_of f k = Some (JStr s)))"
    using careplan_flag_without_reference[of _ ctx False False]
      string_fields_kept[of _ ctx True] by blast
  from v xs(1) ys inp outp kept show ?thesis by blast
qed

subsection \<open>\<^verbatim>\<open>MedicationRequest.dosageInstruction\<close>\<close>

lemma dosage_item_key:
  assumes "replace_references ctx False False False (strip_dosage_item x) = JObj f"
  shows "\<not> has_key ''additionalInstruction'' f"
proof
  assume k: "has_key ''additionalInstruction'' f"
  from assms obtain g where g: "strip_dosage_item x = JObj g"
    using rewrite_dict_result by blast
  then have "\<not> has_key ''additionalInstruction'' g"
    by (cases x) (auto simp: strip_dosage_item_def dict_del_def has_key_def)
  moreover have "has_key ''additionalInstruction'' g"
    using output_keys[of ctx False False False g f "''additionalInstruction''"] assms g k
    by simp
  ultimately show False by simp
qed

text \<open>
  Claim C2, as amended. Let a \<^verbatim>\<open>MedicationRequest\<close> object be rewritten to an object whose
  \<^verbatim>\<open>dosageInstruction\<close> field is a list \<open>ys\<close>. Then the input has a \<^verbatim>\<open>dosageInstruction\<close> list \<open>xs\<close>,
  and \<open>ys\<close> is obtained from it in two steps: the field \<^verbatim>\<open>additionalInstruction\<close> is deleted
  from every element that is an object (the element's own field only: \<^const>\<open>strip_dosage_item\<close>
  does not descend), and then the list is rewritten like the value of any other field,
  all flags off, which does descend into the elements. No object of \<open>ys\<close> has a field
  \<^verbatim>\<open>additionalInstruction\<close>.
\<close>

theorem dosage_additional_instruction_removed:
  assumes "has_resource_type ''MedicationRequest'' obj"
    and "replace_references ctx eob prov cp (JObj obj) = JObj obj'"
    and "map_of obj' ''dosageInstruction'' = Some (JArr ys)"
  shows "\<exists>xs. (''dosageInstruction'', JArr xs) \<in> set obj \<and>
           ys = filter (\<lambda>r. r \<noteq> JNull)
                  (map (\<lambda>x. replace_references ctx False False False (strip_dosage_item x)) xs) \<and>
           (\<forall>y\<in>set ys. \<forall>f. y = JObj f \<longrightarrow> \<not> has_key ''additionalInstruction'' f)"
proof -
  from output_field[OF assms(2,3)]
  obtain obj1 v where step: "reference_step ctx obj = Some obj1"
    and v: "(''dosageInstruction'', v) \<in> set obj"
    and w: "(''dosageInstruction'', JArr ys) \<in>
            set (loop_item ctx obj (inject_fields ctx eob prov cp obj1) (''dosageInstruction'', v))"
    by auto
  from loop_item_result[OF w] assms(1)
  have r: "JArr ys = replace_references ctx False False False
                       (strip_dosage True ''dosageInstruction'' v)"
    by simp
  then obtain zs where zs: "strip_dosage True ''dosageInstruction'' v = JArr zs"
    "ys = filter (\<lambda>r. r \<noteq> JNull) (map (replace_references ctx False False False) zs)"
    using rewrite_list_result[of ctx False False False _ ys] by metis
  from zs(1) obtain xs where xs: "v = JArr xs" "zs = map strip_dosage_item xs"
    by (cases v) (auto simp: strip_dosage_def is_list_def)
  have ys: "ys = filter (\<lambda>r. r \<noteq> JNull)
                  (map (\<lambda>x. replace_references ctx False False False (strip_dosage_item x)) xs)"
    using zs(2) xs(2) by (simp add: comp_def)
  have outp: "\<forall>y\<in>set ys. \<forall>f. y = JObj f \<longrightarrow> \<not> has_key ''additionalInstruction'' f"
    using ys dosage_item_key by auto
  from v xs(1) ys outp show ?thesis by blast
qed

text \<open>A \<^verbatim>\<open>CarePlan\<close> whose first \<^verbatim>\<open>careTeam\<close> element has no \<^verbatim>\<open>reference\<close> field: it keeps its
  \<^verbatim>\<open>role\<close> field, against the claim as first stated. The second element is stripped of its
  \<^verbatim>\<open>type\<close> field, the third is removed.\<close>

definition careplan_obj :: jdict where
  "careplan_obj =
     [(''resourceType'', JStr ''CarePlan''),
      (''careTeam'',
         JArr [JObj [(''display'', JStr ''Dr A''), (''role'', JStr ''lead'')],
               JObj [(''reference'', JStr ''urn:uuid:6c0b7f20-5c92-efd9-779b-c9ac40656b44''),
                     (''display'', JStr ''Team''),
                     (''type'', JStr ''CareTeam'')],
               JObj [(''reference'', JStr ''#team-1''), (''display'', JStr ''Local'')]])]"

definition careplan_out :: jdict where
  "careplan_out =
     [(''resourceType'', JStr ''CarePlan''),
      (''careTeam'',
         JArr [JObj [(''display'', JStr ''Dr A''), (''role'', JStr ''lead'')],
               JObj [(''reference'', JStr ''Patient/6c0b7f20-5c92-efd9-779b-c9ac40656b44''),
                     (''display'', JStr ''Team'')]])]"

theorem careplan_care_team_counterexample:
  "has_resource_type ''CarePlan'' careplan_obj
   \<and> replace_references example_ctx False False False (JObj careplan_obj) = JObj careplan_out
   \<and> map_of careplan_out ''careTeam''
       = Some (JArr [JObj [(''display'', JStr ''Dr A''), (''role'', JStr ''lead'')],
                     JObj [(''reference'', JStr ''Patient/6c0b7f20-5c92-efd9-779b-c9ac40656b44''),
                           (''display'', JStr ''Team'')]])
   \<and> \<not> set (map fst [(''display'', JStr ''Dr A''), (''role'', JStr ''lead'')])
         \<subseteq> {''reference'', ''display''}"
  by code_simp

theorem careplan_care_team_witness:
  "replace_references example_ctx False False False (JObj careplan_obj) = JObj careplan_out
   \<and> set (map fst [(''reference'', JStr ''Patient/6c0b7f20-5c92-efd9-779b-c9ac40656b44''),
                     (''display'', JStr ''Team'')]) \<subseteq> {''reference'', ''display''}
   \<and> replace_references example_ctx False False True
         (JObj [(''display'', JStr ''Dr A''), (''role'', JStr ''lead'')])
       = replace_references example_ctx False False False
           (JObj [(''display'', JStr ''Dr A''), (''role'', JStr ''lead'')])"
proof -
  let ?g = "[(''display'', JStr ''Dr A''), (''role'', JStr ''lead'')]"
  let ?f = "[(''reference'', JStr ''Patient/6c0b7f20-5c92-efd9-779b-c9ac40656b44''),
             (''display'', JStr ''Team'')]"
  let ?ys = "[JObj ?g, JObj ?f]"
  have h: "has_resource_type ''CarePlan'' careplan_obj"
    "replace_references example_ctx False False False (JObj careplan_obj) = JObj careplan_out"
    "map_of careplan_out ''careTeam'' = Some (JArr ?ys)"
    by code_simp+
  have k: "has_key ''reference'' ?f" "\<not> has_key ''reference'' ?g" by code_simp+
  from careplan_care_team_shape[OF h] obtain xs where
    all: "(''careTeam'', JArr xs) \<in> set careplan_obj \<and>
           ?ys = filter (\<lambda>r. r \<noteq> JNull) (map (replace_references example_ctx False False True) xs) \<and>
           (\<forall>x\<in>set xs. \<forall>g. x = JObj g \<and> has_key ''reference'' g \<longrightarrow>
              replace_references example_ctx False False True x = JNull \<or>
              (\<exists>f. replace_references example_ctx False False True x = JObj f \<and>
                   set (map fst f) \<subseteq> {''reference'', ''display''})) \<and>
           (\<forall>y\<in>set ?ys. \<forall>f. y = JObj f \<and> has_key ''reference'' f \<longrightarrow>
              set (map fst f) \<subseteq> {''reference'', ''display''}) \<and>
           (\<forall>x\<in>set xs. \<forall>g. x = JObj g \<and> \<not> has_key ''reference'' g \<longrightarrow>
              replace_references example_ctx False False True x
                = replace_references example_ctx False False False x \<and>
              (\<exists>f. replace_references example_ctx False False True x = JObj f \<and>
                   (\<forall>k s. map_of g k = Some (JStr s) \<and> k \<noteq> ''period'' \<and>
                          k \<noteq> ''valueCodeableConcept'' \<longrightarrow> map_of f k = Some (JStr s))))"
    by (rule exE)
  note xs = all[THEN conjunct1]
    and outp = all[THEN conjunct2, THEN conjunct2, THEN conjunct2, THEN conjunct1]
    and kept = all[THEN conjunct2, THEN conjunct2, THEN conjunct2, THEN conjunct2]
  have m: "JObj ?f \<in> set ?ys" by simp
  from outp[THEN bspec, OF m, THEN spec, of ?f] k(1)
  have 1: "set (map fst ?f) \<subseteq> {''reference'', ''display''}" by blast
  from xs have "xs = [JObj ?g,
        JObj [(''reference'', JStr ''urn:uuid:6c0b7f20-5c92-efd9-779b-c9ac40656b44''),
              (''display'', JStr ''Team''),
              (''type'', JStr ''CareTeam'')],
        JObj [(''reference'', JStr ''#team-1''), (''display'', JStr ''Local'')]]"
    by (simp add: careplan_obj_def)
  then have n: "JObj ?g \<in> set xs" by simp
  from kept[THEN bspec, OF n, THEN spec, of ?g] k(2)
  have 2: "replace_references example_ctx False False True (JObj ?g)
       = replace_references example_ctx False False False (JObj ?g)" by blast
  from h(2) 1 2 show ?thesis by (intro conjI)
qed

text \<open>A \<^verbatim>\<open>MedicationRequest\<close> whose dosage item has a \<^verbatim>\<open>period\<close> under \<^verbatim>\<open>timing.repeat\<close> and an
  \<^verbatim>\<open>additionalInstruction\<close> field one level down, under \<^verbatim>\<open>route\<close>. The rewrite deletes the
  item's own \<^verbatim>\<open>additionalInstruction\<close>, leaves the nested one, and, descending into the item
  afterwards, deletes the \<^verbatim>\<open>period\<close>: the claim as first stated, that nothing is done inside
  the items beyond the removal, fails.\<close>

definition medication_obj :: jdict where
  "medication_obj =
     [(''resourceType'', JStr ''MedicationRequest''),
      (''dosageInstruction'',
         JArr [JObj [(''sequence'', JNum 1),
                     (''additionalInstruction'', JArr [JObj [(''text'', JStr ''with food'')]]),
                     (''timing'', JObj [(''repeat'', JObj [(''frequency'', JNum 2), (''period'', JNum 1)])]),
                     (''route'', JObj [(''additionalInstruction'', JStr ''nested'')])],
               JStr ''free text''])]"

definition medication_out :: jdict where
  "medication_out =
     [(''resourceType'', JStr ''MedicationRequest''),
      (''dosageInstruction'',
         JArr [JObj [(''sequence'', JNum 1),
                     (''timing'', JObj [(''repeat'', JObj [(''frequency'', JNum 2)])]),
                     (''route'', JObj [(''additionalInstruction'', JStr ''nested'')])],
               JStr ''free text''])]"

text \<open>What the claim as first stated describes: the items with their own
  \<^verbatim>\<open>additionalInstruction\<close> field deleted and nothing else done to them.\<close>

definition medication_removal_only :: jdict where
  "medication_removal_only =
     [(''resourceType'', JStr ''MedicationRequest''),
      (''dosageInstruction'',
         JArr [JObj [(''sequence'', JNum 1),
                     (''timing'', JObj [(''repeat'', JObj [(''frequency'', JNum 2), (''period'', JNum 1)])]),
                     (''route'', JObj [(''additionalInstruction'', JStr ''nested'')])],
               JStr ''free text''])]"

theorem dosage_counterexample:
  "has_resource_type ''MedicationRequest'' medication_obj
   \<and> replace_references example_ctx False False False (JObj medication_obj) = JObj medication_out
   \<and> medication_removal_only
       = [(''resourceType'', JStr ''MedicationRequest''),
          (''dosageInstruction'',
             strip_dosage True ''dosageInstruction''
               (JArr [JObj [(''sequence'', JNum 1),
                     (''additionalInstruction'', JArr [JObj [(''text'', JStr ''with food'')]]),
                     (''timing'', JObj [(''repeat'', JObj [(''frequency'', JNum 2), (''period'', JNum 1)])]),
                     (''route'', JObj [(''additionalInstruction'', JStr ''nested'')])],
               JStr ''free text'']))]
   \<and> replace_references example_ctx False False False (JObj medication_obj)
       \<noteq> JObj medication_removal_only"
  by code_simp

theorem dosage_witness:
  "replace_references example_ctx False False False (JObj medication_obj) = JObj medication_out
   \<and> \<not> has_key ''additionalInstruction''
         [(''sequence'', JNum 1),
          (''timing'', JObj [(''repeat'', JObj [(''frequency'', JNum 2)])]),
          (''route'', JObj [(''additionalInstruction'', JStr ''nested'')])]"
proof -
  let ?f = "[(''sequence'', JNum 1),
          (''timing'', JObj [(''repeat'', JObj [(''frequency'', JNum 2)])]),
          (''route'', JObj [(''additionalInstruction'', JStr ''nested'')])]"
  let ?ys = "[JObj ?f, JStr ''free text'']"
  have h: "has_resource_type ''MedicationRequest'' medication_obj"
    "replace_references example_ctx False False False (JObj medication_obj) = JObj medication_out"
    "map_of medication_out ''dosageInstruction'' = Some (JArr ?ys)"
    by code_simp+
  from dosage_additional_instruction_removed[OF h]
  have "\<forall>y\<in>set ?ys. \<forall>f. y = JObj f \<longrightarrow> \<not> has_key ''additionalInstruction'' f"
    by blast
  then have "\<not> has_key ''additionalInstruction'' ?f" by simp
  with h(2) show ?thesis by (intro conjI)
qed

section \<open>The coverage injector\<close>

text \<open>
  \<^verbatim>\<open>add_coverage_resources\<close> reads the entries with \<^verbatim>\<open>.get\<close>, which only a dict has: an entry or a
  resource of another kind raises \<^verbatim>\<open>AttributeError\<close>, and a value that cannot be iterated
  raises \<^verbatim>\<open>TypeError\<close>. The exceptions are results of the model.
\<close>

datatype py_error = AttributeError | TypeError

text \<open>\<^verbatim>\<open>for x in v\<close>: a list gives its elements, a dict its keys, a string its characters.\<close>

fun py_iter :: "json \<Rightarrow> py_error + json list" where
  "py_iter (JArr xs) = Inr xs"
| "py_iter (JObj d) = Inr (map (\<lambda>(k, v). JStr k) d)"
| "py_iter (JStr s) = Inr (map (\<lambda>c. JStr [c]) s)"
| "py_iter v = Inl TypeError"

text \<open>\<^verbatim>\<open>d.get(k, dflt)\<close>; \<^verbatim>\<open>d.get(k)\<close> is \<open>get_or d k JNull\<close>.\<close>

definition get_or :: "jdict \<Rightarrow> string \<Rightarrow> json \<Rightarrow> json" where
  "get_or d k dflt = (case map_of d k of Some v \<Rightarrow> v | None \<Rightarrow> dflt)"

text \<open>What an f-string makes of a value: a string is itself. Python's \<^verbatim>\<open>str\<close> of a value
  that is not a string is a parameter of the model.\<close>

definition py_str :: "(json \<Rightarrow> string) \<Rightarrow> json \<Rightarrow> string" where
  "py_str fmt v = (case v of JStr s \<Rightarrow> s | _ \<Rightarrow> fmt v)"

text \<open>The first loop: the \<^verbatim>\<open>id\<close> of the first entry whose resource is a \<^verbatim>\<open>Patient\<close>, with the
  \<^verbatim>\<open>break\<close>; \<^const>\<open>JNull\<close> when the loop ends without one, or when that resource has no \<^verbatim>\<open>id\<close>.\<close>

fun find_patient_id :: "json list \<Rightarrow> py_error + json" where
  "find_patient_id [] = Inr JNull"
| "find_patient_id (entry # es) =
     (case entry of
        JObj e \<Rightarrow>
          (case get_or e ''resource'' (JObj []) of
             JObj resource \<Rightarrow>
               if get_or resource ''resourceType'' JNull = JStr ''Patient''
               then Inr (get_or resource ''id'' JNull)
               else find_patient_id es
           | _ \<Rightarrow> Inl AttributeError)
      | _ \<Rightarrow> Inl AttributeError)"

definition coverage_entry :: "string \<Rightarrow> string \<Rightarrow> string \<Rightarrow> json" where
  "coverage_entry coverage_id patient org_id =
     JObj [(''fullUrl'', JStr (''urn:uuid:'' @ coverage_id)),
           (''resource'',
              JObj [(''resourceType'', JStr ''Coverage''),
                    (''id'', JStr coverage_id),
                    (''status'', JStr ''active''),
                    (''beneficiary'', JObj [(''reference'', JStr (''Patient/'' @ patient))]),
                    (''payor'',
                       JArr [JObj [(''reference'', JStr (''Organization/'' @ org_id))]])]),
           (''request'', JObj [(''method'', JStr ''POST''), (''url'', JStr ''Coverage'')])]"

definition insurance_for :: "string \<Rightarrow> json" where
  "insurance_for coverage_id =
     JArr [JObj [(''focal'', JBool True),
                 (''coverage'', JObj [(''reference'', JStr (''Coverage/'' @ coverage_id))])]]"

text \<open>
  One round of the second loop. The state is the list \<^verbatim>\<open>new_entries\<close> and the number of calls
  of \<^verbatim>\<open>uuid.uuid4\<close> made so far; \<open>uuid4 n\<close> is the string of the UUID that call number \<open>n\<close>
  returns (the random source is a parameter). The variable \<^verbatim>\<open>coverage_counter\<close> of the source is
  one more than the number of calls and is never read. The assignment to
  \<^verbatim>\<open>resource["insurance"]\<close> changes the resource inside the entry, which is the object appended.
\<close>

fun coverage_step ::
  "(nat \<Rightarrow> string) \<Rightarrow> string \<Rightarrow> string \<Rightarrow> json \<Rightarrow> json list \<times> nat
     \<Rightarrow> py_error + json list \<times> nat" where
  "coverage_step uuid4 patient org_id entry (new_entries, calls) =
     (case entry of
        JObj e \<Rightarrow>
          (case get_or e ''resource'' (JObj []) of
             JObj resource \<Rightarrow>
               if get_or resource ''resourceType'' JNull = JStr ''ExplanationOfBenefit''
               then (let coverage_id = uuid4 calls;
                         resource' = dict_set ''insurance'' (insurance_for coverage_id) resource;
                         entry' = JObj (dict_set ''resource'' (JObj resource') e)
                     in Inr (new_entries @
                               [coverage_entry coverage_id patient org_id, entry'],
                             Suc calls))
               else Inr (new_entries @ [entry], calls)
           | _ \<Rightarrow> Inl AttributeError)
      | _ \<Rightarrow> Inl AttributeError)"

fun coverage_loop ::
  "(nat \<Rightarrow> string) \<Rightarrow> string \<Rightarrow> string \<Rightarrow> json list \<Rightarrow> json list \<times> nat
     \<Rightarrow> py_error + json list \<times> nat" where
  "coverage_loop uuid4 patient org_id [] st = Inr st"
| "coverage_loop uuid4 patient org_id (entry # es) st =
     (case coverage_step uuid4 patient org_id entry st of
        Inl err \<Rightarrow> Inl err
      | Inr st' \<Rightarrow> coverage_loop uuid4 patient org_id es st')"

definition add_coverage_resources ::
  "(json \<Rightarrow> string) \<Rightarrow> (nat \<Rightarrow> string) \<Rightarrow> json \<Rightarrow> string \<Rightarrow> py_error + json" where
  "add_coverage_resources fmt uuid4 data org_id =
     (case data of
        JObj d \<Rightarrow>
          if get_or d ''resourceType'' JNull \<noteq> JStr ''Bundle'' \<or> \<not> has_key ''entry'' d
          then Inr data
          else (case py_iter (get_or d ''entry'' JNull) of
                  Inl err \<Rightarrow> Inl err
                | Inr entries \<Rightarrow>
                    (case find_patient_id entries of
                       Inl err \<Rightarrow> Inl err
                     | Inr patient_id \<Rightarrow>
                         if \<not> truthy patient_id then Inr data
                         else (case coverage_loop uuid4 (py_str fmt patient_id)
                                      org_id entries ([], 0) of
                                 Inl err \<Rightarrow> Inl err
                               | Inr (new_entries, calls) \<Rightarrow>
                                   Inr (JObj (dict_set ''entry'' (JArr new_entries) d)))))
      | _ \<Rightarrow> Inl AttributeError)"


subsection \<open>What the second loop builds\<close>

text \<open>The resource type of an entry as the loops read it, an entry that the loops can read
  without an exception, and the number of claims among some entries.\<close>

definition resource_type_of :: "json \<Rightarrow> json" where
  "resource_type_of entry =
     (case entry of
        JObj e \<Rightarrow>
          (case get_or e ''resource'' (JObj []) of
             JObj resource \<Rightarrow> get_or resource ''resourceType'' JNull
           | _ \<Rightarrow> JNull)
      | _ \<Rightarrow> JNull)"

definition entry_ok :: "json \<Rightarrow> bool" where
  "entry_ok entry =
     (case entry of
        JObj e \<Rightarrow> is_dict (get_or e ''resource'' (JObj []))
      | _ \<Rightarrow> False)"

definition eob_count :: "json list \<Rightarrow> nat" where
  "eob_count es = length (filter (\<lambda>e. resource_type_of e = JStr ''ExplanationOfBenefit'') es)"

definition with_insurance :: "string \<Rightarrow> json \<Rightarrow> json" where
  "with_insurance coverage_id entry =
     (case entry of
        JObj e \<Rightarrow>
          (case get_or e ''resource'' (JObj []) of
             JObj resource \<Rightarrow>
               JObj (dict_set ''resource''
                       (JObj (dict_set ''insurance'' (insurance_for coverage_id) resource)) e)
           | _ \<Rightarrow> entry)
      | _ \<Rightarrow> entry)"

fun expand :: "(nat \<Rightarrow> string) \<Rightarrow> string \<Rightarrow> string \<Rightarrow> nat \<Rightarrow> json list \<Rightarrow> json list" where
  "expand uuid4 patient org_id n [] = []"
| "expand uuid4 patient org_id n (e # es) =
     (if resource_type_of e = JStr ''ExplanationOfBenefit''
      then coverage_entry (uuid4 n) patient org_id # with_insurance (uuid4 n) e
             # expand uuid4 patient org_id (Suc n) es
      else e # expand uuid4 patient org_id n es)"

lemma coverage_step_ok:
  assumes "entry_ok e"
  shows "coverage_step uuid4 p org e (acc, n) =
     Inr (acc @ expand uuid4 p org n [e], n + eob_count [e])"
proof -
  from assms obtain ed where e: "e = JObj ed" by (cases e) (auto simp: entry_ok_def)
  with assms obtain res where r: "get_or ed ''resource'' (JObj []) = JObj res"
    by (cases "get_or ed ''resource'' (JObj [])") (auto simp: entry_ok_def is_dict_def)
  show ?thesis
    by (simp add: e r resource_type_of_def with_insurance_def eob_count_def Let_def)
qed

lemma expand_append_one:
  "expand uuid4 p org n (e # es) = expand uuid4 p org n [e] @ expand uuid4 p org (n + eob_count [e]) es"
  by (simp add: eob_count_def)

lemma coverage_loop_ok:
  assumes "\<forall>e\<in>set es. entry_ok e"
  shows "coverage_loop uuid4 p org es (acc, n) =
     Inr (acc @ expand uuid4 p org n es, n + eob_count es)"
  using assms
proof (induction es arbitrary: acc n)
  case Nil
  then show ?case by (simp add: eob_count_def)
next
  case (Cons e es)
  then have ok: "entry_ok e" and rest: "\<forall>e\<in>set es. entry_ok e" by auto
  have c: "eob_count (e # es) = eob_count [e] + eob_count es" by (simp add: eob_count_def)
  show ?case
    by (simp only: coverage_loop.simps coverage_step_ok[OF ok] sum.case Cons.IH[OF rest]
        expand_append_one[of uuid4 p org n e es] c append_assoc add.assoc)
qed

lemma length_expand:
  "length (expand uuid4 p org n es) = length es + eob_count es"
  by (induction es arbitrary: n) (auto simp: eob_count_def)

lemma nth_expand:
  assumes "i < length es"
  shows "(resource_type_of (es ! i) = JStr ''ExplanationOfBenefit'' \<longrightarrow>
            expand uuid4 p org n es ! (i + eob_count (take i es))
              = coverage_entry (uuid4 (n + eob_count (take i es))) p org \<and>
            expand uuid4 p org n es ! (i + eob_count (take i es) + 1)
              = with_insurance (uuid4 (n + eob_count (take i es))) (es ! i))
       \<and> (resource_type_of (es ! i) \<noteq> JStr ''ExplanationOfBenefit'' \<longrightarrow>
            expand uuid4 p org n es ! (i + eob_count (take i es)) = es ! i)"
  using assms
proof (induction es arbitrary: n i)
  case Nil
  then show ?case by simp
next
  case (Cons e es)
  show ?case
  proof (cases i)
    case 0
    then show ?thesis by (simp add: eob_count_def)
  next
    case (Suc j)
    with Cons.prems have j: "j < length es" by simp
    show ?thesis
    proof (cases "resource_type_of e = JStr ''ExplanationOfBenefit''")
      case True
      then have k: "eob_count (e # xs) = Suc (eob_count xs)" for xs
        by (simp add: eob_count_def)
      show ?thesis
        using Cons.IH[OF j, of "Suc n"] True Suc
        by (simp add: k)
    next
      case False
      then have k: "eob_count (e # xs) = eob_count xs" for xs
        by (simp add: eob_count_def)
      show ?thesis
        using Cons.IH[OF j, of n] False Suc
        by (simp add: k)
    qed
  qed
qed

lemma find_patient_first:
  assumes "\<forall>e\<in>set pre. entry_ok e \<and> resource_type_of e \<noteq> JStr ''Patient''"
    and "map_of p ''resource'' = Some (JObj res)"
    and "get_or res ''resourceType'' JNull = JStr ''Patient''"
  shows "find_patient_id (pre @ JObj p # post) = Inr (get_or res ''id'' JNull)"
  using assms(1)
proof (induction pre)
  case Nil
  then show ?case using assms(2,3) by (simp add: get_or_def)
next
  case (Cons e pre)
  then have ok: "entry_ok e" and np: "resource_type_of e \<noteq> JStr ''Patient''" by auto
  from ok obtain ed where e: "e = JObj ed" by (cases e) (auto simp: entry_ok_def)
  with ok obtain r where r: "get_or ed ''resource'' (JObj []) = JObj r"
    by (cases "get_or ed ''resource'' (JObj [])") (auto simp: entry_ok_def is_dict_def)
  from np have "get_or r ''resourceType'' JNull \<noteq> JStr ''Patient''"
    by (simp add: e r resource_type_of_def)
  then show ?case using Cons by (simp add: e r)
qed

lemma find_patient_none:
  assumes "\<forall>e\<in>set es. entry_ok e \<and> resource_type_of e \<noteq> JStr ''Patient''"
  shows "find_patient_id es = Inr JNull"
  using assms
proof (induction es)
  case Nil
  then show ?case by simp
next
  case (Cons e es)
  then have ok: "entry_ok e" and np: "resource_type_of e \<noteq> JStr ''Patient''" by auto
  from ok obtain ed where e: "e = JObj ed" by (cases e) (auto simp: entry_ok_def)
  with ok obtain r where r: "get_or ed ''resource'' (JObj []) = JObj r"
    by (cases "get_or ed ''resource'' (JObj [])") (auto simp: entry_ok_def is_dict_def)
  from np have "get_or r ''resourceType'' JNull \<noteq> JStr ''Patient''"
    by (simp add: e r resource_type_of_def)
  then show ?case using Cons by (simp add: e r)
qed

subsection \<open>Properties of the injector\<close>

lemma with_insurance_eob:
  assumes "resource_type_of e = JStr ''ExplanationOfBenefit''"
  shows "\<exists>ed r. e = JObj ed \<and> map_of ed ''resource'' = Some (JObj r) \<and>
           with_insurance u e =
             JObj (dict_set ''resource''
                     (JObj (dict_set ''insurance''
                        (JArr [JObj [(''focal'', JBool True),
                                     (''coverage'',
                                        JObj [(''reference'', JStr (''Coverage/'' @ u))])]]) r))
                     ed)"
proof -
  from assms obtain ed where e: "e = JObj ed"
    by (cases e) (auto simp: resource_type_of_def)
  from assms e obtain r where r: "get_or ed ''resource'' (JObj []) = JObj r"
    by (cases "get_or ed ''resource'' (JObj [])") (auto simp: resource_type_of_def)
  have "map_of ed ''resource'' = Some (JObj r)"
  proof (cases "map_of ed ''resource''")
    case None
    with r have "r = []" by (simp add: get_or_def)
    with assms e r show ?thesis by (simp add: resource_type_of_def get_or_def)
  next
    case (Some v)
    with r show ?thesis by (simp add: get_or_def)
  qed
  then show ?thesis
    using e r by (simp add: with_insurance_def insurance_for_def)
qed

lemma add_coverage_found:
  assumes isb: "get_or d ''resourceType'' JNull = JStr ''Bundle''"
    and entry: "map_of d ''entry'' = Some (JArr es)"
    and ok: "\<forall>e\<in>set es. entry_ok e"
    and pid: "find_patient_id es = Inr (JStr P)" "P \<noteq> []"
  shows "add_coverage_resources fmt uuid4 (JObj d) org =
           Inr (JObj (dict_set ''entry'' (JArr (expand uuid4 P org 0 es)) d))"
proof -
  have k: "has_key ''entry'' d" using entry by (simp add: has_key_map_of)
  have it: "py_iter (get_or d ''entry'' JNull) = Inr es" using entry by (simp add: get_or_def)
  show ?thesis
    by (simp add: add_coverage_resources_def isb k it pid py_str_def coverage_loop_ok[OF ok])
qed

lemma add_coverage_abort:
  assumes isb: "get_or d ''resourceType'' JNull = JStr ''Bundle''"
    and entry: "map_of d ''entry'' = Some (JArr es)"
    and pid: "find_patient_id es = Inr i" "\<not> truthy i"
  shows "add_coverage_resources fmt uuid4 (JObj d) org = Inr (JObj d)"
proof -
  have k: "has_key ''entry'' d" using entry by (simp add: has_key_map_of)
  have it: "py_iter (get_or d ''entry'' JNull) = Inr es" using entry by (simp add: get_or_def)
  show ?thesis
    by (simp add: add_coverage_resources_def isb k it pid)
qed

text \<open>
  Claim C7, as amended. Take a Bundle whose entries are objects with object resources.
  If no entry is a \<^verbatim>\<open>Patient\<close>, the document is returned as it is. If the first \<^verbatim>\<open>Patient\<close> entry
  has the non-empty string \<open>P\<close> as its \<^verbatim>\<open>id\<close>, the result is the document with a new entry list
  \<open>out\<close>, one entry longer for every \<^verbatim>\<open>ExplanationOfBenefit\<close> entry. Entry number \<open>i\<close> of the input,
  with \<open>k\<close> claims before it, is found at position \<open>i + k\<close> when it is not a claim (so the old
  entries keep their order). When it is a claim, position \<open>i + k\<close> holds the new \<^verbatim>\<open>Coverage\<close> entry
  built from the UUID \<open>u\<close> of call number \<open>k\<close> (\<open>u\<close> is its \<^verbatim>\<open>id\<close> and the UUID of its \<^verbatim>\<open>fullUrl\<close>,
  status \<^verbatim>\<open>active\<close>, beneficiary \<^verbatim>\<open>Patient/P\<close>, payor \<^verbatim>\<open>Organization/org\<close>, request \<^verbatim>\<open>POST\<close>), and
  position \<open>i + k + 1\<close> holds the claim with its \<^verbatim>\<open>insurance\<close> field set to the one focal
  coverage \<^verbatim>\<open>Coverage/u\<close>. That two calls of \<^verbatim>\<open>uuid4\<close> differ is a property of the random source
  and is not part of the statement.
\<close>

theorem coverage_inserted_before_each_claim:
  assumes isb: "get_or d ''resourceType'' JNull = JStr ''Bundle''"
    and entry: "map_of d ''entry'' = Some (JArr es)"
    and ok: "\<forall>e\<in>set es. entry_ok e"
  shows "((\<forall>e\<in>set es. resource_type_of e \<noteq> JStr ''Patient'') \<longrightarrow>
            add_coverage_resources fmt uuid4 (JObj d) org = Inr (JObj d))
       \<and> (\<forall>pre p post res P.
            es = pre @ JObj p # post \<and>
            (\<forall>e\<in>set pre. resource_type_of e \<noteq> JStr ''Patient'') \<and>
            map_of p ''resource'' = Some (JObj res) \<and>
            get_or res ''resourceType'' JNull = JStr ''Patient'' \<and>
            map_of res ''id'' = Some (JStr P) \<and> P \<noteq> [] \<longrightarrow>
            (\<exists>out.
               add_coverage_resources fmt uuid4 (JObj d) org
                 = Inr (JObj (dict_set ''entry'' (JArr out) d)) \<and>
               length out = length es + eob_count es \<and>
               (\<forall>i u. i < length es \<and> u = uuid4 (eob_count (take i es)) \<longrightarrow>
                  (resource_type_of (es ! i) \<noteq> JStr ''ExplanationOfBenefit'' \<longrightarrow>
                     out ! (i + eob_count (take i es)) = es ! i) \<and>
                  (resource_type_of (es ! i) = JStr ''ExplanationOfBenefit'' \<longrightarrow>
                     out ! (i + eob_count (take i es)) =
                       JObj [(''fullUrl'', JStr (''urn:uuid:'' @ u)),
                             (''resource'',
                                JObj [(''resourceType'', JStr ''Coverage''),
                                      (''id'', JStr u),
                                      (''status'', JStr ''active''),
                                      (''beneficiary'',
                                         JObj [(''reference'', JStr (''Patient/'' @ P))]),
                                      (''payor'',
                                         JArr [JObj [(''reference'',
                                                      JStr (''Organization/'' @ org))]])]),
                             (''request'',
                                JObj [(''method'', JStr ''POST''), (''url'', JStr ''Coverage'')])] \<and>
                     (\<exists>ed r. es ! i = JObj ed \<and> map_of ed ''resource'' = Some (JObj r) \<and>
                        out ! (i + eob_count (take i es) + 1) =
                          JObj (dict_set ''resource''
                                  (JObj (dict_set ''insurance''
                                     (JArr [JObj [(''focal'', JBool True),
                                                  (''coverage'',
                                                     JObj [(''reference'',
                                                            JStr (''Coverage/'' @ u))])]]) r))
                                  ed))))))"
proof (intro conjI allI impI)
  assume "\<forall>e\<in>set es. resource_type_of e \<noteq> JStr ''Patient''"
  with ok have "find_patient_id es = Inr JNull" by (simp add: find_patient_none)
  then show "add_coverage_resources fmt uuid4 (JObj d) org = Inr (JObj d)"
    using add_coverage_abort[OF isb entry] by simp
next
  fix pre p post res P
  assume a: "es = pre @ JObj p # post \<and>
            (\<forall>e\<in>set pre. resource_type_of e \<noteq> JStr ''Patient'') \<and>
            map_of p ''resource'' = Some (JObj res) \<and>
            get_or res ''resourceType'' JNull = JStr ''Patient'' \<and>
            map_of res ''id'' = Some (JStr P) \<and> P \<noteq> []"
  then have pre: "\<forall>e\<in>set pre. entry_ok e \<and> resource_type_of e \<noteq> JStr ''Patient''"
    using ok by auto
  have "find_patient_id (pre @ JObj p # post) = Inr (get_or res ''id'' JNull)"
    using find_patient_first[OF pre] a by blast
  then have pid: "find_patient_id es = Inr (JStr P)" using a by (simp add: get_or_def)
  let ?out = "expand uuid4 P org 0 es"
  have res: "add_coverage_resources fmt uuid4 (JObj d) org
                 = Inr (JObj (dict_set ''entry'' (JArr ?out) d))"
    using add_coverage_found[OF isb entry ok pid] a by blast
  have len: "length ?out = length es + eob_count es" by (rule length_expand)
  have pos: "(resource_type_of (es ! i) \<noteq> JStr ''ExplanationOfBenefit'' \<longrightarrow>
                     ?out ! (i + eob_count (take i es)) = es ! i) \<and>
                  (resource_type_of (es ! i) = JStr ''ExplanationOfBenefit'' \<longrightarrow>
                     ?out ! (i + eob_count (take i es)) =
                       JObj [(''fullUrl'', JStr (''urn:uuid:'' @ u)),
                             (''resource'',
                                JObj [(''resourceType'', JStr ''Coverage''),
                                      (''id'', JStr u),
                                      (''status'', JStr ''active''),
                                      (''beneficiary'',
                                         JObj [(''reference'', JStr (''Patient/'' @ P))]),
                                      (''payor'',
                                         JArr [JObj [(''reference'',
                                                      JStr (''Organization/'' @ org))]])]),
                             (''request'',
                                JObj [(''method'', JStr ''POST''), (''url'', JStr ''Coverage'')])] \<and>
                     (\<exists>ed r. es ! i = JObj ed \<and> map_of ed ''resource'' = Some (JObj r) \<and>
                        ?out ! (i + eob_count (take i es) + 1) =
                          JObj (dict_set ''resource''
                                  (JObj (dict_set ''insurance''
                                     (JArr [JObj [(''focal'', JBool True),
                                                  (''coverage'',
                                                     JObj [(''reference'',
                                                            JStr (''Coverage/'' @ u))])]]) r))
                                  ed)))"
    if "i < length es \<and> u = uuid4 (eob_count (take i es))" for i u
  proof -
    from that have i: "i < length es" and u: "u = uuid4 (eob_count (take i es))" by auto
    note n = nth_expand[OF i, of uuid4 P org 0, simplified, folded u]
    show ?thesis
    proof (cases "resource_type_of (es ! i) = JStr ''ExplanationOfBenefit''")
      case True
      from with_insurance_eob[OF True, of u] n True
      show ?thesis by (auto simp: coverage_entry_def)
    next
      case False
      with n show ?thesis by simp
    qed
  qed
  from res len pos
  show "\<exists>out.
               add_coverage_resources fmt uuid4 (JObj d) org
                 = Inr (JObj (dict_set ''entry'' (JArr out) d)) \<and>
               length out = length es + eob_count es \<and>
               (\<forall>i u. i < length es \<and> u = uuid4 (eob_count (take i es)) \<longrightarrow>
                  (resource_type_of (es ! i) \<noteq> JStr ''ExplanationOfBenefit'' \<longrightarrow>
                     out ! (i + eob_count (take i es)) = es ! i) \<and>
                  (resource_type_of (es ! i) = JStr ''ExplanationOfBenefit'' \<longrightarrow>
                     out ! (i + eob_count (take i es)) =
                       JObj [(''fullUrl'', JStr (''urn:uuid:'' @ u)),
                             (''resource'',
                                JObj [(''resourceType'', JStr ''Coverage''),
                                      (''id'', JStr u),
                                      (''status'', JStr ''active''),
                                      (''beneficiary'',
                                         JObj [(''reference'', JStr (''Patient/'' @ P))]),
                                      (''payor'',
                                         JArr [JObj [(''reference'',
                                                      JStr (''Organization/'' @ org))]])]),
                             (''request'',
                                JObj [(''method'', JStr ''POST''), (''url'', JStr ''Coverage'')])] \<and>
                     (\<exists>ed r. es ! i = JObj ed \<and> map_of ed ''resource'' = Some (JObj r) \<and>
                        out ! (i + eob_count (take i es) + 1) =
                          JObj (dict_set ''resource''
                                  (JObj (dict_set ''insurance''
                                     (JArr [JObj [(''focal'', JBool True),
                                                  (''coverage'',
                                                     JObj [(''reference'',
                                                            JStr (''Coverage/'' @ u))])]]) r))
                                  ed))))"
    by blast
qed

text \<open>
  Claim C10. The scan stops at the first \<^verbatim>\<open>Patient\<close> entry: when the entries before it are
  readable and are not \<^verbatim>\<open>Patient\<close> entries, the scan returns that entry's \<^verbatim>\<open>id\<close>, whatever
  follows. If that \<^verbatim>\<open>id\<close> is missing or false (empty), the document is returned as it is, also
  when a later \<^verbatim>\<open>Patient\<close> entry has an id. The other ways out before the second loop return
  the document as it is too: a document that is not a Bundle or has no \<^verbatim>\<open>entry\<close>, and a
  Bundle without a \<^verbatim>\<open>Patient\<close> entry. The warning is a print and is not modelled.
\<close>

theorem first_patient_without_id_aborts:
  "(get_or d ''resourceType'' JNull \<noteq> JStr ''Bundle'' \<or> \<not> has_key ''entry'' d \<longrightarrow>
      add_coverage_resources fmt uuid4 (JObj d) org = Inr (JObj d))
   \<and> (get_or d ''resourceType'' JNull = JStr ''Bundle'' \<and>
      map_of d ''entry'' = Some (JArr (pre @ JObj p # post)) \<and>
      (\<forall>e\<in>set pre. entry_ok e \<and> resource_type_of e \<noteq> JStr ''Patient'') \<and>
      map_of p ''resource'' = Some (JObj res) \<and>
      get_or res ''resourceType'' JNull = JStr ''Patient'' \<and>
      \<not> truthy (get_or res ''id'' JNull) \<longrightarrow>
      find_patient_id (pre @ JObj p # post) = Inr (get_or res ''id'' JNull) \<and>
      add_coverage_resources fmt uuid4 (JObj d) org = Inr (JObj d))
   \<and> (get_or d ''resourceType'' JNull = JStr ''Bundle'' \<and>
      map_of d ''entry'' = Some (JArr es) \<and>
      (\<forall>e\<in>set es. entry_ok e \<and> resource_type_of e \<noteq> JStr ''Patient'') \<longrightarrow>
      add_coverage_resources fmt uuid4 (JObj d) org = Inr (JObj d))"
proof (intro conjI impI)
  assume "get_or d ''resourceType'' JNull \<noteq> JStr ''Bundle'' \<or> \<not> has_key ''entry'' d"
  then show "add_coverage_resources fmt uuid4 (JObj d) org = Inr (JObj d)"
    by (auto simp: add_coverage_resources_def)
next
  assume a: "get_or d ''resourceType'' JNull = JStr ''Bundle'' \<and>
      map_of d ''entry'' = Some (JArr (pre @ JObj p # post)) \<and>
      (\<forall>e\<in>set pre. entry_ok e \<and> resource_type_of e \<noteq> JStr ''Patient'') \<and>
      map_of p ''resource'' = Some (JObj res) \<and>
      get_or res ''resourceType'' JNull = JStr ''Patient'' \<and>
      \<not> truthy (get_or res ''id'' JNull)"
  then show f: "find_patient_id (pre @ JObj p # post) = Inr (get_or res ''id'' JNull)"
    using find_patient_first[of pre p res post] by blast
  from a f show "add_coverage_resources fmt uuid4 (JObj d) org = Inr (JObj d)"
    using add_coverage_abort[of d "pre @ JObj p # post" "get_or res ''id'' JNull"] by blast
next
  assume a: "get_or d ''resourceType'' JNull = JStr ''Bundle'' \<and>
      map_of d ''entry'' = Some (JArr es) \<and>
      (\<forall>e\<in>set es. entry_ok e \<and> resource_type_of e \<noteq> JStr ''Patient'')"
  then have "find_patient_id es = Inr JNull" by (simp add: find_patient_none)
  with a show "add_coverage_resources fmt uuid4 (JObj d) org = Inr (JObj d)"
    using add_coverage_abort[of d es JNull] by simp
qed

subsection \<open>Two Bundles\<close>

definition example_uuid4 :: "nat \<Rightarrow> string" where
  "example_uuid4 n =
     (if n = 0 then ''11111111-1111-4111-8111-111111111111''
      else ''22222222-2222-4222-8222-222222222222'')"

definition patient_entry :: jdict where
  "patient_entry =
     [(''fullUrl'', JStr ''urn:uuid:6c0b7f20-5c92-efd9-779b-c9ac40656b44''),
      (''resource'', JObj [(''resourceType'', JStr ''Patient''), (''id'', JStr ''P1'')])]"

definition claim_entries :: "json list" where
  "claim_entries =
     [JObj [(''resource'', JObj [(''resourceType'', JStr ''ExplanationOfBenefit''),
                                 (''insurance'', JStr ''old''),
                                 (''id'', JStr ''e1'')]),
            (''request'', JObj [(''method'', JStr ''POST'')])],
      JObj [(''resource'', JObj [(''resourceType'', JStr ''Encounter'')])]]"

definition coverage_bundle :: jdict where
  "coverage_bundle =
     [(''resourceType'', JStr ''Bundle''),
      (''entry'', JArr (JObj patient_entry # claim_entries))]"

definition patient_without_id :: jdict where
  "patient_without_id =
     [(''resource'', JObj [(''resourceType'', JStr ''Patient''), (''id'', JStr '''')])]"

definition later_entries :: "json list" where
  "later_entries =
     [JObj [(''resource'', JObj [(''resourceType'', JStr ''Patient''), (''id'', JStr ''P2'')])],
      JObj [(''resource'', JObj [(''resourceType'', JStr ''ExplanationOfBenefit'')])]]"

definition two_patients_bundle :: jdict where
  "two_patients_bundle =
     [(''resourceType'', JStr ''Bundle''),
      (''entry'', JArr (JObj patient_without_id # later_entries))]"

text \<open>The claim C7 as first stated asks only that the Bundle contain a \<^verbatim>\<open>Patient\<close> with an id.
  This Bundle contains the \<^verbatim>\<open>Patient\<close> \<^verbatim>\<open>P2\<close> and a claim, but its first \<^verbatim>\<open>Patient\<close> entry has an
  empty id: nothing is inserted.\<close>

theorem coverage_counterexample:
  "get_or two_patients_bundle ''resourceType'' JNull = JStr ''Bundle''
   \<and> map_of two_patients_bundle ''entry'' = Some (JArr (JObj patient_without_id # later_entries))
   \<and> later_entries ! 0
       = JObj [(''resource'', JObj [(''resourceType'', JStr ''Patient''), (''id'', JStr ''P2'')])]
   \<and> resource_type_of (later_entries ! 1) = JStr ''ExplanationOfBenefit''
   \<and> add_coverage_resources (\<lambda>v. []) example_uuid4 (JObj two_patients_bundle) ''ORG''
       = Inr (JObj two_patients_bundle)"
  by code_simp

theorem first_patient_without_id_witness:
  "find_patient_id (JObj patient_without_id # later_entries) = Inr (JStr '''')
   \<and> add_coverage_resources (\<lambda>v. []) example_uuid4 (JObj two_patients_bundle) ''ORG''
       = Inr (JObj two_patients_bundle)
   \<and> add_coverage_resources (\<lambda>v. []) example_uuid4 (JObj [(''resourceType'', JStr ''Patient'')]) ''ORG''
       = Inr (JObj [(''resourceType'', JStr ''Patient'')])"
proof -
  let ?res = "[(''resourceType'', JStr ''Patient''), (''id'', JStr '''')]"
  have h: "get_or two_patients_bundle ''resourceType'' JNull = JStr ''Bundle'' \<and>
      map_of two_patients_bundle ''entry'' = Some (JArr ([] @ JObj patient_without_id # later_entries)) \<and>
      (\<forall>e\<in>set []. entry_ok e \<and> resource_type_of e \<noteq> JStr ''Patient'') \<and>
      map_of patient_without_id ''resource'' = Some (JObj ?res) \<and>
      get_or ?res ''resourceType'' JNull = JStr ''Patient'' \<and>
      \<not> truthy (get_or ?res ''id'' JNull)"
    by code_simp
  have g: "get_or ?res ''id'' JNull = JStr ''''" by code_simp
  have n: "get_or [(''resourceType'', JStr ''Patient'')] ''resourceType'' JNull \<noteq> JStr ''Bundle''"
    by code_simp
  from first_patient_without_id_aborts[of two_patients_bundle "(\<lambda>v. [])" example_uuid4 "''ORG''"
      "[]" patient_without_id later_entries ?res "[]"] h
  have 1: "find_patient_id ([] @ JObj patient_without_id # later_entries)
             = Inr (get_or ?res ''id'' JNull)"
    and 2: "add_coverage_resources (\<lambda>v. []) example_uuid4 (JObj two_patients_bundle) ''ORG''
       = Inr (JObj two_patients_bundle)"
    by blast+
  from first_patient_without_id_aborts[of "[(''resourceType'', JStr ''Patient'')]" "(\<lambda>v. [])"
      example_uuid4 "''ORG''" "[]" "[]" "[]" "[]" "[]"] n
  have 3: "add_coverage_resources (\<lambda>v. []) example_uuid4
             (JObj [(''resourceType'', JStr ''Patient'')]) ''ORG''
       = Inr (JObj [(''resourceType'', JStr ''Patient'')])"
    by blast
  from 1 g have "find_patient_id (JObj patient_without_id # later_entries) = Inr (JStr '''')"
    by simp
  with 2 3 show ?thesis by (intro conjI)
qed

theorem coverage_inserted_witness:
  "\<exists>out. add_coverage_resources (\<lambda>v. []) example_uuid4 (JObj coverage_bundle) ''ORG''
            = Inr (JObj (dict_set ''entry'' (JArr out) coverage_bundle))
       \<and> length out = 4
       \<and> out ! 0 = JObj patient_entry
       \<and> out ! 1 =
           JObj [(''fullUrl'', JStr ''urn:uuid:11111111-1111-4111-8111-111111111111''),
                 (''resource'',
                    JObj [(''resourceType'', JStr ''Coverage''),
                          (''id'', JStr ''11111111-1111-4111-8111-111111111111''),
                          (''status'', JStr ''active''),
                          (''beneficiary'', JObj [(''reference'', JStr ''Patient/P1'')]),
                          (''payor'', JArr [JObj [(''reference'', JStr ''Organization/ORG'')]])]),
                 (''request'', JObj [(''method'', JStr ''POST''), (''url'', JStr ''Coverage'')])]
       \<and> out ! 3 = JObj [(''resource'', JObj [(''resourceType'', JStr ''Encounter'')])]"
proof -
  let ?es = "JObj patient_entry # claim_entries"
  let ?res = "[(''resourceType'', JStr ''Patient''), (''id'', JStr ''P1'')]"
  let ?u = "''11111111-1111-4111-8111-111111111111''"
  have h: "get_or coverage_bundle ''resourceType'' JNull = JStr ''Bundle''"
    "map_of coverage_bundle ''entry'' = Some (JArr ?es)"
    "\<forall>e\<in>set ?es. entry_ok e"
    by code_simp+
  have p: "?es = [] @ JObj patient_entry # claim_entries \<and>
      (\<forall>e\<in>set []. resource_type_of e \<noteq> JStr ''Patient'') \<and>
      map_of patient_entry ''resource'' = Some (JObj ?res) \<and>
      get_or ?res ''resourceType'' JNull = JStr ''Patient'' \<and>
      map_of ?res ''id'' = Some (JStr ''P1'') \<and> ''P1'' \<noteq> []"
    by code_simp
  from coverage_inserted_before_each_claim[OF h, of "(\<lambda>v. [])" example_uuid4 "''ORG''"] p
  obtain out where o: "add_coverage_resources (\<lambda>v. []) example_uuid4 (JObj coverage_bundle) ''ORG''
            = Inr (JObj (dict_set ''entry'' (JArr out) coverage_bundle))"
    "length out = length ?es + eob_count ?es"
    and pos: "\<And>i u. i < length ?es \<and> u = example_uuid4 (eob_count (take i ?es)) \<Longrightarrow>
       (resource_type_of (?es ! i) \<noteq> JStr ''ExplanationOfBenefit'' \<longrightarrow>
          out ! (i + eob_count (take i ?es)) = ?es ! i) \<and>
       (resource_type_of (?es ! i) = JStr ''ExplanationOfBenefit'' \<longrightarrow>
          out ! (i + eob_count (take i ?es)) =
            JObj [(''fullUrl'', JStr (''urn:uuid:'' @ u)),
                  (''resource'',
                     JObj [(''resourceType'', JStr ''Coverage''),
                           (''id'', JStr u),
                           (''status'', JStr ''active''),
                           (''beneficiary'', JObj [(''reference'', JStr (''Patient/'' @ ''P1''))]),
                           (''payor'',
                              JArr [JObj [(''reference'', JStr (''Organization/'' @ ''ORG''))]])]),
                  (''request'', JObj [(''method'', JStr ''POST''), (''url'', JStr ''Coverage'')])] \<and>
          (\<exists>ed r. ?es ! i = JObj ed \<and> map_of ed ''resource'' = Some (JObj r) \<and>
             out ! (i + eob_count (take i ?es) + 1) =
               JObj (dict_set ''resource''
                       (JObj (dict_set ''insurance''
                          (JArr [JObj [(''focal'', JBool True),
                                       (''coverage'',
                                          JObj [(''reference'', JStr (''Coverage/'' @ u))])]]) r))
                       ed)))"
    by blast
  have c: "length ?es + eob_count ?es = 4"
    "0 < length ?es \<and> ?u = example_uuid4 (eob_count (take 0 ?es))"
    "1 < length ?es \<and> ?u = example_uuid4 (eob_count (take 1 ?es))"
    "2 < length ?es \<and> ''22222222-2222-4222-8222-222222222222''
        = example_uuid4 (eob_count (take 2 ?es))"
    "resource_type_of (?es ! 0) \<noteq> JStr ''ExplanationOfBenefit''"
    "resource_type_of (?es ! 1) = JStr ''ExplanationOfBenefit''"
    "resource_type_of (?es ! 2) \<noteq> JStr ''ExplanationOfBenefit''"
    "0 + eob_count (take 0 ?es) = 0" "1 + eob_count (take 1 ?es) = 1"
    "2 + eob_count (take 2 ?es) = 3"
    "?es ! 0 = JObj patient_entry"
    "?es ! 2 = JObj [(''resource'', JObj [(''resourceType'', JStr ''Encounter'')])]"
    by code_simp+
  from o(2) c(1) have l: "length out = 4" by simp
  from pos[OF c(2)] c(5) have "out ! (0 + eob_count (take 0 ?es)) = ?es ! 0" by blast
  then have o0: "out ! 0 = JObj patient_entry" by (simp only: c(8) c(11))
  from pos[OF c(3)] c(6) have "out ! (1 + eob_count (take 1 ?es)) =
            JObj [(''fullUrl'', JStr (''urn:uuid:'' @ ?u)),
                  (''resource'',
                     JObj [(''resourceType'', JStr ''Coverage''),
                           (''id'', JStr ?u),
                           (''status'', JStr ''active''),
                           (''beneficiary'', JObj [(''reference'', JStr (''Patient/'' @ ''P1''))]),
                           (''payor'',
                              JArr [JObj [(''reference'', JStr (''Organization/'' @ ''ORG''))]])]),
                  (''request'', JObj [(''method'', JStr ''POST''), (''url'', JStr ''Coverage'')])]"
    by blast
  then have o1: "out ! 1 =
           JObj [(''fullUrl'', JStr ''urn:uuid:11111111-1111-4111-8111-111111111111''),
                 (''resource'',
                    JObj [(''resourceType'', JStr ''Coverage''),
                          (''id'', JStr ''11111111-1111-4111-8111-111111111111''),
                          (''status'', JStr ''active''),
                          (''beneficiary'', JObj [(''reference'', JStr ''Patient/P1'')]),
                          (''payor'', JArr [JObj [(''reference'', JStr ''Organization/ORG'')]])]),
                 (''request'', JObj [(''method'', JStr ''POST''), (''url'', JStr ''Coverage'')])]"
    by (simp only: c(9) append.simps)
  from pos[OF c(4)] c(7) have "out ! (2 + eob_count (take 2 ?es)) = ?es ! 2" by blast
  then have o3: "out ! 3 = JObj [(''resource'', JObj [(''resourceType'', JStr ''Encounter'')])]"
    by (simp only: c(10) c(12))
  from o(1) l o0 o1 o3 show ?thesis by blast
qed

section \<open>The reference index and the global identifier map\<close>

text \<open>
  \<^verbatim>\<open>build_uuid_to_resource_type_map\<close> and \<^verbatim>\<open>build_global_identifier_map\<close> store what the
  documents hold: a resource type, an id or an identifier value is any value that Python
  counts as true, so the maps built here hold JSON values. A key must be hashable.
\<close>

type_synonym uuid_map_t = "string \<rightharpoonup> json"
type_synonym identifier_map_t = "json \<rightharpoonup> json \<times> json"

text \<open>The key that a value gives in a dict: a list or a dict raises \<^verbatim>\<open>TypeError\<close>, and \<^verbatim>\<open>True\<close>
  is the same key as \<^verbatim>\<open>1\<close>.\<close>

fun dict_key :: "json \<Rightarrow> py_error + json" where
  "dict_key (JArr xs) = Inl TypeError"
| "dict_key (JObj d) = Inl TypeError"
| "dict_key (JBool b) = Inr (JNum (if b then 1 else 0))"
| "dict_key v = Inr v"

text \<open>A \<^verbatim>\<open>for\<close> loop whose body may raise: the state reached, and the exception if one was
  raised. What was stored before an exception stays stored.\<close>

fun for_each :: "('a \<Rightarrow> 's \<Rightarrow> 's \<times> py_error option) \<Rightarrow> 'a list \<Rightarrow> 's \<Rightarrow> 's \<times> py_error option" where
  "for_each body [] st = (st, None)"
| "for_each body (x # xs) st =
     (case body x st of
        (st', None) \<Rightarrow> for_each body xs st'
      | (st', Some err) \<Rightarrow> (st', Some err))"

text \<open>The innermost loop body and the block guarded by
  \<^verbatim>\<open>if resource_type and resource_id\<close>; the two functions of the source contain the same
  text.\<close>

definition record_identifier ::
  "json \<times> json \<Rightarrow> json \<Rightarrow> identifier_map_t \<Rightarrow> identifier_map_t \<times> py_error option" where
  "record_identifier target identifier local_map =
     (case identifier of
        JObj i \<Rightarrow>
          (let v = get_or i ''value'' JNull
           in if truthy v
              then (case dict_key v of
                      Inl err \<Rightarrow> (local_map, Some err)
                    | Inr k \<Rightarrow> (local_map(k \<mapsto> target), None))
              else (local_map, None))
      | _ \<Rightarrow> (local_map, None))"

definition record_identifiers ::
  "jdict \<Rightarrow> identifier_map_t \<Rightarrow> identifier_map_t \<times> py_error option" where
  "record_identifiers resource local_map =
     (let resource_type = get_or resource ''resourceType'' JNull;
          resource_id = get_or resource ''id'' JNull
      in if truthy resource_type \<and> truthy resource_id
         then (case py_iter (get_or resource ''identifier'' (JArr [])) of
                 Inl err \<Rightarrow> (local_map, Some err)
               | Inr identifiers \<Rightarrow>
                   for_each (record_identifier (resource_type, resource_id)) identifiers
                     local_map)
         else (local_map, None))"

text \<open>The body of the loop of \<^verbatim>\<open>build_uuid_to_resource_type_map\<close>. Everything it stores is
  inside the test \<^verbatim>\<open>full_url.startswith("urn:uuid:")\<close>, the identifiers too.\<close>

definition index_entry ::
  "json \<Rightarrow> uuid_map_t \<times> identifier_map_t
     \<Rightarrow> (uuid_map_t \<times> identifier_map_t) \<times> py_error option" where
  "index_entry entry maps =
     (case entry of
        JObj e \<Rightarrow>
          (case get_or e ''fullUrl'' (JStr []) of
             JStr full_url \<Rightarrow>
               if startswith full_url ''urn:uuid:''
               then (case get_or e ''resource'' (JObj []) of
                       JObj resource \<Rightarrow>
                         (let uuid = str_remove ''urn:uuid:'' full_url;
                              resource_type = get_or resource ''resourceType'' JNull;
                              uuids = (if truthy resource_type
                                       then (fst maps)(uuid \<mapsto> resource_type)
                                       else fst maps);
                              (identifiers, err) = record_identifiers resource (snd maps)
                          in ((uuids, identifiers), err))
                     | _ \<Rightarrow> (maps, Some AttributeError))
               else (maps, None)
           | _ \<Rightarrow> (maps, Some AttributeError))
      | _ \<Rightarrow> (maps, Some AttributeError))"

text \<open>An exception leaves the function, and with it the maps built so far.\<close>

definition build_uuid_to_resource_type_map ::
  "json \<Rightarrow> py_error + uuid_map_t \<times> identifier_map_t" where
  "build_uuid_to_resource_type_map data =
     (case data of
        JObj d \<Rightarrow>
          if get_or d ''resourceType'' JNull = JStr ''Bundle'' \<and> has_key ''entry'' d
          then (case py_iter (get_or d ''entry'' JNull) of
                  Inl err \<Rightarrow> Inl err
                | Inr entries \<Rightarrow>
                    (case for_each index_entry entries (Map.empty, Map.empty) of
                       (maps, None) \<Rightarrow> Inr maps
                     | (maps, Some err) \<Rightarrow> Inl err))
          else Inr (Map.empty, Map.empty)
      | _ \<Rightarrow> Inl AttributeError)"

text \<open>The body of the loop of \<^verbatim>\<open>build_global_identifier_map\<close>: no test on \<^verbatim>\<open>fullUrl\<close>.\<close>

definition aggregate_entry ::
  "json \<Rightarrow> identifier_map_t \<Rightarrow> identifier_map_t \<times> py_error option" where
  "aggregate_entry entry global_map =
     (case entry of
        JObj e \<Rightarrow>
          (case get_or e ''resource'' (JObj []) of
             JObj resource \<Rightarrow> record_identifiers resource global_map
           | _ \<Rightarrow> (global_map, Some AttributeError))
      | _ \<Rightarrow> (global_map, Some AttributeError))"

definition aggregate_document ::
  "json \<Rightarrow> identifier_map_t \<Rightarrow> identifier_map_t \<times> py_error option" where
  "aggregate_document data global_map =
     (case data of
        JObj d \<Rightarrow>
          if get_or d ''resourceType'' JNull = JStr ''Bundle'' \<and> has_key ''entry'' d
          then (case py_iter (get_or d ''entry'' JNull) of
                  Inl err \<Rightarrow> (global_map, Some err)
                | Inr entries \<Rightarrow> for_each aggregate_entry entries global_map)
          else (global_map, None)
      | _ \<Rightarrow> (global_map, Some AttributeError))"

text \<open>The files in order; \<^const>\<open>None\<close> is a file that cannot be opened or parsed. The
  \<^verbatim>\<open>except\<close> clause prints a warning and goes on with the map as it is.\<close>

fun aggregate_files :: "json option list \<Rightarrow> identifier_map_t \<Rightarrow> identifier_map_t" where
  "aggregate_files [] global_map = global_map"
| "aggregate_files (None # files) global_map =
     aggregate_files files global_map"
| "aggregate_files (Some data # files) global_map =
     aggregate_files files (fst (aggregate_document data global_map))"

definition build_global_identifier_map :: "json option list \<Rightarrow> identifier_map_t" where
  "build_global_identifier_map json_files = aggregate_files json_files Map.empty"

subsection \<open>The local map and the global map of one document\<close>

text \<open>An entry whose \<^verbatim>\<open>fullUrl\<close> is a string starting with \<^verbatim>\<open>urn:uuid:\<close>.\<close>

definition urn_entry :: "json \<Rightarrow> bool" where
  "urn_entry entry =
     (case entry of
        JObj e \<Rightarrow>
          (case get_or e ''fullUrl'' (JStr []) of
             JStr full_url \<Rightarrow> startswith full_url ''urn:uuid:''
           | _ \<Rightarrow> False)
      | _ \<Rightarrow> False)"

text \<open>A Bundle whose one entry has a \<^verbatim>\<open>fullUrl\<close> that is not a \<^verbatim>\<open>urn:uuid:\<close>, and one whose entry
  has one. The second has an identifier with an empty value and an identifier that is not an
  object; both are skipped.\<close>

definition plain_url_doc :: json where
  "plain_url_doc =
     JObj [(''resourceType'', JStr ''Bundle''),
           (''entry'',
              JArr [JObj [(''fullUrl'', JStr ''http://example.org/Patient/p1''),
                          (''resource'',
                             JObj [(''resourceType'', JStr ''Patient''),
                                   (''id'', JStr ''p1''),
                                   (''identifier'',
                                      JArr [JObj [(''system'', JStr ''http://x''),
                                                  (''value'', JStr ''MRN-1'')]])])]])]"

definition urn_doc :: jdict where
  "urn_doc =
     [(''resourceType'', JStr ''Bundle''),
      (''entry'',
         JArr [JObj [(''fullUrl'', JStr ''urn:uuid:6c0b7f20-5c92-efd9-779b-c9ac40656b44''),
                     (''resource'',
                        JObj [(''resourceType'', JStr ''Patient''),
                              (''id'', JStr ''p1''),
                              (''identifier'',
                                 JArr [JObj [(''system'', JStr ''http://x''),
                                             (''value'', JStr ''MRN-1'')],
                                       JObj [(''value'', JStr '''')],
                                       JStr ''x''])])]])]"

lemma index_entry_no_error:
  assumes "index_entry e (um, im) = ((um', im'), None)"
  shows "(urn_entry e \<longrightarrow> aggregate_entry e im = (im', None)) \<and> (\<not> urn_entry e \<longrightarrow> im' = im)"
proof -
  from assms obtain ed where e: "e = JObj ed"
    by (cases e) (auto simp: index_entry_def)
  from assms e obtain fu where fu: "get_or ed ''fullUrl'' (JStr []) = JStr fu"
    by (cases "get_or ed ''fullUrl'' (JStr [])") (auto simp: index_entry_def)
  show ?thesis
  proof (cases "startswith fu ''urn:uuid:''")
    case False
    then have "\<not> urn_entry e" by (simp add: urn_entry_def e fu)
    moreover have "im' = im" using assms False by (simp add: index_entry_def e fu)
    ultimately show ?thesis by simp
  next
    case True
    then have u: "urn_entry e" by (simp add: urn_entry_def e fu)
    from assms True obtain r where r: "get_or ed ''resource'' (JObj []) = JObj r"
      by (cases "get_or ed ''resource'' (JObj [])") (auto simp: index_entry_def e fu)
    from assms True have "record_identifiers r im = (im', None)"
      by (simp add: index_entry_def e fu r Let_def split: prod.splits)
    then have "aggregate_entry e im = (im', None)"
      by (simp add: aggregate_entry_def e r)
    with u show ?thesis by simp
  qed
qed

lemma for_each_index_filter:
  assumes "for_each index_entry es (um, im) = ((um', im'), None)"
  shows "for_each aggregate_entry (filter urn_entry es) im = (im', None)"
  using assms
proof (induction es arbitrary: um im)
  case Nil
  then show ?case by simp
next
  case (Cons e es)
  obtain um1 im1 err where step: "index_entry e (um, im) = ((um1, im1), err)"
    by (metis prod.exhaust)
  have err: "err = None"
  proof (cases err)
    case (Some x)
    with Cons.prems step show ?thesis by simp
  qed simp
  with Cons.prems step have rest: "for_each index_entry es (um1, im1) = ((um', im'), None)"
    by simp
  note IH = Cons.IH[OF rest]
  from index_entry_no_error[OF step[unfolded err]]
  show ?case using IH by (cases "urn_entry e") simp_all
qed

lemma filter_all: "(\<forall>x\<in>set xs. P x) \<Longrightarrow> filter P xs = xs"
  by (induction xs) auto

subsection \<open>The extraction rule, stated apart from the loops\<close>

text \<open>
  The rule in the words of the specification: a resource with a type and an id gives, for
  each identifier object with a non-empty \<^verbatim>\<open>value\<close>, the pair of that value and (type, id).
  \<^verbatim>\<open>spec_identifier_key\<close> is the key that one element of the \<^verbatim>\<open>identifier\<close> list gives,
  \<^verbatim>\<open>spec_entry_pairs\<close> the pairs of one entry in the order of its identifiers, and
  \<^verbatim>\<open>spec_map\<close> the map of a list of entries, where a later pair replaces an earlier one
  with the same key. None of them mentions \<^verbatim>\<open>fullUrl\<close>, and none is used by the functions
  above: the lemmas below compare the two loops with them.
\<close>

definition spec_identifier_key :: "json \<Rightarrow> json option" where
  "spec_identifier_key identifier =
     (case identifier of
        JObj i \<Rightarrow>
          (if truthy (get_or i ''value'' JNull)
           then (case dict_key (get_or i ''value'' JNull) of
                   Inr k \<Rightarrow> Some k
                 | Inl err \<Rightarrow> None)
           else None)
      | _ \<Rightarrow> None)"

definition spec_identifier_keys :: "json list \<Rightarrow> json list" where
  "spec_identifier_keys identifiers = List.map_filter spec_identifier_key identifiers"

definition spec_resource_pairs :: "jdict \<Rightarrow> (json \<times> json \<times> json) list" where
  "spec_resource_pairs resource =
     (if truthy (get_or resource ''resourceType'' JNull) \<and> truthy (get_or resource ''id'' JNull)
      then (case py_iter (get_or resource ''identifier'' (JArr [])) of
              Inr identifiers \<Rightarrow>
                map (\<lambda>k. (k, get_or resource ''resourceType'' JNull, get_or resource ''id'' JNull))
                  (spec_identifier_keys identifiers)
            | Inl err \<Rightarrow> [])
      else [])"

definition spec_entry_pairs :: "json \<Rightarrow> (json \<times> json \<times> json) list" where
  "spec_entry_pairs entry =
     (case entry of
        JObj e \<Rightarrow>
          (case get_or e ''resource'' (JObj []) of
             JObj resource \<Rightarrow> spec_resource_pairs resource
           | _ \<Rightarrow> [])
      | _ \<Rightarrow> [])"

definition spec_map :: "json list \<Rightarrow> identifier_map_t" where
  "spec_map entries = map_of (rev (concat (map spec_entry_pairs entries)))"

lemma map_add_upd_rev:
  "m ++ map_of (rev ((k, t) # ps)) = m(k \<mapsto> t) ++ map_of (rev ps)"
proof -
  have "map_of (rev ((k, t) # ps)) = [k \<mapsto> t] ++ map_of (rev ps)"
    by simp
  then show ?thesis by (simp add: map_add_assoc[symmetric] map_add_upd_left)
qed

lemma spec_identifier_key_Some:
  "spec_identifier_key x = Some k \<longleftrightarrow>
     (\<exists>i. x = JObj i \<and> truthy (get_or i ''value'' JNull) \<and>
          dict_key (get_or i ''value'' JNull) = Inr k)"
  by (cases x) (simp_all add: spec_identifier_key_def split: sum.splits)

lemma identifier_loop_pairs:
  assumes "for_each (record_identifier tgt) ids m = (m', None)"
  shows "m' = m ++ map_of (rev (map (\<lambda>k. (k, tgt)) (spec_identifier_keys ids)))"
  using assms
proof (induction ids arbitrary: m)
  case Nil
  then show ?case by (simp add: spec_identifier_keys_def map_filter_simps)
next
  case (Cons x ids)
  obtain m1 err where step: "record_identifier tgt x m = (m1, err)" by (metis prod.exhaust)
  have err: "err = None"
  proof (cases err)
    case (Some e)
    with Cons.prems step show ?thesis by simp
  qed simp
  with Cons.prems step have rest: "for_each (record_identifier tgt) ids m1 = (m', None)"
    by simp
  note IH = Cons.IH[OF rest]
  show ?case
  proof (cases "\<exists>i. x = JObj i \<and> truthy (get_or i ''value'' JNull)")
    case False
    then have "m1 = m" "spec_identifier_key x = None"
      using step by (auto simp: record_identifier_def spec_identifier_key_def Let_def
          split: json.splits)
    then have "m1 = m" "spec_identifier_keys (x # ids) = spec_identifier_keys ids"
      by (simp_all add: spec_identifier_keys_def map_filter_simps)
    with IH show ?thesis by simp
  next
    case True
    then obtain i where i: "x = JObj i" "truthy (get_or i ''value'' JNull)" by blast
    from step err i obtain k where k: "dict_key (get_or i ''value'' JNull) = Inr k"
      "m1 = m(k \<mapsto> tgt)"
      by (cases "dict_key (get_or i ''value'' JNull)")
         (auto simp: record_identifier_def Let_def)
    have "spec_identifier_key x = Some k"
      using i k(1) by (simp add: spec_identifier_key_Some)
    then have ks: "spec_identifier_keys (x # ids) = k # spec_identifier_keys ids"
      by (simp add: spec_identifier_keys_def map_filter_simps)
    from IH have "m' = m(k \<mapsto> tgt) ++
        map_of (rev (map (\<lambda>k. (k, tgt)) (spec_identifier_keys ids)))"
      unfolding k(2) .
    then show ?thesis
      by (simp only: ks list.map map_add_upd_rev)
  qed
qed

lemma spec_identifier_keys_set:
  "k \<in> set (spec_identifier_keys ids) \<longleftrightarrow>
     (\<exists>i. JObj i \<in> set ids \<and> truthy (get_or i ''value'' JNull) \<and>
          dict_key (get_or i ''value'' JNull) = Inr k)"
proof -
  have "k \<in> set (spec_identifier_keys ids) \<longleftrightarrow> (\<exists>x\<in>set ids. spec_identifier_key x = Some k)"
    unfolding spec_identifier_keys_def
    by (induction ids) (auto simp: map_filter_simps split: option.splits)
  then show ?thesis by (auto simp: spec_identifier_key_Some)
qed

lemma spec_resource_pairs_eq:
  assumes "truthy (get_or r ''resourceType'' JNull)" "truthy (get_or r ''id'' JNull)"
    and "py_iter (get_or r ''identifier'' (JArr [])) = Inr ids"
  shows "spec_resource_pairs r =
     map (\<lambda>k. (k, get_or r ''resourceType'' JNull, get_or r ''id'' JNull))
       (spec_identifier_keys ids)"
  using assms by (simp add: spec_resource_pairs_def)

lemma spec_resource_pairs_nonempty:
  assumes "spec_resource_pairs r \<noteq> []"
  shows "truthy (get_or r ''resourceType'' JNull) \<and> truthy (get_or r ''id'' JNull) \<and>
         (\<exists>ids. py_iter (get_or r ''identifier'' (JArr [])) = Inr ids)"
  using assms
  by (cases "py_iter (get_or r ''identifier'' (JArr []))")
     (simp_all add: spec_resource_pairs_def split: if_splits)

lemma spec_entry_pairs_nonempty:
  assumes "spec_entry_pairs e \<noteq> []"
  shows "\<exists>ed r. e = JObj ed \<and> get_or ed ''resource'' (JObj []) = JObj r \<and>
           spec_entry_pairs e = spec_resource_pairs r"
proof -
  from assms obtain ed where e: "e = JObj ed"
    by (cases e) (simp_all add: spec_entry_pairs_def)
  from assms e obtain r where r: "get_or ed ''resource'' (JObj []) = JObj r"
    by (cases "get_or ed ''resource'' (JObj [])") (simp_all add: spec_entry_pairs_def)
  show ?thesis using e r by (simp add: spec_entry_pairs_def)
qed

lemma record_identifiers_pairs:
  assumes "record_identifiers r m = (m', None)"
  shows "m' = m ++ map_of (rev (spec_resource_pairs r))"
proof (cases "truthy (get_or r ''resourceType'' JNull) \<and> truthy (get_or r ''id'' JNull)")
  case False
  with assms show ?thesis
    by (auto simp: record_identifiers_def spec_resource_pairs_def Let_def)
next
  case True
  show ?thesis
  proof (cases "py_iter (get_or r ''identifier'' (JArr []))")
    case (Inl e)
    with assms True show ?thesis by (simp add: record_identifiers_def Let_def)
  next
    case (Inr ids)
    with assms True have "for_each (record_identifier
        (get_or r ''resourceType'' JNull, get_or r ''id'' JNull)) ids m = (m', None)"
      by (simp add: record_identifiers_def Let_def)
    from identifier_loop_pairs[OF this] True Inr show ?thesis
      by (simp add: spec_resource_pairs_def)
  qed
qed

lemma aggregate_entry_pairs:
  assumes "aggregate_entry e m = (m', None)"
  shows "m' = m ++ map_of (rev (spec_entry_pairs e))"
proof -
  from assms obtain ed where e: "e = JObj ed"
    by (cases e) (auto simp: aggregate_entry_def)
  from assms e obtain r where r: "get_or ed ''resource'' (JObj []) = JObj r"
    by (cases "get_or ed ''resource'' (JObj [])") (auto simp: aggregate_entry_def)
  from assms have "record_identifiers r m = (m', None)"
    by (simp add: aggregate_entry_def e r)
  from record_identifiers_pairs[OF this] show ?thesis
    by (simp add: spec_entry_pairs_def e r)
qed

lemma aggregate_loop_pairs:
  assumes "for_each aggregate_entry es m = (m', None)"
  shows "m' = m ++ spec_map es"
  using assms
proof (induction es arbitrary: m)
  case Nil
  then show ?case by (simp add: spec_map_def)
next
  case (Cons e es)
  obtain m1 err where step: "aggregate_entry e m = (m1, err)" by (metis prod.exhaust)
  have err: "err = None"
  proof (cases err)
    case (Some x)
    with Cons.prems step show ?thesis by simp
  qed simp
  with Cons.prems step have rest: "for_each aggregate_entry es m1 = (m', None)" by simp
  have m1: "m1 = m ++ map_of (rev (spec_entry_pairs e))"
    using aggregate_entry_pairs step err by blast
  have "spec_map (e # es) = map_of (rev (spec_entry_pairs e)) ++ spec_map es"
    by (simp add: spec_map_def)
  with Cons.IH[OF rest] m1 show ?case by (simp add: map_add_assoc)
qed

lemma spec_map_last:
  assumes "(k, t) \<in> set (spec_entry_pairs e)" and "\<forall>p\<in>set (spec_entry_pairs e). snd p = t"
  shows "spec_map (pre @ [e]) k = Some t"
proof -
  have "k \<in> fst ` set (rev (spec_entry_pairs e))" using assms(1) by force
  then obtain t' where t': "map_of (rev (spec_entry_pairs e)) k = Some t'"
    by (cases "map_of (rev (spec_entry_pairs e)) k") (auto simp: map_of_eq_None_iff)
  then have "(k, t') \<in> set (spec_entry_pairs e)" by (auto dest: map_of_SomeD)
  with assms(2) have "t' = t" by auto
  with t' show ?thesis by (simp add: spec_map_def map_add_def)
qed

lemma spec_entry_pairs_string:
  assumes "get_or ed ''resource'' (JObj []) = JObj r"
    and "truthy (get_or r ''resourceType'' JNull)" "truthy (get_or r ''id'' JNull)"
    and "get_or r ''identifier'' (JArr []) = JArr ids"
    and "JObj i \<in> set ids" "get_or i ''value'' JNull = JStr v" "v \<noteq> []"
  shows "(JStr v, get_or r ''resourceType'' JNull, get_or r ''id'' JNull)
           \<in> set (spec_entry_pairs (JObj ed))"
    and "\<forall>p\<in>set (spec_entry_pairs (JObj ed)).
           snd p = (get_or r ''resourceType'' JNull, get_or r ''id'' JNull)"
proof -
  have it: "py_iter (get_or r ''identifier'' (JArr [])) = Inr ids"
    by (simp add: assms(4))
  have eq: "spec_entry_pairs (JObj ed) =
      map (\<lambda>k. (k, get_or r ''resourceType'' JNull, get_or r ''id'' JNull))
        (spec_identifier_keys ids)"
    using spec_resource_pairs_eq[OF assms(2,3) it]
    by (simp add: spec_entry_pairs_def assms(1))
  have "JStr v \<in> set (spec_identifier_keys ids)"
    unfolding spec_identifier_keys_set using assms(5-7) by force
  then show "(JStr v, get_or r ''resourceType'' JNull, get_or r ''id'' JNull)
           \<in> set (spec_entry_pairs (JObj ed))"
    unfolding eq by simp
  show "\<forall>p\<in>set (spec_entry_pairs (JObj ed)).
           snd p = (get_or r ''resourceType'' JNull, get_or r ''id'' JNull)"
    unfolding eq by simp
qed

lemma spec_entry_pairs_sound:
  assumes "(k, t) \<in> set (spec_entry_pairs e)"
  shows "\<exists>ed r ids i. e = JObj ed \<and> get_or ed ''resource'' (JObj []) = JObj r \<and>
           truthy (get_or r ''resourceType'' JNull) \<and> truthy (get_or r ''id'' JNull) \<and>
           t = (get_or r ''resourceType'' JNull, get_or r ''id'' JNull) \<and>
           py_iter (get_or r ''identifier'' (JArr [])) = Inr ids \<and> JObj i \<in> set ids \<and>
           truthy (get_or i ''value'' JNull) \<and> dict_key (get_or i ''value'' JNull) = Inr k"
proof -
  from assms have ne: "spec_entry_pairs e \<noteq> []" by auto
  from spec_entry_pairs_nonempty[OF ne] obtain ed r where e: "e = JObj ed"
    and r: "get_or ed ''resource'' (JObj []) = JObj r"
    and eq: "spec_entry_pairs e = spec_resource_pairs r" by blast
  from ne eq have "spec_resource_pairs r \<noteq> []" by simp
  from spec_resource_pairs_nonempty[OF this] obtain ids where
    tr: "truthy (get_or r ''resourceType'' JNull)" "truthy (get_or r ''id'' JNull)"
    and ids: "py_iter (get_or r ''identifier'' (JArr [])) = Inr ids" by blast
  from assms have "(k, t) \<in> set (map (\<lambda>k. (k, get_or r ''resourceType'' JNull,
      get_or r ''id'' JNull)) (spec_identifier_keys ids))"
    unfolding eq spec_resource_pairs_eq[OF tr ids] .
  then have t: "t = (get_or r ''resourceType'' JNull, get_or r ''id'' JNull)"
    and k: "k \<in> set (spec_identifier_keys ids)"
    by auto
  from k obtain i where
    "JObj i \<in> set ids" "truthy (get_or i ''value'' JNull)"
    "dict_key (get_or i ''value'' JNull) = Inr k"
    unfolding spec_identifier_keys_set by blast
  with e r tr t ids show ?thesis by blast
qed

lemma spec_map_sound:
  assumes "spec_map es k = Some t"
  shows "\<exists>e\<in>set es. (k, t) \<in> set (spec_entry_pairs e)"
proof -
  from assms have "(k, t) \<in> set (rev (concat (map spec_entry_pairs es)))"
    unfolding spec_map_def by (rule map_of_SomeD)
  then show ?thesis by auto
qed

lemma spec_map_present:
  assumes "e \<in> set es" and "(k, t) \<in> set (spec_entry_pairs e)"
  shows "\<exists>t'. spec_map es k = Some t'"
proof -
  have "k \<in> fst ` set (rev (concat (map spec_entry_pairs es)))"
    using assms by force
  then show ?thesis
    unfolding spec_map_def
    by (cases "map_of (rev (concat (map spec_entry_pairs es))) k")
       (auto simp: map_of_eq_None_iff)
qed

text \<open>
  Claim C1, as amended. In \<^verbatim>\<open>build_uuid_to_resource_type_map\<close> the identifiers are read only
  from the entries whose \<^verbatim>\<open>fullUrl\<close> starts with \<^verbatim>\<open>urn:uuid:\<close>; \<^verbatim>\<open>build_global_identifier_map\<close>
  reads them from every entry. Whenever the builder returns maps for a document with an
  entry list, its identifier map is the map that the aggregator builds from that one
  document with the other entries left out; so the two maps are the same when every entry
  of the document has such a \<^verbatim>\<open>fullUrl\<close>. For a Bundle, moreover:

  \<^item> the builder's identifier map is the map of the extraction rule over the entries with
    such a \<^verbatim>\<open>fullUrl\<close>, and the aggregator's map, when it reads the document without an
    exception, is the map of the same rule over all the entries;
  \<^item> for each such entry whose resource has a type and an id, each object of its
    \<^verbatim>\<open>identifier\<close> list with a non-empty string as \<^verbatim>\<open>value\<close> puts that value in the builder's
    map, bound to (type, id) when the entry is the last one of the document;
  \<^item> every binding of the builder's map comes from such an entry: the target is the type and
    the id of its resource, both true in Python's sense, and the key is the true \<^verbatim>\<open>value\<close> of
    an object of its \<^verbatim>\<open>identifier\<close> list.
\<close>

theorem local_map_is_aggregate_of_urn_entries:
  assumes "build_uuid_to_resource_type_map (JObj d) = Inr (um, im)"
    and "map_of d ''entry'' = Some (JArr es)"
  shows "build_global_identifier_map
           [Some (JObj (dict_set ''entry'' (JArr (filter urn_entry es)) d))] = im
       \<and> ((\<forall>e\<in>set es. urn_entry e) \<longrightarrow> build_global_identifier_map [Some (JObj d)] = im)
       \<and> (get_or d ''resourceType'' JNull = JStr ''Bundle'' \<longrightarrow>
            im = spec_map (filter urn_entry es)
          \<and> (snd (aggregate_document (JObj d) Map.empty) = None \<longrightarrow>
               build_global_identifier_map [Some (JObj d)] = spec_map es)
          \<and> (\<forall>ed r ids i v.
                JObj ed \<in> set es \<and> urn_entry (JObj ed) \<and>
                get_or ed ''resource'' (JObj []) = JObj r \<and>
                truthy (get_or r ''resourceType'' JNull) \<and> truthy (get_or r ''id'' JNull) \<and>
                get_or r ''identifier'' (JArr []) = JArr ids \<and> JObj i \<in> set ids \<and>
                get_or i ''value'' JNull = JStr v \<and> v \<noteq> [] \<longrightarrow>
                  (\<exists>t. im (JStr v) = Some t) \<and>
                  ((\<exists>pre. es = pre @ [JObj ed]) \<longrightarrow>
                     im (JStr v) = Some (get_or r ''resourceType'' JNull, get_or r ''id'' JNull)))
          \<and> (\<forall>k t. im k = Some t \<longrightarrow>
                (\<exists>ed r ids i.
                   JObj ed \<in> set es \<and> urn_entry (JObj ed) \<and>
                   get_or ed ''resource'' (JObj []) = JObj r \<and>
                   truthy (get_or r ''resourceType'' JNull) \<and> truthy (get_or r ''id'' JNull) \<and>
                   t = (get_or r ''resourceType'' JNull, get_or r ''id'' JNull) \<and>
                   py_iter (get_or r ''identifier'' (JArr [])) = Inr ids \<and> JObj i \<in> set ids \<and>
                   truthy (get_or i ''value'' JNull) \<and>
                   dict_key (get_or i ''value'' JNull) = Inr k)))"
proof -
  let ?d' = "dict_set ''entry'' (JArr (filter urn_entry es)) d"
  have k: "has_key ''entry'' d" "has_key ''entry'' ?d'"
    using assms(2) by (simp_all add: has_key_map_of map_of_dict_set)
  have t: "get_or ?d' ''resourceType'' JNull = get_or d ''resourceType'' JNull"
    by (simp add: get_or_def map_of_dict_set)
  have it: "py_iter (get_or d ''entry'' JNull) = Inr es"
    "py_iter (get_or ?d' ''entry'' JNull) = Inr (filter urn_entry es)"
    using assms(2) by (simp_all add: get_or_def map_of_dict_set)
  have loop: "for_each aggregate_entry (filter urn_entry es) Map.empty = (im, None)"
    if "get_or d ''resourceType'' JNull = JStr ''Bundle''"
  proof -
    obtain maps err where fe: "for_each index_entry es (Map.empty, Map.empty) = (maps, err)"
      by (metis prod.exhaust)
    with assms(1) that k it have "err = None" "maps = (um, im)"
      by (auto simp: build_uuid_to_resource_type_map_def split: option.splits)
    with fe have "for_each index_entry es (Map.empty, Map.empty) = ((um, im), None)" by simp
    then show ?thesis by (rule for_each_index_filter)
  qed
  have first: "build_global_identifier_map [Some (JObj ?d')] = im"
  proof (cases "get_or d ''resourceType'' JNull = JStr ''Bundle''")
    case False
    with assms(1) have "im = Map.empty"
      by (simp add: build_uuid_to_resource_type_map_def)
    with False show ?thesis
      by (simp add: build_global_identifier_map_def aggregate_document_def t)
  next
    case True
    with loop[OF True] show ?thesis
      by (simp add: build_global_identifier_map_def aggregate_document_def t k it)
  qed
  have second: "build_global_identifier_map [Some (JObj d)] = im" if "\<forall>e\<in>set es. urn_entry e"
  proof -
    from that have "filter urn_entry es = es" by (rule filter_all)
    then have "?d' = d" using assms(2) by (simp add: dict_set_same)
    with first show ?thesis by simp
  qed
  have third: "im = spec_map (filter urn_entry es)"
    if "get_or d ''resourceType'' JNull = JStr ''Bundle''"
    using aggregate_loop_pairs[OF loop[OF that]] by simp
  have fourth: "build_global_identifier_map [Some (JObj d)] = spec_map es"
    if b: "get_or d ''resourceType'' JNull = JStr ''Bundle''"
      and ok: "snd (aggregate_document (JObj d) Map.empty) = None"
  proof -
    have ad: "aggregate_document (JObj d) Map.empty = for_each aggregate_entry es Map.empty"
      using b k it by (simp add: aggregate_document_def)
    obtain m' where m': "for_each aggregate_entry es Map.empty = (m', None)"
      using ok ad by (metis prod.collapse)
    from aggregate_loop_pairs[OF m'] have "m' = spec_map es" by simp
    with ad m' show ?thesis by (simp add: build_global_identifier_map_def)
  qed
  have fifth: "(\<exists>t. im (JStr v) = Some t) \<and>
      ((\<exists>pre. es = pre @ [JObj ed]) \<longrightarrow>
         im (JStr v) = Some (get_or r ''resourceType'' JNull, get_or r ''id'' JNull))"
    if b: "get_or d ''resourceType'' JNull = JStr ''Bundle''"
      and e: "JObj ed \<in> set es" "urn_entry (JObj ed)"
      and r: "get_or ed ''resource'' (JObj []) = JObj r"
        "truthy (get_or r ''resourceType'' JNull)" "truthy (get_or r ''id'' JNull)"
        "get_or r ''identifier'' (JArr []) = JArr ids"
      and i: "JObj i \<in> set ids" "get_or i ''value'' JNull = JStr v" "v \<noteq> []"
    for ed r ids i v
  proof -
    note pairs = spec_entry_pairs_string[OF r i]
    from e have mem: "JObj ed \<in> set (filter urn_entry es)" by simp
    from spec_map_present[OF mem pairs(1)] third[OF b]
    have present: "\<exists>t. im (JStr v) = Some t" by simp
    have last: "im (JStr v) = Some (get_or r ''resourceType'' JNull, get_or r ''id'' JNull)"
      if "es = pre @ [JObj ed]" for pre
    proof -
      from that e(2) have "filter urn_entry es = filter urn_entry pre @ [JObj ed]" by simp
      with spec_map_last[OF pairs, of "filter urn_entry pre"] third[OF b]
      show ?thesis by simp
    qed
    from present last show ?thesis by blast
  qed
  have sixth: "\<exists>ed r ids i.
       JObj ed \<in> set es \<and> urn_entry (JObj ed) \<and>
       get_or ed ''resource'' (JObj []) = JObj r \<and>
       truthy (get_or r ''resourceType'' JNull) \<and> truthy (get_or r ''id'' JNull) \<and>
       t = (get_or r ''resourceType'' JNull, get_or r ''id'' JNull) \<and>
       py_iter (get_or r ''identifier'' (JArr [])) = Inr ids \<and> JObj i \<in> set ids \<and>
       truthy (get_or i ''value'' JNull) \<and>
       dict_key (get_or i ''value'' JNull) = Inr k"
    if b: "get_or d ''resourceType'' JNull = JStr ''Bundle''" and m: "im k = Some t"
    for k t
  proof -
    from m third[OF b] have "spec_map (filter urn_entry es) k = Some t" by simp
    from spec_map_sound[OF this] obtain e where e: "e \<in> set es" "urn_entry e"
      "(k, t) \<in> set (spec_entry_pairs e)" by auto
    from spec_entry_pairs_sound[OF e(3)] e(1,2) show ?thesis by blast
  qed
  show ?thesis
  proof (intro conjI impI allI)
    show "build_global_identifier_map [Some (JObj ?d')] = im" by (rule first)
  next
    assume "\<forall>e\<in>set es. urn_entry e"
    then show "build_global_identifier_map [Some (JObj d)] = im" by (rule second)
  next
    assume "get_or d ''resourceType'' JNull = JStr ''Bundle''"
    then show "im = spec_map (filter urn_entry es)" by (rule third)
  next
    assume "get_or d ''resourceType'' JNull = JStr ''Bundle''"
      "snd (aggregate_document (JObj d) Map.empty) = None"
    then show "build_global_identifier_map [Some (JObj d)] = spec_map es" by (rule fourth)
  next
    fix ed r ids i v
    assume b: "get_or d ''resourceType'' JNull = JStr ''Bundle''"
      and h: "JObj ed \<in> set es \<and> urn_entry (JObj ed) \<and>
                get_or ed ''resource'' (JObj []) = JObj r \<and>
                truthy (get_or r ''resourceType'' JNull) \<and> truthy (get_or r ''id'' JNull) \<and>
                get_or r ''identifier'' (JArr []) = JArr ids \<and> JObj i \<in> set ids \<and>
                get_or i ''value'' JNull = JStr v \<and> v \<noteq> []"
    from fifth[OF b, of ed r ids i v] h
    show "\<exists>t. im (JStr v) = Some t" by blast
  next
    fix ed r ids i v
    assume b: "get_or d ''resourceType'' JNull = JStr ''Bundle''"
      and h: "JObj ed \<in> set es \<and> urn_entry (JObj ed) \<and>
                get_or ed ''resource'' (JObj []) = JObj r \<and>
                truthy (get_or r ''resourceType'' JNull) \<and> truthy (get_or r ''id'' JNull) \<and>
                get_or r ''identifier'' (JArr []) = JArr ids \<and> JObj i \<in> set ids \<and>
                get_or i ''value'' JNull = JStr v \<and> v \<noteq> []"
      and l: "\<exists>pre. es = pre @ [JObj ed]"
    from fifth[OF b, of ed r ids i v] h l
    show "im (JStr v) = Some (get_or r ''resourceType'' JNull, get_or r ''id'' JNull)" by blast
  next
    fix k t
    assume "get_or d ''resourceType'' JNull = JStr ''Bundle''" "im k = Some t"
    then show "\<exists>ed r ids i.
       JObj ed \<in> set es \<and> urn_entry (JObj ed) \<and>
       get_or ed ''resource'' (JObj []) = JObj r \<and>
       truthy (get_or r ''resourceType'' JNull) \<and> truthy (get_or r ''id'' JNull) \<and>
       t = (get_or r ''resourceType'' JNull, get_or r ''id'' JNull) \<and>
       py_iter (get_or r ''identifier'' (JArr [])) = Inr ids \<and> JObj i \<in> set ids \<and>
       truthy (get_or i ''value'' JNull) \<and>
       dict_key (get_or i ''value'' JNull) = Inr k" by (rule sixth)
  qed
qed


text \<open>For the first Bundle the builder's identifier map has no entry for \<^verbatim>\<open>MRN-1\<close> and the
  aggregator's has one: the extraction of the builder does depend on the prefix.\<close>

theorem local_map_counterexample:
  "(\<exists>um im. build_uuid_to_resource_type_map plain_url_doc = Inr (um, im) \<and>
             im (JStr ''MRN-1'') = None)
   \<and> build_global_identifier_map [Some plain_url_doc] (JStr ''MRN-1'')
       = Some (JStr ''Patient'', JStr ''p1'')"
proof -
  have "build_uuid_to_resource_type_map plain_url_doc = Inr (Map.empty, Map.empty)"
    by (simp add: build_uuid_to_resource_type_map_def plain_url_doc_def get_or_def has_key_def
        index_entry_def startswith_def)
  then have 1: "\<exists>um im. build_uuid_to_resource_type_map plain_url_doc = Inr (um, im) \<and>
             im (JStr ''MRN-1'') = None" by simp
  have 2: "build_global_identifier_map [Some plain_url_doc] (JStr ''MRN-1'')
       = Some (JStr ''Patient'', JStr ''p1'')" by code_simp
  from 1 2 show ?thesis by (intro conjI)
qed

theorem local_map_witness:
  "build_global_identifier_map [Some (JObj urn_doc)] (JStr ''MRN-1'')
     = Some (JStr ''Patient'', JStr ''p1'')
   \<and> (\<exists>um im. build_uuid_to_resource_type_map (JObj urn_doc) = Inr (um, im) \<and>
         build_global_identifier_map [Some (JObj urn_doc)] = im \<and>
         im (JStr ''MRN-1'') = Some (JStr ''Patient'', JStr ''p1'') \<and>
         im (JStr '''') = None)"
proof -
  let ?i = "[(''system'', JStr ''http://x''), (''value'', JStr ''MRN-1'')]"
  let ?ids = "[JObj ?i, JObj [(''value'', JStr '''')], JStr ''x'']"
  let ?r = "[(''resourceType'', JStr ''Patient''), (''id'', JStr ''p1''),
             (''identifier'', JArr ?ids)]"
  let ?ed = "[(''fullUrl'', JStr ''urn:uuid:6c0b7f20-5c92-efd9-779b-c9ac40656b44''),
              (''resource'', JObj ?r)]"
  let ?es = "[JObj ?ed]"
  have e: "map_of urn_doc ''entry'' = Some (JArr ?es)" "\<forall>e\<in>set ?es. urn_entry e"
    by code_simp+
  have isb: "get_or urn_doc ''resourceType'' JNull = JStr ''Bundle''" by code_simp
  have h: "JObj ?ed \<in> set ?es \<and> urn_entry (JObj ?ed) \<and>
           get_or ?ed ''resource'' (JObj []) = JObj ?r \<and>
           truthy (get_or ?r ''resourceType'' JNull) \<and> truthy (get_or ?r ''id'' JNull) \<and>
           get_or ?r ''identifier'' (JArr []) = JArr ?ids \<and> JObj ?i \<in> set ?ids \<and>
           get_or ?i ''value'' JNull = JStr ''MRN-1'' \<and> ''MRN-1'' \<noteq> []"
    by code_simp
  have l: "\<exists>pre. ?es = pre @ [JObj ?ed]" by (rule exI[of _ "[]"]) simp
  have ty: "get_or ?r ''resourceType'' JNull = JStr ''Patient''"
    "get_or ?r ''id'' JNull = JStr ''p1''" by code_simp+
  have v: "build_global_identifier_map [Some (JObj urn_doc)] (JStr ''MRN-1'')
     = Some (JStr ''Patient'', JStr ''p1'')" by code_simp
  obtain um im where b: "build_uuid_to_resource_type_map (JObj urn_doc) = Inr (um, im)"
  proof -
    have "\<exists>m. build_uuid_to_resource_type_map (JObj urn_doc) = Inr m"
      by (simp add: build_uuid_to_resource_type_map_def urn_doc_def get_or_def has_key_def
          index_entry_def startswith_def record_identifiers_def record_identifier_def Let_def)
    then show ?thesis using that by (metis prod.exhaust)
  qed
  note all = local_map_is_aggregate_of_urn_entries[OF b e(1)]
  from all[THEN conjunct2, THEN conjunct1] e(2)
  have same: "build_global_identifier_map [Some (JObj urn_doc)] = im" by (rule mp)
  note inb = all[THEN conjunct2, THEN conjunct2, THEN mp, OF isb]
  note contrib = inb[THEN conjunct2, THEN conjunct2, THEN conjunct1]
  note origin = inb[THEN conjunct2, THEN conjunct2, THEN conjunct2]
  from contrib[THEN spec, of ?ed, THEN spec, of ?r, THEN spec, of ?ids, THEN spec, of ?i,
      THEN spec, of "''MRN-1''", THEN mp, OF h, THEN conjunct2, THEN mp, OF l]
  have mrn: "im (JStr ''MRN-1'') = Some (JStr ''Patient'', JStr ''p1'')"
    unfolding ty .
  have empty: "im (JStr '''') = None"
  proof (cases "im (JStr '''')")
    case (Some t)
    from origin[THEN spec, of "JStr ''''", THEN spec, of t, THEN mp, OF Some]
    obtain i where i: "truthy (get_or i ''value'' JNull)"
      "dict_key (get_or i ''value'' JNull) = Inr (JStr '''')" by blast
    from i(2) have "get_or i ''value'' JNull = JStr ''''"
      by (cases "get_or i ''value'' JNull") (simp_all split: if_splits)
    with i(1) show ?thesis by simp
  qed simp
  from b same mrn empty have "\<exists>um im. build_uuid_to_resource_type_map (JObj urn_doc) = Inr (um, im) \<and>
         build_global_identifier_map [Some (JObj urn_doc)] = im \<and>
         im (JStr ''MRN-1'') = Some (JStr ''Patient'', JStr ''p1'') \<and>
         im (JStr '''') = None"
    by (intro exI conjI)
  with v show ?thesis by (intro conjI)
qed

end
